theory Spec2Isabelle
  imports Complex_Main
begin

section \<open>AllPlot: the ride plot of GoldenCheetah (src/AllPlot.cpp)\<close>

text \<open>
  A shallow embedding of \<^verbatim>\<open>AllPlot.cpp\<close>. The conventions:
  \<^item> a C++ \<^verbatim>\<open>double\<close> is a \<^typ>\<open>real\<close>: sums, quotients and comparisons are exact, so
    rounding, infinities and NaN are outside the model. The one exception is the index
    \<^verbatim>\<open>int(ceil(60*time))\<close> of a marker in distance mode, where the rounding of the quotient
    and of the product decides which element is read: there the two operations are
    rounded to binary64 (\<open>to_double\<close>);
  \<^item> a C++ \<^verbatim>\<open>int\<close> is an \<^typ>\<open>int\<close>; the one place where a value can leave the 32-bit
    range, the conversion \<^verbatim>\<open>(int) ceil(t)\<close> of a time stamp, is a branch of the model
    (\<open>CastOutOfRange\<close>). A counter that starts at 0 and is only incremented is a \<^typ>\<open>nat\<close>;
  \<^item> a \<^verbatim>\<open>QVector\<close>, \<^verbatim>\<open>QwtArray\<close> or \<^verbatim>\<open>QList\<close> is a list, a nullable pointer an
    \<^typ>\<open>'a option\<close>;
  \<^item> the widget is a record of the members of \<^verbatim>\<open>AllPlot\<close> and of the properties of the
    underlying \<^verbatim>\<open>QwtPlot\<close> that the code sets (titles, axis scales, curve data); every
    member function takes the record and returns the updated one;
  \<^item> a violated assertion, an index out of range and a negative vector size are values of
    the type \<open>fault\<close>.
\<close>

subsection \<open>Ride data (declared in RideFile.h, RideItem.h and Zones.h)\<close>

text \<open>The fields of \<^verbatim>\<open>RideFilePoint\<close> that the plot reads.\<close>

record RideFilePoint =
  pt_secs :: real
  pt_watts :: real
  pt_hr :: real
  pt_kph :: real
  pt_cad :: real
  pt_alt :: real
  pt_km :: real
  pt_interval :: int

record RideFileDataPresent =
  present_watts :: bool
  present_hr :: bool
  present_kph :: bool
  present_cad :: bool
  present_alt :: bool

text \<open>
  \<open>startTime\<close> is the start time as \<^verbatim>\<open>toString(GC_DATETIME_FORMAT)\<close> prints it.
\<close>

record RideFile =
  startTime :: string
  areDataPresent :: RideFileDataPresent
  dataPoints :: "RideFilePoint list"

text \<open>
  The class \<^verbatim>\<open>Zones\<close> is not part of the file; its three member functions that the plot
  calls are parameters, one field each.
\<close>

record Zones =
  getZoneLows :: "int \<Rightarrow> int list"
  getZoneNames :: "int \<Rightarrow> string list"
  numZones :: "int \<Rightarrow> int"

text \<open>
  \<open>zones\<close> is \<open>Some\<close> when both \<^verbatim>\<open>zones\<close> and \<^verbatim>\<open>*zones\<close> are non-null;
  \<open>zoneRange\<close> is the value of \<^verbatim>\<open>rideItem->zoneRange()\<close>.
\<close>

record RideItem =
  ride :: "RideFile option"
  zones :: "Zones option"
  zoneRange :: int

subsection \<open>The widget\<close>

datatype fault =
    CastOutOfRange
  | NegativeSize
  | WriteOutOfBounds int
  | ReadOutOfBounds int
  | AssertFailed

text \<open>
  A \<^verbatim>\<open>QwtPlotCurve\<close>: its title, whether it is visible, whether it is attached to the
  plot, whether it is drawn against the right axis, and the data given by
  \<^verbatim>\<open>setData\<close>.
\<close>

record QwtPlotCurve =
  curveTitle :: string
  visible :: bool
  attached :: bool
  onRightAxis :: bool
  xData :: "real list"
  yData :: "real list"

text \<open>
  An interval marker: a vertical line at \<open>xValue\<close>; \<open>mrkLabel\<close> is the number that
  \<^verbatim>\<open>QString::number\<close> prints into the label.
\<close>

record QwtPlotMarker =
  xValue :: real
  yValue :: real
  mrkLabel :: int

text \<open>
  An \<^verbatim>\<open>AllPlotZoneLabel\<close>. The constructor leaves \<^verbatim>\<open>watts\<close> and \<^verbatim>\<open>text\<close> unset when the
  plot is not shading or the zone number is too large: \<open>None\<close>.
\<close>

record AllPlotZoneLabel =
  zone_number :: int
  labelWatts :: "real option"
  labelText :: "string option"
  labelZ :: real

record AllPlot =
  unitSetting :: string
  useMetricUnits :: bool
  rideItem :: "RideItem option"
  smooth :: int
  bydist :: bool
  shade_zones :: bool
  wattsArray :: "real list"
  hrArray :: "real list"
  speedArray :: "real list"
  cadArray :: "real list"
  altArray :: "real list"
  timeArray :: "real list"
  distanceArray :: "real list"
  interArray :: "int list"
  arrayLength :: nat
  wattsCurve :: QwtPlotCurve
  hrCurve :: QwtPlotCurve
  speedCurve :: QwtPlotCurve
  cadCurve :: QwtPlotCurve
  altCurve :: QwtPlotCurve
  d_mrk :: "QwtPlotMarker list"
  zoneLabels :: "AllPlotZoneLabel list"
  plotTitle :: string
  xBottomTitle :: string
  yLeftTitle :: string
  yRightTitle :: string
  xBottomScale :: "real \<times> real"
  yLeftScale :: "real \<times> real"
  yRightEnabled :: bool

text \<open>\<^verbatim>\<open>static inline double max(double a, double b)\<close>\<close>

definition max_dbl :: "real \<Rightarrow> real \<Rightarrow> real" where
  "max_dbl a b = (if a > b then a else b)"

definition MILES_PER_KM :: real where
  "MILES_PER_KM = 62137119 / 100000000"

definition FEET_PER_M :: real where
  "FEET_PER_M = 32808399 / 10000000"

subsection \<open>shadeZones, setXTitle, setYMax\<close>

definition shadeZones :: "AllPlot \<Rightarrow> bool" where
  "shadeZones st = (shade_zones st \<and> wattsArray st \<noteq> [])"

definition setXTitle :: "AllPlot \<Rightarrow> AllPlot" where
  "setXTitle st =
     (if bydist st
      then st\<lparr>xBottomTitle :=
             ''Distance '' @ (if unitSetting st = ''Metric'' then ''(km)'' else ''(miles)'')\<rparr>
      else st\<lparr>xBottomTitle := ''Time (minutes)''\<rparr>)"

text \<open>
  One step of \<^verbatim>\<open>setYMax\<close>: \<^verbatim>\<open>ylabel += QString((ylabel == "") ? "" : " / ") + name\<close>.
\<close>

definition add_label :: "string \<Rightarrow> string \<Rightarrow> string" where
  "add_label ylabel name = ylabel @ (if ylabel = [] then [] else '' / '') @ name"

text \<open>
  \<^verbatim>\<open>QwtPlotCurve::maxYValue\<close> belongs to the plotting library: it is the parameter
  \<open>maxYValue\<close> of \<open>setYMax\<close> and of every function that calls it.
\<close>

definition setYMax :: "(QwtPlotCurve \<Rightarrow> real) \<Rightarrow> AllPlot \<Rightarrow> AllPlot" where
  "setYMax maxYValue st =
     (let ymax0 = 0; ylabel0 = [];
          (ymax1, ylabel1) =
             (if visible (wattsCurve st)
              then (max_dbl ymax0 (maxYValue (wattsCurve st)), add_label ylabel0 ''Watts'')
              else (ymax0, ylabel0));
          (ymax2, ylabel2) =
             (if visible (hrCurve st)
              then (max_dbl ymax1 (maxYValue (hrCurve st)), add_label ylabel1 ''BPM'')
              else (ymax1, ylabel1));
          (ymax3, ylabel3) =
             (if visible (cadCurve st)
              then (max_dbl ymax2 (maxYValue (cadCurve st)), add_label ylabel2 ''RPM'')
              else (ymax2, ylabel2));
          (ymax, ylabel) =
             (if visible (altCurve st)
              then (max_dbl ymax3 (maxYValue (altCurve st)),
                    if useMetricUnits st then add_label ylabel3 ''Meters''
                    else add_label ylabel3 ''Ft'')
              else (ymax3, ylabel3))
      in st\<lparr>yLeftScale := (0, ymax * 11 / 10),
            yLeftTitle := ylabel,
            yRightEnabled := visible (speedCurve st),
            yRightTitle := (if useMetricUnits st then ''KPH'' else ''MPH'')\<rparr>)"

subsection \<open>The constructor\<close>

text \<open>
  \<^verbatim>\<open>new QwtPlotCurve(title)\<close>: a curve of the library is visible, detached, drawn against
  the left axis and without data until told otherwise.
\<close>

definition QwtPlotCurve_new :: "string \<Rightarrow> QwtPlotCurve" where
  "QwtPlotCurve_new t =
     \<lparr>curveTitle = t, visible = True, attached = False, onRightAxis = False,
      xData = [], yData = []\<rparr>"

text \<open>
  \<^verbatim>\<open>AllPlot::AllPlot()\<close>. \<open>unit\<close> is the value of the application setting
  \<^verbatim>\<open>GC_UNIT\<close>; \<open>q\<close> is the object before the constructor body runs: the constructor
  assigns the members listed here and leaves the others of \<open>q\<close> (the properties of the
  fresh \<^verbatim>\<open>QwtPlot\<close>, and \<^verbatim>\<open>arrayLength\<close>, which it never initialises) as they are.
  The vectors and lists start empty. Pens, brushes, the legend and the grid are not
  modelled.
\<close>

definition AllPlot_new :: "string \<Rightarrow> AllPlot \<Rightarrow> AllPlot" where
  "AllPlot_new unit q =
     (let st = setXTitle (q\<lparr>unitSetting := unit,
                            useMetricUnits := (unit = ''Metric''),
                            rideItem := None,
                            smooth := 30,
                            bydist := False,
                            shade_zones := False,
                            wattsArray := [], hrArray := [], speedArray := [],
                            cadArray := [], altArray := [], timeArray := [],
                            distanceArray := [], interArray := [],
                            d_mrk := []\<rparr>)
      in st\<lparr>wattsCurve := QwtPlotCurve_new ''Power'',
            hrCurve := QwtPlotCurve_new ''Heart Rate'',
            speedCurve := (QwtPlotCurve_new ''Speed'')\<lparr>onRightAxis := True\<rparr>,
            cadCurve := QwtPlotCurve_new ''Cadence'',
            altCurve := QwtPlotCurve_new ''Altitude'',
            zoneLabels := []\<rparr>)"

subsection \<open>The background: AllPlotBackground::draw\<close>

record QRect =
  rleft :: int
  rtop :: int
  rright :: int
  rbottom :: int

record QColor =
  hue :: int
  saturation :: int
  colValue :: int

text \<open>C++ division of \<^verbatim>\<open>int\<close>s truncates towards zero.\<close>

definition cdiv :: "int \<Rightarrow> int \<Rightarrow> int" where
  "cdiv a b = (if (a < 0) = (b < 0) then \<bar>a\<bar> div \<bar>b\<bar> else - (\<bar>a\<bar> div \<bar>b\<bar>))"

text \<open>
  The body of the loop over the zones: the rectangle of zone \<open>z\<close> and its colour, filled
  only if its top is not below its bottom (pixel rows grow downwards). \<open>zoneColor\<close>
  (Zones.h) and the scale map \<open>yMap\<close> of the plot are parameters.
\<close>

definition draw_zone ::
  "(int \<Rightarrow> int \<Rightarrow> QColor) \<Rightarrow> (real \<Rightarrow> int) \<Rightarrow> QRect \<Rightarrow> int list \<Rightarrow> nat \<Rightarrow> (QRect \<times> QColor) list"
where
  "draw_zone zoneColor yMap rect zone_lows z =
     (let num_zones = length zone_lows;
          r = rect;
          c = zoneColor (int z) (int num_zones);
          shading_color = c\<lparr>saturation := cdiv (saturation c) 4\<rparr>;
          r = r\<lparr>rbottom := yMap (real_of_int (zone_lows ! z))\<rparr>;
          r = (if z + 1 < num_zones
               then r\<lparr>rtop := yMap (real_of_int (zone_lows ! (z + 1)))\<rparr> else r)
      in if rtop r \<le> rbottom r then [(r, shading_color)] else [])"

text \<open>
  \<^verbatim>\<open>AllPlotBackground::draw\<close>: the list of the \<^verbatim>\<open>fillRect\<close> calls, in order.
\<close>

definition draw ::
  "(int \<Rightarrow> int \<Rightarrow> QColor) \<Rightarrow> (real \<Rightarrow> int) \<Rightarrow> QRect \<Rightarrow> AllPlot \<Rightarrow> (QRect \<times> QColor) list"
where
  "draw zoneColor yMap rect st =
     (case rideItem st of
        None \<Rightarrow> []
      | Some item \<Rightarrow>
          (case zones item of
             None \<Rightarrow> []
           | Some zs \<Rightarrow>
               if shadeZones st \<and> zoneRange item \<ge> 0
               then (let zone_lows = getZoneLows zs (zoneRange item);
                         num_zones = length zone_lows
                     in if num_zones > 0
                        then concat (map (draw_zone zoneColor yMap rect zone_lows) [0..<num_zones])
                        else [])
               else []))"

subsection \<open>Zone labels\<close>

text \<open>
  The constructor \<^verbatim>\<open>AllPlotZoneLabel(parent, zone_number)\<close>; \<^verbatim>\<open>refreshZoneLabels\<close> calls
  it with the loop counter, which starts at 0.
\<close>

definition newZoneLabel :: "AllPlot \<Rightarrow> nat \<Rightarrow> fault + AllPlotZoneLabel" where
  "newZoneLabel parent zn =
     (let unset = \<lparr>zone_number = int zn, labelWatts = None, labelText = None,
                    labelZ = 1 + real zn / 100\<rparr>
      in case rideItem parent of
           None \<Rightarrow> Inr (unset\<lparr>labelZ := 0\<rparr>)
         | Some item \<Rightarrow>
            (case zones item of
               None \<Rightarrow> Inr unset
             | Some zs \<Rightarrow>
                 if shadeZones parent \<and> zoneRange item \<ge> 0
                 then (let zone_lows = getZoneLows zs (zoneRange item);
                           zone_names = getZoneNames zs (zoneRange item);
                           num_zones = length zone_lows
                       in if length zone_names \<noteq> num_zones then Inl AssertFailed
                          else if zn < num_zones
                          then Inr (unset\<lparr>
                            labelWatts := Some
                              (if zn + 1 < num_zones
                               then (real_of_int (zone_lows ! zn + zone_lows ! (zn + 1))) / 2
                               else if zn > 0
                               then 3 / 2 * real_of_int (zone_lows ! zn)
                                    - 1 / 2 * real_of_int (zone_lows ! (zn - 1))
                               else 2 * real_of_int (zone_lows ! zn)),
                            labelText := Some (zone_names ! zn)\<rparr>)
                          else Inr unset)
                 else Inr unset))"

fun newZoneLabels :: "AllPlot \<Rightarrow> nat list \<Rightarrow> fault + AllPlotZoneLabel list" where
  "newZoneLabels parent [] = Inr []"
| "newZoneLabels parent (z # zs) =
     (case newZoneLabel parent z of
        Inl e \<Rightarrow> Inl e
      | Inr label \<Rightarrow>
          (case newZoneLabels parent zs of
             Inl e \<Rightarrow> Inl e
           | Inr labels \<Rightarrow> Inr (label # labels)))"

definition refreshZoneLabels :: "AllPlot \<Rightarrow> fault + AllPlot" where
  "refreshZoneLabels st0 =
     (let st = st0\<lparr>zoneLabels := []\<rparr>
      in case rideItem st of
           None \<Rightarrow> Inr st
         | Some item \<Rightarrow>
            (case zones item of
               None \<Rightarrow> Inr st
             | Some zs \<Rightarrow>
                 if zoneRange item \<ge> 0
                 then (case newZoneLabels st [0..<nat (numZones zs (zoneRange item))] of
                         Inl e \<Rightarrow> Inl e
                       | Inr labels \<Rightarrow> Inr (st\<lparr>zoneLabels := labels\<rparr>))
                 else Inr st))"

subsection \<open>recalc: the local variables\<close>

record DataPoint =
  dp_time :: real
  dp_hr :: real
  dp_watts :: real
  dp_speed :: real
  dp_cad :: real
  dp_alt :: real
  dp_inter :: int

text \<open>
  The local variables of \<^verbatim>\<open>recalc\<close>. \<open>dplist\<close> is the queue \<^verbatim>\<open>list\<close>, \<open>idx\<close> the
  index \<^verbatim>\<open>i\<close> into the sample arrays. \<open>interList\<close> is the \<^verbatim>\<open>QMap<double, int>\<close>, kept as
  the list of its entries in ascending order of the key.
\<close>

record locals =
  totalWatts :: real
  totalHr :: real
  totalSpeed :: real
  totalCad :: real
  totalDist :: real
  totalAlt :: real
  dplist :: "DataPoint list"
  smoothWatts :: "real list"
  smoothHr :: "real list"
  smoothSpeed :: "real list"
  smoothCad :: "real list"
  smoothTime :: "real list"
  smoothDistance :: "real list"
  smoothAltitude :: "real list"
  interList :: "(real \<times> int) list"
  lastInterval :: int
  idx :: nat

text \<open>\<^verbatim>\<open>interList[k] = v\<close>: replaces the value of an existing key, inserts a new key in order.\<close>

fun qmap_set :: "real \<Rightarrow> int \<Rightarrow> (real \<times> int) list \<Rightarrow> (real \<times> int) list" where
  "qmap_set k v [] = [(k, v)]"
| "qmap_set k v ((k', v') # m) =
     (if k < k' then (k, v) # (k', v') # m
      else if k = k' then (k, v) # m
      else (k', v') # qmap_set k v m)"

text \<open>
  The conversion \<^verbatim>\<open>(int) x\<close> of a \<^verbatim>\<open>double\<close> that holds the whole number \<open>n\<close>: undefined in
  C++ when \<open>n\<close> is not a value of \<^verbatim>\<open>int\<close>.
\<close>

definition int_cast :: "int \<Rightarrow> fault + int" where
  "int_cast n = (if - (2 ^ 31) \<le> n \<and> n < 2 ^ 31 then Inr n else Inl CastOutOfRange)"

text \<open>\<^verbatim>\<open>(!arr.empty() ? arr[i] : 0)\<close>\<close>

definition chan :: "real list \<Rightarrow> nat \<Rightarrow> real" where
  "chan arr i = (if arr \<noteq> [] then arr ! i else 0)"

text \<open>The \<^verbatim>\<open>DataPoint dp\<close> that the first inner loop builds from sample \<open>i\<close>.\<close>

definition dp_at :: "AllPlot \<Rightarrow> nat \<Rightarrow> DataPoint" where
  "dp_at st i =
     \<lparr>dp_time = timeArray st ! i,
      dp_hr = chan (hrArray st) i,
      dp_watts = chan (wattsArray st) i,
      dp_speed = chan (speedArray st) i,
      dp_cad = chan (cadArray st) i,
      dp_alt = chan (altArray st) i,
      dp_inter = interArray st ! i\<rparr>"

subsection \<open>recalc: the loops\<close>

text \<open>The first loop: the bins before the smoothing window is full.\<close>

definition init_step :: "int \<Rightarrow> locals \<Rightarrow> locals" where
  "init_step secs l =
     l\<lparr>smoothWatts := (smoothWatts l)[nat secs := 0],
       smoothHr := (smoothHr l)[nat secs := 0],
       smoothSpeed := (smoothSpeed l)[nat secs := 0],
       smoothCad := (smoothCad l)[nat secs := 0],
       smoothTime := (smoothTime l)[nat secs := real_of_int secs / 60],
       smoothDistance := (smoothDistance l)[nat secs := 0],
       smoothAltitude := (smoothAltitude l)[nat secs := 0]\<rparr>"

text \<open>
  \<^verbatim>\<open>for (int secs = 0; ((secs < smooth) && (secs < rideTimeSecs)); ++secs)\<close>; the index
  \<open>secs\<close> satisfies \<open>0 \<le> secs < rideTimeSecs\<close>, inside the vectors of size
  \<open>rideTimeSecs + 1\<close>.
\<close>

function init_loop :: "int \<Rightarrow> int \<Rightarrow> int \<Rightarrow> locals \<Rightarrow> locals" where
  "init_loop smth rideTimeSecs secs l =
     (if secs < smth \<and> secs < rideTimeSecs
      then init_loop smth rideTimeSecs (secs + 1) (init_step secs l)
      else l)"
  by pat_completeness auto
termination
  by (relation "measure (\<lambda>(smth, rideTimeSecs, secs, l). nat (rideTimeSecs - secs))") auto

declare init_loop.simps [simp del]

text \<open>The body of \<^verbatim>\<open>while ((i < arrayLength) && (timeArray[i] <= secs))\<close>.\<close>

definition consume_step :: "AllPlot \<Rightarrow> int \<Rightarrow> locals \<Rightarrow> locals" where
  "consume_step st secs l =
     (let i = idx l;
          dp = dp_at st i;
          l = l\<lparr>totalWatts := (if wattsArray st \<noteq> [] then totalWatts l + wattsArray st ! i
                                 else totalWatts l)\<rparr>;
          l = l\<lparr>totalHr := (if hrArray st \<noteq> [] then totalHr l + hrArray st ! i
                              else totalHr l)\<rparr>;
          l = l\<lparr>totalSpeed := (if speedArray st \<noteq> [] then totalSpeed l + speedArray st ! i
                                 else totalSpeed l)\<rparr>;
          l = l\<lparr>totalCad := (if cadArray st \<noteq> [] then totalCad l + cadArray st ! i
                               else totalCad l)\<rparr>;
          l = l\<lparr>totalAlt := (if altArray st \<noteq> [] then totalAlt l + altArray st ! i
                               else totalAlt l)\<rparr>;
          l = l\<lparr>totalDist := distanceArray st ! i\<rparr>;
          l = l\<lparr>dplist := dplist l @ [dp]\<rparr>;
          l = l\<lparr>interList := (if lastInterval l \<noteq> interArray st ! i
                                then qmap_set (real_of_int secs / 60) (interArray st ! i) (interList l)
                                else interList l),
                 lastInterval := (if lastInterval l \<noteq> interArray st ! i
                                   then interArray st ! i else lastInterval l)\<rparr>
      in l\<lparr>idx := i + 1\<rparr>)"

function consume :: "AllPlot \<Rightarrow> int \<Rightarrow> locals \<Rightarrow> locals" where
  "consume st secs l =
     (if idx l < arrayLength st \<and> timeArray st ! idx l \<le> real_of_int secs
      then consume st secs (consume_step st secs l)
      else l)"
  by pat_completeness auto
termination
  by (relation "measure (\<lambda>(st, secs, l). arrayLength st - idx l)")
     (auto simp: consume_step_def Let_def)

declare consume.simps [simp del]

text \<open>
  \<^verbatim>\<open>while (!list.empty() && (list.front().time < secs - smooth))\<close>: the samples that
  have left the window are taken out of the totals and off the front of the queue.
\<close>

definition evict_step :: "locals \<Rightarrow> locals" where
  "evict_step l =
     (let dp = hd (dplist l)
      in l\<lparr>totalWatts := totalWatts l - dp_watts dp,
           totalHr := totalHr l - dp_hr dp,
           totalSpeed := totalSpeed l - dp_speed dp,
           totalCad := totalCad l - dp_cad dp,
           totalAlt := totalAlt l - dp_alt dp,
           dplist := tl (dplist l)\<rparr>)"

function evict :: "AllPlot \<Rightarrow> int \<Rightarrow> locals \<Rightarrow> locals" where
  "evict st secs l =
     (if dplist l \<noteq> [] \<and> dp_time (hd (dplist l)) < real_of_int (secs - smooth st)
      then evict st secs (evict_step l)
      else l)"
  by pat_completeness auto
termination
  by (relation "measure (\<lambda>(st, secs, l). length (dplist l))")
     (auto simp: evict_step_def Let_def)

declare evict.simps [simp del]

text \<open>
  The rest of the body of the main loop: the entries of bin \<open>secs\<close>. All seven vectors
  have the same size, so one test stands for the seven writes at index \<open>secs\<close>. With an
  empty queue the four writes of 0 come first and then the read of
  \<^verbatim>\<open>smoothAltitude[secs - 1]\<close>.
\<close>

definition store_bin :: "int \<Rightarrow> locals \<Rightarrow> fault + locals" where
  "store_bin secs l =
     (if secs < 0 \<or> int (length (smoothWatts l)) \<le> secs then Inl (WriteOutOfBounds secs)
      else if dplist l = []
      then (if secs - 1 < 0 \<or> int (length (smoothAltitude l)) \<le> secs - 1
            then Inl (ReadOutOfBounds (secs - 1))
            else Inr (l\<lparr>smoothWatts := (smoothWatts l)[nat secs := 0],
                        smoothHr := (smoothHr l)[nat secs := 0],
                        smoothSpeed := (smoothSpeed l)[nat secs := 0],
                        smoothCad := (smoothCad l)[nat secs := 0],
                        smoothAltitude :=
                          (smoothAltitude l)[nat secs := smoothAltitude l ! nat (secs - 1)],
                        smoothDistance := (smoothDistance l)[nat secs := totalDist l],
                        smoothTime := (smoothTime l)[nat secs := real_of_int secs / 60]\<rparr>))
      else Inr (l\<lparr>smoothWatts := (smoothWatts l)[nat secs := totalWatts l / real (length (dplist l))],
                  smoothHr := (smoothHr l)[nat secs := totalHr l / real (length (dplist l))],
                  smoothSpeed := (smoothSpeed l)[nat secs := totalSpeed l / real (length (dplist l))],
                  smoothCad := (smoothCad l)[nat secs := totalCad l / real (length (dplist l))],
                  smoothAltitude :=
                    (smoothAltitude l)[nat secs := totalAlt l / real (length (dplist l))],
                  smoothDistance := (smoothDistance l)[nat secs := totalDist l],
                  smoothTime := (smoothTime l)[nat secs := real_of_int secs / 60]\<rparr>))"

definition bin_body :: "AllPlot \<Rightarrow> int \<Rightarrow> locals \<Rightarrow> fault + locals" where
  "bin_body st secs l = store_bin secs (evict st secs (consume st secs l))"

text \<open>\<^verbatim>\<open>for (int secs = smooth; secs <= rideTimeSecs; ++secs)\<close>\<close>

function main_loop :: "AllPlot \<Rightarrow> int \<Rightarrow> int \<Rightarrow> locals \<Rightarrow> fault + locals" where
  "main_loop st rideTimeSecs secs l =
     (if secs \<le> rideTimeSecs
      then (case bin_body st secs l of
              Inl e \<Rightarrow> Inl e
            | Inr l' \<Rightarrow> main_loop st rideTimeSecs (secs + 1) l')
      else Inr l)"
  by pat_completeness auto
termination
  by (relation "measure (\<lambda>(st, rideTimeSecs, secs, l). nat (rideTimeSecs + 1 - secs))") auto

declare main_loop.simps [simp del]

text \<open>
  The declarations: the totals are 0, the queue and the map are empty, a
  \<^verbatim>\<open>QVector<double>(n)\<close> holds \<open>n\<close> zeros.
\<close>

definition locals_new :: "nat \<Rightarrow> locals" where
  "locals_new n =
     \<lparr>totalWatts = 0, totalHr = 0, totalSpeed = 0, totalCad = 0, totalDist = 0, totalAlt = 0,
      dplist = [],
      smoothWatts = replicate n 0, smoothHr = replicate n 0, smoothSpeed = replicate n 0,
      smoothCad = replicate n 0, smoothTime = replicate n 0, smoothDistance = replicate n 0,
      smoothAltitude = replicate n 0,
      interList = [], lastInterval = 0, idx = 0\<rparr>"

text \<open>
  Lines 291 to 381 of \<^verbatim>\<open>recalc\<close>: the declarations and the two loops, for a ride of
  \<open>rideTimeSecs\<close> seconds. The result holds the smoothed vectors, the last total
  distance and the interval map.
\<close>

definition smoothing :: "AllPlot \<Rightarrow> int \<Rightarrow> fault + locals" where
  "smoothing st rideTimeSecs =
     (if rideTimeSecs + 1 < 0 then Inl NegativeSize
      else main_loop st rideTimeSecs (smooth st)
             (init_loop (smooth st) rideTimeSecs 0 (locals_new (nat (rideTimeSecs + 1)))))"

subsection \<open>recalc\<close>

text \<open>\<^verbatim>\<open>curve->setData(x, y, n)\<close> copies the first \<open>n\<close> entries of both arrays.\<close>

definition curve_setData :: "real list \<Rightarrow> real list \<Rightarrow> nat \<Rightarrow> QwtPlotCurve \<Rightarrow> QwtPlotCurve" where
  "curve_setData xs ys n c = c\<lparr>xData := take n xs, yData := take n ys\<rparr>"

text \<open>The branch for a ride of more than seven days: lines 278 to 289.\<close>

definition clear_curves :: "AllPlot \<Rightarrow> AllPlot" where
  "clear_curves st =
     (let data = []
      in st\<lparr>wattsCurve := (if wattsArray st \<noteq> [] then curve_setData data data 0 (wattsCurve st)
                              else wattsCurve st),
            hrCurve := (if hrArray st \<noteq> [] then curve_setData data data 0 (hrCurve st)
                        else hrCurve st),
            speedCurve := (if speedArray st \<noteq> [] then curve_setData data data 0 (speedCurve st)
                           else speedCurve st),
            cadCurve := (if cadArray st \<noteq> [] then curve_setData data data 0 (cadCurve st)
                         else cadCurve st),
            altCurve := (if altArray st \<noteq> [] then curve_setData data data 0 (altCurve st)
                         else altCurve st)\<rparr>)"

text \<open>Lines 383 to 395: the smoothed vectors become the data of the curves.\<close>

definition set_curves :: "AllPlot \<Rightarrow> int \<Rightarrow> locals \<Rightarrow> AllPlot" where
  "set_curves st rideTimeSecs l =
     (let xaxis = (if bydist st then smoothDistance l else smoothTime l);
          n = nat (rideTimeSecs + 1)
      in st\<lparr>wattsCurve := (if wattsArray st \<noteq> []
                              then curve_setData xaxis (smoothWatts l) n (wattsCurve st)
                              else wattsCurve st),
            hrCurve := (if hrArray st \<noteq> []
                        then curve_setData xaxis (smoothHr l) n (hrCurve st)
                        else hrCurve st),
            speedCurve := (if speedArray st \<noteq> []
                           then curve_setData xaxis (smoothSpeed l) n (speedCurve st)
                           else speedCurve st),
            cadCurve := (if cadArray st \<noteq> []
                         then curve_setData xaxis (smoothCad l) n (cadCurve st)
                         else cadCurve st),
            altCurve := (if altArray st \<noteq> []
                         then curve_setData xaxis (smoothAltitude l) n (altCurve st)
                         else altCurve st)\<rparr>)"

text \<open>
  IEEE 754 binary64 with the default rounding, to the nearest value and to the even one of
  two nearest: \<open>exponent x\<close> is the \<open>e\<close> with \<open>2 ^ e \<le> \<bar>x\<bar> < 2 ^ (e + 1)\<close>, and \<open>to_double x\<close>
  is the multiple of \<open>2 ^ (e - 52)\<close> nearest to \<open>x\<close> (of \<open>2 ^ (- 1074)\<close> for a subnormal). A
  value beyond the largest \<^verbatim>\<open>double\<close> is outside the model.
\<close>

fun log2_nat :: "nat \<Rightarrow> nat" where
  "log2_nat n = (if n < 2 then 0 else Suc (log2_nat (n div 2)))"

declare log2_nat.simps [simp del]

definition exponent :: "real \<Rightarrow> int" where
  "exponent x =
     (if 1 \<le> \<bar>x\<bar> then int (log2_nat (nat \<lfloor>\<bar>x\<bar>\<rfloor>))
      else - int (Suc (log2_nat (nat (\<lceil>1 / \<bar>x\<bar>\<rceil> - 1)))))"

definition round_even :: "real \<Rightarrow> int" where
  "round_even q =
     (let f = \<lfloor>q\<rfloor>
      in if q - real_of_int f < 1 / 2 then f
         else if 1 / 2 < q - real_of_int f then f + 1
         else if even f then f else f + 1)"

definition to_double :: "real \<Rightarrow> real" where
  "to_double x =
     (if x = 0 then 0
      else (let ulp = 2 powi (max (exponent x) (- 1022) - 52)
            in sgn x * real_of_int (round_even (\<bar>x\<bar> / ulp)) * ulp))"

text \<open>
  \<^verbatim>\<open>ceil(60*time)\<close> for a key \<^verbatim>\<open>time\<close> of the interval map. The key was stored as
  \<^verbatim>\<open>secs/60.0\<close>, the \<^verbatim>\<open>double\<close> nearest to the quotient, and the product is rounded again:
  the result is \<open>secs\<close> for most bins and \<open>secs + 1\<close> for some (31, 62, 124, ...).
\<close>

definition marker_index :: "real \<Rightarrow> int" where
  "marker_index time = \<lceil>to_double (60 * to_double time)\<rceil>"

text \<open>
  The position of the marker of the map entry with key \<open>time\<close>: the key itself, or in
  distance mode \<^verbatim>\<open>smoothDistance[int(ceil(60*time))]\<close>.
\<close>

definition marker_x :: "bool \<Rightarrow> real list \<Rightarrow> real \<Rightarrow> fault + real" where
  "marker_x bd smoothDist time =
     (if \<not> bd then Inr time
      else (case int_cast (marker_index time) of
              Inl e \<Rightarrow> Inl e
            | Inr j \<Rightarrow>
                if j < 0 \<or> int (length smoothDist) \<le> j then Inl (ReadOutOfBounds j)
                else Inr (smoothDist ! nat j)))"

text \<open>
  \<^verbatim>\<open>foreach(double time, interList.keys())\<close>: one marker for every entry of the map, in
  ascending order of the key, labelled with the entry's value \<^verbatim>\<open>interList[time]\<close>.
\<close>

fun new_markers :: "bool \<Rightarrow> real list \<Rightarrow> (real \<times> int) list \<Rightarrow> fault + QwtPlotMarker list" where
  "new_markers bd smoothDist [] = Inr []"
| "new_markers bd smoothDist ((time, n) # m) =
     (case marker_x bd smoothDist time of
        Inl e \<Rightarrow> Inl e
      | Inr x \<Rightarrow>
          (case new_markers bd smoothDist m of
             Inl e \<Rightarrow> Inl e
           | Inr ms \<Rightarrow> Inr (\<lparr>xValue = x, yValue = 0, mrkLabel = n\<rparr> # ms)))"

text \<open>Lines 383 to 425.\<close>

definition recalc_finish :: "(QwtPlotCurve \<Rightarrow> real) \<Rightarrow> AllPlot \<Rightarrow> int \<Rightarrow> locals \<Rightarrow> fault + AllPlot" where
  "recalc_finish maxYValue st0 rideTimeSecs l =
     (let st = set_curves st0 rideTimeSecs l
      in if \<not> bydist st \<and> (rideTimeSecs < 0 \<or> int (length (smoothTime l)) \<le> rideTimeSecs)
         then Inl (ReadOutOfBounds rideTimeSecs)
         else (let st = st\<lparr>xBottomScale :=
                           (0, if bydist st then totalDist l else smoothTime l ! nat rideTimeSecs)\<rparr>;
                   st = setYMax maxYValue st
               in case refreshZoneLabels st of
                    Inl e \<Rightarrow> Inl e
                  | Inr st \<Rightarrow>
                      (case new_markers (bydist st) (smoothDistance l) (interList l) of
                         Inl e \<Rightarrow> Inl e
                       | Inr ms \<Rightarrow> Inr (st\<lparr>d_mrk := ms\<rparr>))))"

text \<open>
  \<^verbatim>\<open>AllPlot::recalc\<close>. The read of \<^verbatim>\<open>timeArray[arrayLength - 1]\<close> is a fault when
  \<^verbatim>\<open>arrayLength\<close> is not a length of the array.
\<close>

definition recalc :: "(QwtPlotCurve \<Rightarrow> real) \<Rightarrow> AllPlot \<Rightarrow> fault + AllPlot" where
  "recalc maxYValue st =
     (if timeArray st = [] then Inr st
      else if arrayLength st = 0 \<or> length (timeArray st) < arrayLength st
      then Inl (ReadOutOfBounds (int (arrayLength st) - 1))
      else (case int_cast \<lceil>timeArray st ! (arrayLength st - 1)\<rceil> of
              Inl e \<Rightarrow> Inl e
            | Inr rideTimeSecs \<Rightarrow>
                if rideTimeSecs > 7 * 24 * 60 * 60 then Inr (clear_curves st)
                else (case smoothing st rideTimeSecs of
                        Inl e \<Rightarrow> Inl e
                      | Inr l \<Rightarrow> recalc_finish maxYValue st rideTimeSecs l)))"

subsection \<open>setData\<close>

text \<open>\<^verbatim>\<open>QVector::resize\<close>: cut, or filled up with zeros.\<close>

definition resize :: "nat \<Rightarrow> real list \<Rightarrow> real list" where
  "resize n xs = take n xs @ replicate (n - length xs) 0"

definition resize_int :: "nat \<Rightarrow> int list \<Rightarrow> int list" where
  "resize_int n xs = take n xs @ replicate (n - length xs) 0"

text \<open>The body of the loop over the points of the ride: lines 507 to 530.\<close>

definition load_point :: "RideFilePoint \<Rightarrow> AllPlot \<Rightarrow> AllPlot" where
  "load_point point st =
     (let n = arrayLength st
      in st\<lparr>timeArray := (timeArray st)[n := pt_secs point],
            wattsArray := (if wattsArray st \<noteq> []
                           then (wattsArray st)[n := max_dbl 0 (pt_watts point)]
                           else wattsArray st),
            hrArray := (if hrArray st \<noteq> []
                        then (hrArray st)[n := max_dbl 0 (pt_hr point)]
                        else hrArray st),
            speedArray := (if speedArray st \<noteq> []
                           then (speedArray st)[n := max_dbl 0
                                  (if useMetricUnits st then pt_kph point
                                   else pt_kph point * MILES_PER_KM)]
                           else speedArray st),
            cadArray := (if cadArray st \<noteq> []
                         then (cadArray st)[n := max_dbl 0 (pt_cad point)]
                         else cadArray st),
            altArray := (if altArray st \<noteq> []
                         then (altArray st)[n := max_dbl 0
                                (if useMetricUnits st then pt_alt point
                                 else pt_alt point * FEET_PER_M)]
                         else altArray st),
            interArray := (interArray st)[n := pt_interval point],
            distanceArray := (distanceArray st)[n := max_dbl 0
                               (if useMetricUnits st then pt_km point
                                else pt_km point * MILES_PER_KM)],
            arrayLength := n + 1\<rparr>)"

fun load_points :: "RideFilePoint list \<Rightarrow> AllPlot \<Rightarrow> AllPlot" where
  "load_points [] st = st"
| "load_points (point # points) st = load_points points (load_point point st)"

text \<open>
  The part of \<^verbatim>\<open>setData\<close> for an item with ride data, up to the call of \<^verbatim>\<open>recalc\<close>:
  lines 479 to 531. \<open>resize_arrays\<close> is lines 481 to 490.
\<close>

definition resize_arrays :: "RideFile \<Rightarrow> AllPlot \<Rightarrow> AllPlot" where
  "resize_arrays r st =
     (let dataPresent = areDataPresent r;
          npoints = length (dataPoints r)
      in st\<lparr>wattsArray := resize (if present_watts dataPresent then npoints else 0) (wattsArray st),
            hrArray := resize (if present_hr dataPresent then npoints else 0) (hrArray st),
            speedArray := resize (if present_kph dataPresent then npoints else 0) (speedArray st),
            cadArray := resize (if present_cad dataPresent then npoints else 0) (cadArray st),
            altArray := resize (if present_alt dataPresent then npoints else 0) (altArray st),
            timeArray := resize npoints (timeArray st),
            interArray := resize_int npoints (interArray st),
            distanceArray := resize npoints (distanceArray st)\<rparr>)"

text \<open>Lines 492 to 502: every curve is detached, then those with data are attached.\<close>

definition attach_curves :: "AllPlot \<Rightarrow> AllPlot" where
  "attach_curves st =
     st\<lparr>wattsCurve := (wattsCurve st)\<lparr>attached := (if wattsArray st \<noteq> [] then True else False)\<rparr>,
        hrCurve := (hrCurve st)\<lparr>attached := (if hrArray st \<noteq> [] then True else False)\<rparr>,
        speedCurve := (speedCurve st)\<lparr>attached := (if speedArray st \<noteq> [] then True else False)\<rparr>,
        cadCurve := (cadCurve st)\<lparr>attached := (if cadArray st \<noteq> [] then True else False)\<rparr>,
        altCurve := (altCurve st)\<lparr>attached := (if altArray st \<noteq> [] then True else False)\<rparr>\<rparr>"

definition load_ride :: "RideFile \<Rightarrow> AllPlot \<Rightarrow> AllPlot" where
  "load_ride r st =
     (let st = st\<lparr>plotTitle := startTime r\<rparr>;
          st = resize_arrays r st;
          st = attach_curves st;
          st = st\<lparr>arrayLength := 0\<rparr>
      in load_points (dataPoints r) st)"

definition setData :: "(QwtPlotCurve \<Rightarrow> real) \<Rightarrow> RideItem \<Rightarrow> AllPlot \<Rightarrow> fault + AllPlot" where
  "setData maxYValue item st0 =
     (let st = st0\<lparr>rideItem := Some item, wattsArray := []\<rparr>
      in case ride item of
           Some r \<Rightarrow> recalc maxYValue (load_ride r st)
         | None \<Rightarrow>
             Inr (st\<lparr>plotTitle := ''no data'',
                     wattsCurve := (wattsCurve st)\<lparr>attached := False\<rparr>,
                     hrCurve := (hrCurve st)\<lparr>attached := False\<rparr>,
                     speedCurve := (speedCurve st)\<lparr>attached := False\<rparr>,
                     cadCurve := (cadCurve st)\<lparr>attached := False\<rparr>,
                     altCurve := (altCurve st)\<lparr>attached := False\<rparr>\<rparr>))"

subsection \<open>The controls\<close>

text \<open>The parameter \<^verbatim>\<open>id\<close> of \<^verbatim>\<open>showPower\<close> and \<^verbatim>\<open>setByDistance\<close> is \<open>ident\<close> here.\<close>

definition showPower :: "(QwtPlotCurve \<Rightarrow> real) \<Rightarrow> int \<Rightarrow> AllPlot \<Rightarrow> fault + AllPlot" where
  "showPower maxYValue ident st =
     (let st = st\<lparr>wattsCurve := (wattsCurve st)\<lparr>visible := (ident < 2)\<rparr>\<rparr>;
          st = st\<lparr>shade_zones := (ident = 0)\<rparr>;
          st = setYMax maxYValue st
      in recalc maxYValue st)"

text \<open>
  \<^verbatim>\<open>Qt::Unchecked\<close>, \<^verbatim>\<open>Qt::PartiallyChecked\<close> and \<^verbatim>\<open>Qt::Checked\<close> are 0, 1 and 2.
\<close>

definition showHr :: "(QwtPlotCurve \<Rightarrow> real) \<Rightarrow> int \<Rightarrow> AllPlot \<Rightarrow> fault + AllPlot" where
  "showHr maxYValue state st =
     (if state = 1 then Inl AssertFailed
      else Inr (setYMax maxYValue (st\<lparr>hrCurve := (hrCurve st)\<lparr>visible := (state = 2)\<rparr>\<rparr>)))"

definition showSpeed :: "(QwtPlotCurve \<Rightarrow> real) \<Rightarrow> int \<Rightarrow> AllPlot \<Rightarrow> fault + AllPlot" where
  "showSpeed maxYValue state st =
     (if state = 1 then Inl AssertFailed
      else Inr (setYMax maxYValue (st\<lparr>speedCurve := (speedCurve st)\<lparr>visible := (state = 2)\<rparr>\<rparr>)))"

definition showCad :: "(QwtPlotCurve \<Rightarrow> real) \<Rightarrow> int \<Rightarrow> AllPlot \<Rightarrow> fault + AllPlot" where
  "showCad maxYValue state st =
     (if state = 1 then Inl AssertFailed
      else Inr (setYMax maxYValue (st\<lparr>cadCurve := (cadCurve st)\<lparr>visible := (state = 2)\<rparr>\<rparr>)))"

definition showAlt :: "(QwtPlotCurve \<Rightarrow> real) \<Rightarrow> int \<Rightarrow> AllPlot \<Rightarrow> fault + AllPlot" where
  "showAlt maxYValue state st =
     (if state = 1 then Inl AssertFailed
      else Inr (setYMax maxYValue (st\<lparr>altCurve := (altCurve st)\<lparr>visible := (state = 2)\<rparr>\<rparr>)))"

definition setSmoothing :: "(QwtPlotCurve \<Rightarrow> real) \<Rightarrow> int \<Rightarrow> AllPlot \<Rightarrow> fault + AllPlot" where
  "setSmoothing maxYValue v st = recalc maxYValue (st\<lparr>smooth := v\<rparr>)"

definition setByDistance :: "(QwtPlotCurve \<Rightarrow> real) \<Rightarrow> int \<Rightarrow> AllPlot \<Rightarrow> fault + AllPlot" where
  "setByDistance maxYValue ident st =
     recalc maxYValue (setXTitle (st\<lparr>bydist := (ident = 1)\<rparr>))"

section \<open>Auxiliary definitions\<close>

text \<open>The state in which \<open>load_ride\<close> enters its loop.\<close>

definition pre_load :: "RideFile \<Rightarrow> AllPlot \<Rightarrow> AllPlot" where
  "pre_load r st = (attach_curves (resize_arrays r (st\<lparr>plotTitle := startTime r\<rparr>)))\<lparr>arrayLength := 0\<rparr>"

text \<open>
  The members that \<^verbatim>\<open>recalc\<close> only reads, and for each curve everything but its data.
\<close>

definition members :: "AllPlot \<Rightarrow> _" where
  "members st =
     (unitSetting st, useMetricUnits st, rideItem st, smooth st, bydist st, shade_zones st,
      (wattsArray st, hrArray st, speedArray st, cadArray st, altArray st),
      (timeArray st, distanceArray st, interArray st, arrayLength st),
      plotTitle st, xBottomTitle st)"

definition flags :: "QwtPlotCurve \<Rightarrow> _" where
  "flags c = (curveTitle c, visible c, attached c, onRightAxis c)"

definition curve_flags :: "AllPlot \<Rightarrow> _" where
  "curve_flags st =
     (flags (wattsCurve st), flags (hrCurve st), flags (speedCurve st), flags (cadCurve st),
      flags (altCurve st))"

text \<open>
  The zone names of the item of the plot are as many as its zone lows: the assertion of the
  constructor of a zone label holds.
\<close>

definition names_ok :: "AllPlot \<Rightarrow> bool" where
  "names_ok st =
     (case rideItem st of
        None \<Rightarrow> True
      | Some item \<Rightarrow>
          (case zones item of
             None \<Rightarrow> True
           | Some zs \<Rightarrow>
               length (getZoneNames zs (zoneRange item)) = length (getZoneLows zs (zoneRange item))))"

text \<open>The marker of an entry of the interval map in time mode.\<close>

definition time_marker :: "real \<times> int \<Rightarrow> QwtPlotMarker" where
  "time_marker e = \<lparr>xValue = fst e, yValue = 0, mrkLabel = snd e\<rparr>"

section \<open>Notions for the smoothing loop\<close>

text \<open>The samples of the loaded ride, as the data points that the loop builds of them.\<close>

definition samples :: "AllPlot \<Rightarrow> DataPoint list" where
  "samples st = map (dp_at st) [0..<arrayLength st]"

text \<open>
  The sample arrays as \<^verbatim>\<open>setData\<close> leaves them: \<open>arrayLength\<close> entries each, or none for a
  channel that the ride does not have.
\<close>

definition arrays_ok :: "AllPlot \<Rightarrow> bool" where
  "arrays_ok st =
     (length (timeArray st) = arrayLength st \<and>
      length (interArray st) = arrayLength st \<and>
      length (distanceArray st) = arrayLength st \<and>
      (wattsArray st = [] \<or> length (wattsArray st) = arrayLength st) \<and>
      (hrArray st = [] \<or> length (hrArray st) = arrayLength st) \<and>
      (speedArray st = [] \<or> length (speedArray st) = arrayLength st) \<and>
      (cadArray st = [] \<or> length (cadArray st) = arrayLength st) \<and>
      (altArray st = [] \<or> length (altArray st) = arrayLength st))"

text \<open>The unweighted arithmetic mean; of no values it is 0.\<close>

definition mean :: "real list \<Rightarrow> real" where
  "mean xs = (if xs = [] then 0 else sum_list xs / real (length xs))"

text \<open>The samples in the smoothing window of bin \<open>secs\<close>.\<close>

definition window :: "AllPlot \<Rightarrow> int \<Rightarrow> DataPoint list" where
  "window st secs =
     filter (\<lambda>p. real_of_int (secs - smooth st) \<le> dp_time p \<and> dp_time p \<le> real_of_int secs)
       (samples st)"

text \<open>
  The queue holds the samples from some index up to \<open>idx\<close>, and the totals are the sums
  over the queue.
\<close>

definition queue_ok :: "AllPlot \<Rightarrow> locals \<Rightarrow> bool" where
  "queue_ok st l =
     (idx l \<le> arrayLength st \<and>
      length (dplist l) \<le> idx l \<and>
      dplist l = map (dp_at st) [idx l - length (dplist l)..<idx l] \<and>
      totalWatts l = sum_list (map dp_watts (dplist l)) \<and>
      totalHr l = sum_list (map dp_hr (dplist l)) \<and>
      totalSpeed l = sum_list (map dp_speed (dplist l)) \<and>
      totalCad l = sum_list (map dp_cad (dplist l)) \<and>
      totalAlt l = sum_list (map dp_alt (dplist l)))"

definition vec_len :: "nat \<Rightarrow> locals \<Rightarrow> bool" where
  "vec_len n l =
     (length (smoothWatts l) = n \<and> length (smoothHr l) = n \<and> length (smoothSpeed l) = n \<and>
      length (smoothCad l) = n \<and> length (smoothTime l) = n \<and> length (smoothDistance l) = n \<and>
      length (smoothAltitude l) = n)"

text \<open>The seven vectors, and the other local variables.\<close>

definition vectors :: "locals \<Rightarrow> _" where
  "vectors l =
     (smoothWatts l, smoothHr l, smoothSpeed l, smoothCad l, smoothTime l, smoothDistance l,
      smoothAltitude l)"

definition accus :: "locals \<Rightarrow> _" where
  "accus l =
     (totalWatts l, totalHr l, totalSpeed l, totalCad l, totalDist l, totalAlt l, dplist l,
      interList l, lastInterval l, idx l)"

text \<open>
  Every sample taken so far has a time stamp of at most \<open>s\<close>; every sample that has left
  the queue has a time stamp below \<open>b\<close>.
\<close>

definition consumed_upto :: "AllPlot \<Rightarrow> locals \<Rightarrow> real \<Rightarrow> bool" where
  "consumed_upto st l s = (\<forall>j < idx l. timeArray st ! j \<le> s)"

definition evicted_below :: "AllPlot \<Rightarrow> locals \<Rightarrow> real \<Rightarrow> bool" where
  "evicted_below st l b = (\<forall>j < idx l - length (dplist l). timeArray st ! j < b)"

text \<open>What holds of the local variables when the main loop reaches bin \<open>secs\<close>.\<close>

definition at_bin :: "AllPlot \<Rightarrow> nat \<Rightarrow> int \<Rightarrow> locals \<Rightarrow> bool" where
  "at_bin st n secs l =
     (queue_ok st l \<and> consumed_upto st l (real_of_int secs) \<and>
      evicted_below st l (real_of_int (secs - smooth st)) \<and> vec_len n l)"

text \<open>The altitude of bin \<open>secs\<close>, given the vector as it was when the loop reached the bin.\<close>

definition altitude_value :: "AllPlot \<Rightarrow> int \<Rightarrow> real list \<Rightarrow> real" where
  "altitude_value st secs v =
     (if window st secs = [] then v ! nat (secs - 1) else mean (map dp_alt (window st secs)))"

text \<open>The bins from \<open>s0\<close> up to, not including, \<open>secs\<close> hold their final values.\<close>

definition bins_done :: "AllPlot \<Rightarrow> int \<Rightarrow> int \<Rightarrow> locals \<Rightarrow> bool" where
  "bins_done st s0 secs l =
     (\<forall>k. s0 \<le> k \<and> k < secs \<longrightarrow>
        smoothWatts l ! nat k = mean (map dp_watts (window st k)) \<and>
        smoothHr l ! nat k = mean (map dp_hr (window st k)) \<and>
        smoothSpeed l ! nat k = mean (map dp_speed (window st k)) \<and>
        smoothCad l ! nat k = mean (map dp_cad (window st k)) \<and>
        smoothAltitude l ! nat k = altitude_value st k (smoothAltitude l) \<and>
        smoothTime l ! nat k = real_of_int k / 60)"

text \<open>The samples with a time stamp of at most \<open>secs\<close>.\<close>

definition past :: "AllPlot \<Rightarrow> int \<Rightarrow> DataPoint list" where
  "past st secs = filter (\<lambda>p. dp_time p \<le> real_of_int secs) (samples st)"

text \<open>
  The data point that the loop builds of a point of the ride, once \<^verbatim>\<open>setData\<close> has loaded it.
\<close>

definition sample_of :: "bool \<Rightarrow> RideFileDataPresent \<Rightarrow> RideFilePoint \<Rightarrow> DataPoint" where
  "sample_of metric present p =
     \<lparr>dp_time = pt_secs p,
      dp_hr = (if present_hr present then max_dbl 0 (pt_hr p) else 0),
      dp_watts = (if present_watts present then max_dbl 0 (pt_watts p) else 0),
      dp_speed = (if present_kph present
                  then max_dbl 0 (if metric then pt_kph p else pt_kph p * MILES_PER_KM) else 0),
      dp_cad = (if present_cad present then max_dbl 0 (pt_cad p) else 0),
      dp_alt = (if present_alt present
                then max_dbl 0 (if metric then pt_alt p else pt_alt p * FEET_PER_M) else 0),
      dp_inter = pt_interval p\<rparr>"

text \<open>The plot as \<^verbatim>\<open>setData\<close> hands it to \<^verbatim>\<open>recalc\<close>, for an item with the ride \<open>r\<close>.\<close>

definition loaded :: "RideItem \<Rightarrow> RideFile \<Rightarrow> AllPlot \<Rightarrow> AllPlot" where
  "loaded item r st = load_ride r (st\<lparr>rideItem := Some item, wattsArray := []\<rparr>)"

section \<open>Notions for the interval markers\<close>

text \<open>
  The transitions of a stream of samples that is read after the interval number \<open>prev\<close>: the
  samples whose interval number differs from the one before them. \<^verbatim>\<open>recalc\<close> starts with
  \<^verbatim>\<open>lastInterval = 0\<close>.
\<close>

fun transitions :: "int \<Rightarrow> DataPoint list \<Rightarrow> DataPoint list" where
  "transitions prev [] = []"
| "transitions prev (p # ps) =
     (if prev \<noteq> dp_inter p then p # transitions (dp_inter p) ps
      else transitions (dp_inter p) ps)"

text \<open>The interval number of the last of the samples, 0 when there is none.\<close>

definition last_inter :: "DataPoint list \<Rightarrow> int" where
  "last_inter ps = (if ps = [] then 0 else dp_inter (last ps))"

text \<open>
  The bin in which the main loop takes a sample: the first bin is \<open>smooth\<close>, and it takes
  every sample up to then.
\<close>

definition bin_of :: "AllPlot \<Rightarrow> DataPoint \<Rightarrow> int" where
  "bin_of st p = max (smooth st) \<lceil>dp_time p\<rceil>"

text \<open>The entries of the interval map for the transitions of the samples \<open>ps\<close>.\<close>

definition entries :: "AllPlot \<Rightarrow> DataPoint list \<Rightarrow> (real \<times> int) list" where
  "entries st ps = map (\<lambda>p. (real_of_int (bin_of st p) / 60, dp_inter p)) (transitions 0 ps)"

text \<open>
  The interval map when the main loop reaches bin \<open>secs\<close>, and the sample that it takes next.
\<close>

definition inter_ok :: "AllPlot \<Rightarrow> int \<Rightarrow> locals \<Rightarrow> bool" where
  "inter_ok st secs l =
     (interList l = entries st (take (idx l) (samples st)) \<and>
      lastInterval l = last_inter (take (idx l) (samples st)) \<and>
      consumed_upto st l (real_of_int secs) \<and>
      idx l \<le> arrayLength st \<and>
      (secs = smooth st \<or> idx l = arrayLength st \<or>
       real_of_int (secs - 1) < timeArray st ! idx l))"

text \<open>The marker of a transition in time mode.\<close>

definition interval_marker :: "AllPlot \<Rightarrow> DataPoint \<Rightarrow> QwtPlotMarker" where
  "interval_marker st p =
     \<lparr>xValue = real_of_int (bin_of st p) / 60, yValue = 0, mrkLabel = dp_inter p\<rparr>"

section \<open>Notions for the life of a plot\<close>

text \<open>
  The plots that the program can hold: the one that the constructor makes, and those that
  the member functions make of it when they return.
\<close>

inductive reachable :: "(QwtPlotCurve \<Rightarrow> real) \<Rightarrow> AllPlot \<Rightarrow> bool"
  for maxYValue :: "QwtPlotCurve \<Rightarrow> real"
where
  constructed: "reachable maxYValue (AllPlot_new unit q)"
| after_setData:
    "reachable maxYValue st \<Longrightarrow> setData maxYValue item st = Inr st' \<Longrightarrow> reachable maxYValue st'"
| after_recalc:
    "reachable maxYValue st \<Longrightarrow> recalc maxYValue st = Inr st' \<Longrightarrow> reachable maxYValue st'"
| after_refreshZoneLabels:
    "reachable maxYValue st \<Longrightarrow> refreshZoneLabels st = Inr st' \<Longrightarrow> reachable maxYValue st'"
| after_setYMax: "reachable maxYValue st \<Longrightarrow> reachable maxYValue (setYMax maxYValue st)"
| after_setXTitle: "reachable maxYValue st \<Longrightarrow> reachable maxYValue (setXTitle st)"
| after_showPower:
    "reachable maxYValue st \<Longrightarrow> showPower maxYValue ident st = Inr st' \<Longrightarrow> reachable maxYValue st'"
| after_showHr:
    "reachable maxYValue st \<Longrightarrow> showHr maxYValue state st = Inr st' \<Longrightarrow> reachable maxYValue st'"
| after_showSpeed:
    "reachable maxYValue st \<Longrightarrow> showSpeed maxYValue state st = Inr st' \<Longrightarrow> reachable maxYValue st'"
| after_showCad:
    "reachable maxYValue st \<Longrightarrow> showCad maxYValue state st = Inr st' \<Longrightarrow> reachable maxYValue st'"
| after_showAlt:
    "reachable maxYValue st \<Longrightarrow> showAlt maxYValue state st = Inr st' \<Longrightarrow> reachable maxYValue st'"
| after_setSmoothing:
    "reachable maxYValue st \<Longrightarrow> setSmoothing maxYValue v st = Inr st' \<Longrightarrow> reachable maxYValue st'"
| after_setByDistance:
    "reachable maxYValue st \<Longrightarrow> setByDistance maxYValue ident st = Inr st' \<Longrightarrow>
     reachable maxYValue st'"

text \<open>No value of the six arrays of measurements is negative.\<close>

definition nonneg_arrays :: "AllPlot \<Rightarrow> bool" where
  "nonneg_arrays st =
     (list_all (\<lambda>v. 0 \<le> v) (wattsArray st) \<and> list_all (\<lambda>v. 0 \<le> v) (hrArray st) \<and>
      list_all (\<lambda>v. 0 \<le> v) (speedArray st) \<and> list_all (\<lambda>v. 0 \<le> v) (cadArray st) \<and>
      list_all (\<lambda>v. 0 \<le> v) (altArray st) \<and> list_all (\<lambda>v. 0 \<le> v) (distanceArray st))"

section \<open>Notions for the axes\<close>

text \<open>
  The four curves that are drawn against the left axis, each with the name of its unit, in
  the order in which \<^verbatim>\<open>setYMax\<close> goes through them; and those of them that are visible.
\<close>

definition left_curves :: "AllPlot \<Rightarrow> (QwtPlotCurve \<times> string) list" where
  "left_curves st =
     [(wattsCurve st, ''Watts''), (hrCurve st, ''BPM''), (cadCurve st, ''RPM''),
      (altCurve st, if useMetricUnits st then ''Meters'' else ''Ft'')]"

definition visible_left :: "AllPlot \<Rightarrow> (QwtPlotCurve \<times> string) list" where
  "visible_left st = filter (\<lambda>e. visible (fst e)) (left_curves st)"

text \<open>The strings \<open>xs\<close> in a row, with \<open>sep\<close> between any two of them.\<close>

fun join :: "string \<Rightarrow> string list \<Rightarrow> string" where
  "join sep [] = []"
| "join sep [x] = x"
| "join sep (x # y # ys) = x @ sep @ join sep (y # ys)"

text \<open>
  The members derived of the unit setting agree with it: the flag \<^verbatim>\<open>useMetricUnits\<close>, and
  the title of the x-axis, which is the one that \<^verbatim>\<open>setXTitle\<close> would set.
\<close>

definition units_ok :: "AllPlot \<Rightarrow> bool" where
  "units_ok st =
     (useMetricUnits st = (unitSetting st = ''Metric'') \<and>
      xBottomTitle st = xBottomTitle (setXTitle st))"

section \<open>Notions for the curves\<close>

text \<open>The five curves of a plot, in the order of the constructor.\<close>

definition curves :: "AllPlot \<Rightarrow> QwtPlotCurve list" where
  "curves st = [wattsCurve st, hrCurve st, speedCurve st, cadCurve st, altCurve st]"

text \<open>The flags of the five channels of a ride, in the same order.\<close>

definition channels :: "RideFile \<Rightarrow> bool list" where
  "channels r =
     [present_watts (areDataPresent r), present_hr (areDataPresent r),
      present_kph (areDataPresent r), present_cad (areDataPresent r),
      present_alt (areDataPresent r)]"

section \<open>Notions for the background\<close>

text \<open>
  The band of zone \<open>z\<close>: the rectangle of the plot, from the pixel row of the low value of
  the zone up to the pixel row of the low value of the next zone; the band of the last zone
  keeps the top of the rectangle. Pixel rows are counted downwards.
\<close>

definition band :: "(real \<Rightarrow> int) \<Rightarrow> QRect \<Rightarrow> int list \<Rightarrow> nat \<Rightarrow> QRect" where
  "band yMap rect zone_lows z =
     rect\<lparr>rbottom := yMap (real_of_int (zone_lows ! z)),
          rtop := (if z + 1 < length zone_lows then yMap (real_of_int (zone_lows ! (z + 1)))
                   else rtop rect)\<rparr>"

text \<open>The colour of the band: the colour of the zone with a quarter of its saturation.\<close>

definition shade :: "(int \<Rightarrow> int \<Rightarrow> QColor) \<Rightarrow> nat \<Rightarrow> nat \<Rightarrow> QColor" where
  "shade zoneColor num_zones z =
     (zoneColor (int z) (int num_zones))
       \<lparr>saturation := cdiv (saturation (zoneColor (int z) (int num_zones))) 4\<rparr>"

section \<open>Example inputs\<close>

text \<open>
  An object with every member empty, zero or false, for the constructor to initialise, and
  the plots that the constructor makes of it under two unit settings.
\<close>

definition raw_plot :: AllPlot where
  "raw_plot =
     \<lparr>unitSetting = [], useMetricUnits = False, rideItem = None, smooth = 0, bydist = False,
      shade_zones = False, wattsArray = [], hrArray = [], speedArray = [], cadArray = [],
      altArray = [], timeArray = [], distanceArray = [], interArray = [], arrayLength = 0,
      wattsCurve = QwtPlotCurve_new [], hrCurve = QwtPlotCurve_new [],
      speedCurve = QwtPlotCurve_new [], cadCurve = QwtPlotCurve_new [],
      altCurve = QwtPlotCurve_new [], d_mrk = [], zoneLabels = [],
      plotTitle = [], xBottomTitle = [], yLeftTitle = [], yRightTitle = [],
      xBottomScale = (0, 0), yLeftScale = (0, 0), yRightEnabled = False\<rparr>"

definition metric_plot :: AllPlot where
  "metric_plot = AllPlot_new ''Metric'' raw_plot"

definition imperial_plot :: AllPlot where
  "imperial_plot = AllPlot_new ''Imperial'' raw_plot"

text \<open>An instance of the parameter \<open>maxYValue\<close>: the largest y of the curve, and -1 without data.\<close>

definition example_maxY :: "QwtPlotCurve \<Rightarrow> real" where
  "example_maxY c = fold max (yData c) (- 1)"

definition all_present :: RideFileDataPresent where
  "all_present =
     \<lparr>present_watts = True, present_hr = True, present_kph = True, present_cad = True,
      present_alt = True\<rparr>"

text \<open>A ride of two samples below sea level, the first with a negative power reading.\<close>

definition valley_ride :: RideFile where
  "valley_ride =
     \<lparr>startTime = ''2009-06-01 10:00:00'', areDataPresent = all_present,
      dataPoints =
        [\<lparr>pt_secs = 0, pt_watts = - 5, pt_hr = 120, pt_kph = 30, pt_cad = 90, pt_alt = - 10,
          pt_km = 0, pt_interval = 0\<rparr>,
         \<lparr>pt_secs = 1, pt_watts = 200, pt_hr = 121, pt_kph = 31, pt_cad = 91, pt_alt = - 12,
          pt_km = 1 / 100, pt_interval = 0\<rparr>]\<rparr>"

definition valley_item :: RideItem where
  "valley_item = \<lparr>ride = Some valley_ride, zones = None, zoneRange = - 1\<rparr>"


text \<open>
  A ride of four samples in five and a half seconds, loaded into a metric plot whose
  smoothing window is \<open>w\<close> seconds.
\<close>

definition climb_ride :: RideFile where
  "climb_ride =
     \<lparr>startTime = ''2009-06-02 08:30:00'', areDataPresent = all_present,
      dataPoints =
        [\<lparr>pt_secs = 1 / 2, pt_watts = 100, pt_hr = 120, pt_kph = 20, pt_cad = 80, pt_alt = 10,
          pt_km = 0, pt_interval = 1\<rparr>,
         \<lparr>pt_secs = 1, pt_watts = 200, pt_hr = 122, pt_kph = 22, pt_cad = 82, pt_alt = 11,
          pt_km = 1 / 100, pt_interval = 1\<rparr>,
         \<lparr>pt_secs = 3 / 2, pt_watts = 300, pt_hr = 124, pt_kph = 24, pt_cad = 84, pt_alt = 12,
          pt_km = 2 / 100, pt_interval = 1\<rparr>,
         \<lparr>pt_secs = 11 / 2, pt_watts = 400, pt_hr = 126, pt_kph = 26, pt_cad = 86, pt_alt = 13,
          pt_km = 3 / 100, pt_interval = 2\<rparr>]\<rparr>"

definition climb_item :: RideItem where
  "climb_item = \<lparr>ride = Some climb_ride, zones = None, zoneRange = - 1\<rparr>"

definition climb_plot :: "int \<Rightarrow> AllPlot" where
  "climb_plot w = loaded climb_item climb_ride (metric_plot\<lparr>smooth := w\<rparr>)"

text \<open>
  A ride of three samples in three seconds, shorter than the window of 30 seconds that the
  constructor sets; loaded into a metric plot, by time or by distance.
\<close>

definition short_ride :: RideFile where
  "short_ride =
     \<lparr>startTime = ''2009-06-03 07:00:00'', areDataPresent = all_present,
      dataPoints =
        [\<lparr>pt_secs = 1, pt_watts = 150, pt_hr = 100, pt_kph = 18, pt_cad = 70, pt_alt = 5,
          pt_km = 1 / 100, pt_interval = 0\<rparr>,
         \<lparr>pt_secs = 2, pt_watts = 160, pt_hr = 101, pt_kph = 18, pt_cad = 71, pt_alt = 5,
          pt_km = 2 / 100, pt_interval = 0\<rparr>,
         \<lparr>pt_secs = 3, pt_watts = 170, pt_hr = 102, pt_kph = 18, pt_cad = 72, pt_alt = 5,
          pt_km = 3 / 100, pt_interval = 0\<rparr>]\<rparr>"

definition short_item :: RideItem where
  "short_item = \<lparr>ride = Some short_ride, zones = None, zoneRange = - 1\<rparr>"

definition short_plot :: "bool \<Rightarrow> AllPlot" where
  "short_plot bd = loaded short_item short_ride (metric_plot\<lparr>bydist := bd\<rparr>)"

text \<open>
  A ride whose second and last sample is stamped with three thousand million seconds, and
  one whose last sample is stamped with 700000 seconds, a little more than eight days.
\<close>

definition stamped_ride :: "real \<Rightarrow> RideFile" where
  "stamped_ride t =
     \<lparr>startTime = ''2009-06-04 07:00:00'', areDataPresent = all_present,
      dataPoints =
        [\<lparr>pt_secs = 0, pt_watts = 150, pt_hr = 100, pt_kph = 18, pt_cad = 70, pt_alt = 5,
          pt_km = 0, pt_interval = 0\<rparr>,
         \<lparr>pt_secs = t, pt_watts = 160, pt_hr = 101, pt_kph = 18, pt_cad = 71, pt_alt = 5,
          pt_km = 1 / 100, pt_interval = 0\<rparr>]\<rparr>"

definition stamped_item :: "real \<Rightarrow> RideItem" where
  "stamped_item t = \<lparr>ride = Some (stamped_ride t), zones = None, zoneRange = - 1\<rparr>"

definition stamped_plot :: "real \<Rightarrow> AllPlot" where
  "stamped_plot t = loaded (stamped_item t) (stamped_ride t) metric_plot"

text \<open>
  A ride of three samples in three seconds that enters interval 1 at 2 s and interval 2 at
  3 s, loaded into a metric plot with a window of three seconds.
\<close>

definition burst_ride :: RideFile where
  "burst_ride =
     \<lparr>startTime = ''2009-06-05 07:00:00'', areDataPresent = all_present,
      dataPoints =
        [\<lparr>pt_secs = 1, pt_watts = 150, pt_hr = 100, pt_kph = 18, pt_cad = 70, pt_alt = 5,
          pt_km = 1 / 100, pt_interval = 0\<rparr>,
         \<lparr>pt_secs = 2, pt_watts = 160, pt_hr = 101, pt_kph = 18, pt_cad = 71, pt_alt = 5,
          pt_km = 2 / 100, pt_interval = 1\<rparr>,
         \<lparr>pt_secs = 3, pt_watts = 170, pt_hr = 102, pt_kph = 18, pt_cad = 72, pt_alt = 5,
          pt_km = 3 / 100, pt_interval = 2\<rparr>]\<rparr>"

definition burst_item :: RideItem where
  "burst_item = \<lparr>ride = Some burst_ride, zones = None, zoneRange = - 1\<rparr>"

definition burst_plot :: AllPlot where
  "burst_plot = loaded burst_item burst_ride (metric_plot\<lparr>smooth := 3\<rparr>)"

text \<open>The ride below sea level, loaded into a new plot under the unit setting \<open>unit\<close>.\<close>

definition valley_plot :: "string \<Rightarrow> AllPlot" where
  "valley_plot unit = loaded valley_item valley_ride (AllPlot_new unit raw_plot)"

text \<open>The ride of three seconds, loaded into a new plot under the unit setting \<open>Imperial\<close>.\<close>

definition short_imperial_plot :: AllPlot where
  "short_imperial_plot = loaded short_item short_ride imperial_plot"

text \<open>A ride of two samples with heart rate and speed only, and an item without a ride.\<close>

definition pulse_ride :: RideFile where
  "pulse_ride =
     \<lparr>startTime = ''2009-06-06 07:00:00'',
      areDataPresent =
        \<lparr>present_watts = False, present_hr = True, present_kph = True, present_cad = False,
         present_alt = False\<rparr>,
      dataPoints =
        [\<lparr>pt_secs = 1, pt_watts = 0, pt_hr = 100, pt_kph = 18, pt_cad = 0, pt_alt = 0,
          pt_km = 1 / 100, pt_interval = 0\<rparr>,
         \<lparr>pt_secs = 2, pt_watts = 0, pt_hr = 101, pt_kph = 18, pt_cad = 0, pt_alt = 0,
          pt_km = 2 / 100, pt_interval = 0\<rparr>]\<rparr>"

definition pulse_item :: RideItem where
  "pulse_item = \<lparr>ride = Some pulse_ride, zones = None, zoneRange = - 1\<rparr>"

definition blank_item :: RideItem where
  "blank_item = \<lparr>ride = None, zones = None, zoneRange = - 1\<rparr>"

text \<open>
  A ride of 31 seconds that enters interval 1 with its last sample, loaded into a new
  metric plot in distance mode.
\<close>

definition lap_ride :: RideFile where
  "lap_ride =
     \<lparr>startTime = ''2009-06-08 07:00:00'', areDataPresent = all_present,
      dataPoints =
        [\<lparr>pt_secs = 0, pt_watts = 150, pt_hr = 100, pt_kph = 18, pt_cad = 70, pt_alt = 5,
          pt_km = 0, pt_interval = 0\<rparr>,
         \<lparr>pt_secs = 31, pt_watts = 160, pt_hr = 101, pt_kph = 18, pt_cad = 71, pt_alt = 5,
          pt_km = 155 / 1000, pt_interval = 1\<rparr>]\<rparr>"

definition lap_item :: RideItem where
  "lap_item = \<lparr>ride = Some lap_ride, zones = None, zoneRange = - 1\<rparr>"

definition lap_plot :: AllPlot where
  "lap_plot = loaded lap_item lap_ride (metric_plot\<lparr>bydist := True\<rparr>)"

text \<open>
  Three power zones from 0 W, 150 W and 300 W, and the ride of three seconds with these
  zones, loaded into a metric plot that shades the zones. The plot is drawn on the pixel
  rows 0 to 200, one row for every watt from 200 W down to 0 W.
\<close>

definition example_zones :: Zones where
  "example_zones =
     \<lparr>getZoneLows = (\<lambda>range. [0, 150, 300]),
      getZoneNames = (\<lambda>range. [''Z1'', ''Z2'', ''Z3'']),
      numZones = (\<lambda>range. 3)\<rparr>"

definition zoned_item :: RideItem where
  "zoned_item = \<lparr>ride = Some short_ride, zones = Some example_zones, zoneRange = 0\<rparr>"

definition zoned_plot :: AllPlot where
  "zoned_plot = (loaded zoned_item short_ride metric_plot)\<lparr>shade_zones := True\<rparr>"

definition example_colour :: "int \<Rightarrow> int \<Rightarrow> QColor" where
  "example_colour z num_zones = \<lparr>hue = 60 * z, saturation = 255, colValue = 255\<rparr>"

definition example_yMap :: "real \<Rightarrow> int" where
  "example_yMap v = 200 - \<lfloor>v\<rfloor>"

definition example_rect :: QRect where
  "example_rect = \<lparr>rleft = 0, rtop = 0, rright = 400, rbottom = 200\<rparr>"

text \<open>The calls that make such a plot: \<^verbatim>\<open>setData\<close> with the item, then \<^verbatim>\<open>showPower(0)\<close>.\<close>

definition zoned_run :: "fault + AllPlot" where
  "zoned_run =
     (case setData example_maxY zoned_item metric_plot of
        Inl e \<Rightarrow> Inl e
      | Inr st \<Rightarrow> showPower example_maxY 0 st)"

section \<open>Loading a ride\<close>

lemma load_point_fields:
  "timeArray (load_point p st) = (timeArray st)[arrayLength st := pt_secs p]"
  "wattsArray (load_point p st) = (wattsArray st)[arrayLength st := max_dbl 0 (pt_watts p)]"
  "hrArray (load_point p st) = (hrArray st)[arrayLength st := max_dbl 0 (pt_hr p)]"
  "speedArray (load_point p st) = (speedArray st)[arrayLength st := max_dbl 0
      (if useMetricUnits st then pt_kph p else pt_kph p * MILES_PER_KM)]"
  "cadArray (load_point p st) = (cadArray st)[arrayLength st := max_dbl 0 (pt_cad p)]"
  "altArray (load_point p st) = (altArray st)[arrayLength st := max_dbl 0
      (if useMetricUnits st then pt_alt p else pt_alt p * FEET_PER_M)]"
  "interArray (load_point p st) = (interArray st)[arrayLength st := pt_interval p]"
  "distanceArray (load_point p st) = (distanceArray st)[arrayLength st := max_dbl 0
      (if useMetricUnits st then pt_km p else pt_km p * MILES_PER_KM)]"
  "arrayLength (load_point p st) = arrayLength st + 1"
  "useMetricUnits (load_point p st) = useMetricUnits st"
  by (simp_all add: load_point_def Let_def)

lemma load_point_frame:
  "unitSetting (load_point p st) = unitSetting st"
  "rideItem (load_point p st) = rideItem st"
  "smooth (load_point p st) = smooth st"
  "bydist (load_point p st) = bydist st"
  "shade_zones (load_point p st) = shade_zones st"
  "wattsCurve (load_point p st) = wattsCurve st"
  "hrCurve (load_point p st) = hrCurve st"
  "speedCurve (load_point p st) = speedCurve st"
  "cadCurve (load_point p st) = cadCurve st"
  "altCurve (load_point p st) = altCurve st"
  "d_mrk (load_point p st) = d_mrk st"
  "zoneLabels (load_point p st) = zoneLabels st"
  "plotTitle (load_point p st) = plotTitle st"
  "xBottomTitle (load_point p st) = xBottomTitle st"
  "yLeftTitle (load_point p st) = yLeftTitle st"
  "yRightTitle (load_point p st) = yRightTitle st"
  "xBottomScale (load_point p st) = xBottomScale st"
  "yLeftScale (load_point p st) = yLeftScale st"
  "yRightEnabled (load_point p st) = yRightEnabled st"
  by (simp_all add: load_point_def Let_def)

lemma load_points_arrayLength: "arrayLength (load_points ps st) = arrayLength st + length ps"
  by (induction ps arbitrary: st) (simp_all add: load_point_fields)

lemma load_points_metric: "useMetricUnits (load_points ps st) = useMetricUnits st"
  by (induction ps arbitrary: st) (simp_all add: load_point_fields)

lemma load_points_fill:
  assumes step: "\<And>p st. sel (load_point p st) = (sel st)[arrayLength st := f (useMetricUnits st) p]"
  shows "arrayLength st + length ps = length (sel st) \<Longrightarrow>
         sel (load_points ps st) = take (arrayLength st) (sel st) @ map (f (useMetricUnits st)) ps"
proof (induction ps arbitrary: st)
  case Nil
  then show ?case by simp
next
  case (Cons p ps)
  have "sel (load_points ps (load_point p st)) =
        take (arrayLength (load_point p st)) (sel (load_point p st))
          @ map (f (useMetricUnits (load_point p st))) ps"
    using Cons.prems by (intro Cons.IH) (simp add: load_point_fields step)
  then show ?case using Cons.prems
    by (simp add: load_point_fields step take_Suc_conv_app_nth)
qed

lemma load_points_empty:
  assumes step: "\<And>p st. sel (load_point p st) = (sel st)[arrayLength st := f (useMetricUnits st) p]"
  shows "sel st = [] \<Longrightarrow> sel (load_points ps st) = []"
  by (induction ps arbitrary: st) (simp_all add: step)

lemma load_points_same:
  assumes step: "\<And>p st. sel (load_point p st) = sel st"
  shows "sel (load_points ps st) = sel st"
  by (induction ps arbitrary: st) (simp_all add: step)

lemma resize_length [simp]: "length (resize n xs) = n"
  by (simp add: resize_def)

lemma resize_int_length [simp]: "length (resize_int n xs) = n"
  by (simp add: resize_int_def)

lemma resize_0 [simp]: "resize 0 xs = []"
  by (simp add: resize_def)

lemma resize_Nil_iff: "resize n xs = [] \<longleftrightarrow> n = 0"
  by (metis resize_length length_0_conv)

lemma load_ride_pre: "load_ride r st = load_points (dataPoints r) (pre_load r st)"
  by (simp add: load_ride_def pre_load_def Let_def)

lemma pre_load_fields:
  "arrayLength (pre_load r st) = 0"
  "useMetricUnits (pre_load r st) = useMetricUnits st"
  "length (timeArray (pre_load r st)) = length (dataPoints r)"
  "length (interArray (pre_load r st)) = length (dataPoints r)"
  "length (distanceArray (pre_load r st)) = length (dataPoints r)"
  "length (wattsArray (pre_load r st)) = (if present_watts (areDataPresent r) then length (dataPoints r) else 0)"
  "length (hrArray (pre_load r st)) = (if present_hr (areDataPresent r) then length (dataPoints r) else 0)"
  "length (speedArray (pre_load r st)) = (if present_kph (areDataPresent r) then length (dataPoints r) else 0)"
  "length (cadArray (pre_load r st)) = (if present_cad (areDataPresent r) then length (dataPoints r) else 0)"
  "length (altArray (pre_load r st)) = (if present_alt (areDataPresent r) then length (dataPoints r) else 0)"
  by (simp_all add: pre_load_def attach_curves_def resize_arrays_def Let_def)

lemma load_ride_time: "timeArray (load_ride r st) = map pt_secs (dataPoints r)"
  unfolding load_ride_pre
  by (subst load_points_fill [where f = "\<lambda>m. pt_secs"])
     (simp_all add: load_point_fields pre_load_fields)

lemma load_ride_inter: "interArray (load_ride r st) = map pt_interval (dataPoints r)"
  unfolding load_ride_pre
  by (subst load_points_fill [where f = "\<lambda>m. pt_interval"])
     (simp_all add: load_point_fields pre_load_fields)

lemma load_ride_distance:
  "distanceArray (load_ride r st) =
     map (\<lambda>p. max_dbl 0 (if useMetricUnits st then pt_km p else pt_km p * MILES_PER_KM)) (dataPoints r)"
  unfolding load_ride_pre
  by (subst load_points_fill
        [where f = "\<lambda>m p. max_dbl 0 (if m then pt_km p else pt_km p * MILES_PER_KM)"])
     (simp_all add: load_point_fields pre_load_fields)

lemma load_ride_watts:
  "wattsArray (load_ride r st) =
     (if present_watts (areDataPresent r) then map (\<lambda>p. max_dbl 0 (pt_watts p)) (dataPoints r) else [])"
proof (cases "present_watts (areDataPresent r)")
  case True
  then show ?thesis
    unfolding load_ride_pre
    by (subst load_points_fill [where f = "\<lambda>m p. max_dbl 0 (pt_watts p)"])
       (simp_all add: load_point_fields pre_load_fields)
next
  case False
  then have "wattsArray (pre_load r st) = []"
    using pre_load_fields(6) [of r st] by simp
  then show ?thesis using False
    unfolding load_ride_pre
    by (subst load_points_empty [where f = "\<lambda>m p. max_dbl 0 (pt_watts p)"])
       (simp_all add: load_point_fields)
qed


lemma load_ride_hr:
  "hrArray (load_ride r st) =
     (if present_hr (areDataPresent r) then map (\<lambda>p. max_dbl 0 (pt_hr p)) (dataPoints r) else [])"
proof (cases "present_hr (areDataPresent r)")
  case True
  then show ?thesis
    unfolding load_ride_pre
    by (subst load_points_fill [where f = "\<lambda>m p. max_dbl 0 (pt_hr p)"])
       (simp_all add: load_point_fields pre_load_fields)
next
  case False
  then have "hrArray (pre_load r st) = []"
    using pre_load_fields(7) [of r st] by simp
  then show ?thesis using False
    unfolding load_ride_pre
    by (subst load_points_empty [where f = "\<lambda>m p. max_dbl 0 (pt_hr p)"])
       (simp_all add: load_point_fields)
qed

lemma load_ride_cad:
  "cadArray (load_ride r st) =
     (if present_cad (areDataPresent r) then map (\<lambda>p. max_dbl 0 (pt_cad p)) (dataPoints r) else [])"
proof (cases "present_cad (areDataPresent r)")
  case True
  then show ?thesis
    unfolding load_ride_pre
    by (subst load_points_fill [where f = "\<lambda>m p. max_dbl 0 (pt_cad p)"])
       (simp_all add: load_point_fields pre_load_fields)
next
  case False
  then have "cadArray (pre_load r st) = []"
    using pre_load_fields(9) [of r st] by simp
  then show ?thesis using False
    unfolding load_ride_pre
    by (subst load_points_empty [where f = "\<lambda>m p. max_dbl 0 (pt_cad p)"])
       (simp_all add: load_point_fields)
qed

lemma load_ride_speed:
  "speedArray (load_ride r st) =
     (if present_kph (areDataPresent r)
      then map (\<lambda>p. max_dbl 0 (if useMetricUnits st then pt_kph p else pt_kph p * MILES_PER_KM))
             (dataPoints r)
      else [])"
proof (cases "present_kph (areDataPresent r)")
  case True
  then show ?thesis
    unfolding load_ride_pre
    by (subst load_points_fill
          [where f = "\<lambda>m p. max_dbl 0 (if m then pt_kph p else pt_kph p * MILES_PER_KM)"])
       (simp_all add: load_point_fields pre_load_fields)
next
  case False
  then have "speedArray (pre_load r st) = []"
    using pre_load_fields(8) [of r st] by simp
  then show ?thesis using False
    unfolding load_ride_pre
    by (subst load_points_empty
          [where f = "\<lambda>m p. max_dbl 0 (if m then pt_kph p else pt_kph p * MILES_PER_KM)"])
       (simp_all add: load_point_fields)
qed

lemma load_ride_alt:
  "altArray (load_ride r st) =
     (if present_alt (areDataPresent r)
      then map (\<lambda>p. max_dbl 0 (if useMetricUnits st then pt_alt p else pt_alt p * FEET_PER_M))
             (dataPoints r)
      else [])"
proof (cases "present_alt (areDataPresent r)")
  case True
  then show ?thesis
    unfolding load_ride_pre
    by (subst load_points_fill
          [where f = "\<lambda>m p. max_dbl 0 (if m then pt_alt p else pt_alt p * FEET_PER_M)"])
       (simp_all add: load_point_fields pre_load_fields)
next
  case False
  then have "altArray (pre_load r st) = []"
    using pre_load_fields(10) [of r st] by simp
  then show ?thesis using False
    unfolding load_ride_pre
    by (subst load_points_empty
          [where f = "\<lambda>m p. max_dbl 0 (if m then pt_alt p else pt_alt p * FEET_PER_M)"])
       (simp_all add: load_point_fields)
qed

lemma load_ride_arrayLength: "arrayLength (load_ride r st) = length (dataPoints r)"
  unfolding load_ride_pre by (simp add: load_points_arrayLength pre_load_fields)

lemma load_ride_metric: "useMetricUnits (load_ride r st) = useMetricUnits st"
  unfolding load_ride_pre by (simp add: load_points_metric pre_load_fields)

lemma pre_load_curves:
  "wattsCurve (pre_load r st) =
     (wattsCurve st)\<lparr>attached := (present_watts (areDataPresent r) \<and> dataPoints r \<noteq> [])\<rparr>"
  "hrCurve (pre_load r st) =
     (hrCurve st)\<lparr>attached := (present_hr (areDataPresent r) \<and> dataPoints r \<noteq> [])\<rparr>"
  "speedCurve (pre_load r st) =
     (speedCurve st)\<lparr>attached := (present_kph (areDataPresent r) \<and> dataPoints r \<noteq> [])\<rparr>"
  "cadCurve (pre_load r st) =
     (cadCurve st)\<lparr>attached := (present_cad (areDataPresent r) \<and> dataPoints r \<noteq> [])\<rparr>"
  "altCurve (pre_load r st) =
     (altCurve st)\<lparr>attached := (present_alt (areDataPresent r) \<and> dataPoints r \<noteq> [])\<rparr>"
  by (simp_all add: pre_load_def attach_curves_def resize_arrays_def Let_def resize_Nil_iff)

lemma load_ride_curves:
  "wattsCurve (load_ride r st) =
     (wattsCurve st)\<lparr>attached := (present_watts (areDataPresent r) \<and> dataPoints r \<noteq> [])\<rparr>"
  "hrCurve (load_ride r st) =
     (hrCurve st)\<lparr>attached := (present_hr (areDataPresent r) \<and> dataPoints r \<noteq> [])\<rparr>"
  "speedCurve (load_ride r st) =
     (speedCurve st)\<lparr>attached := (present_kph (areDataPresent r) \<and> dataPoints r \<noteq> [])\<rparr>"
  "cadCurve (load_ride r st) =
     (cadCurve st)\<lparr>attached := (present_cad (areDataPresent r) \<and> dataPoints r \<noteq> [])\<rparr>"
  "altCurve (load_ride r st) =
     (altCurve st)\<lparr>attached := (present_alt (areDataPresent r) \<and> dataPoints r \<noteq> [])\<rparr>"
  unfolding load_ride_pre
  by (simp_all add: load_points_same [where sel = wattsCurve] load_points_same [where sel = hrCurve]
        load_points_same [where sel = speedCurve] load_points_same [where sel = cadCurve]
        load_points_same [where sel = altCurve] load_point_frame pre_load_curves)

lemma setYMax_frame:
  "members (setYMax mx st) = members st" "curve_flags (setYMax mx st) = curve_flags st"
  "wattsCurve (setYMax mx st) = wattsCurve st" "hrCurve (setYMax mx st) = hrCurve st"
  "speedCurve (setYMax mx st) = speedCurve st" "cadCurve (setYMax mx st) = cadCurve st"
  "altCurve (setYMax mx st) = altCurve st" "d_mrk (setYMax mx st) = d_mrk st"
  "zoneLabels (setYMax mx st) = zoneLabels st" "xBottomScale (setYMax mx st) = xBottomScale st"
  by (simp_all add: setYMax_def Let_def split_def members_def curve_flags_def)

lemma refreshZoneLabels_frame:
  assumes "refreshZoneLabels st = Inr st'"
  shows "members st' = members st" "curve_flags st' = curve_flags st"
    "wattsCurve st' = wattsCurve st" "hrCurve st' = hrCurve st" "speedCurve st' = speedCurve st"
    "cadCurve st' = cadCurve st" "altCurve st' = altCurve st" "d_mrk st' = d_mrk st"
    "xBottomScale st' = xBottomScale st" "yLeftScale st' = yLeftScale st"
    "yLeftTitle st' = yLeftTitle st" "yRightTitle st' = yRightTitle st"
    "yRightEnabled st' = yRightEnabled st"
  using assms
  by (auto simp: refreshZoneLabels_def Let_def members_def curve_flags_def
           split: option.splits if_splits sum.splits)

lemma set_curves_frame:
  "members (set_curves st r l) = members st" "curve_flags (set_curves st r l) = curve_flags st"
  "d_mrk (set_curves st r l) = d_mrk st" "zoneLabels (set_curves st r l) = zoneLabels st"
  "xBottomScale (set_curves st r l) = xBottomScale st" "yLeftScale (set_curves st r l) = yLeftScale st"
  by (simp_all add: set_curves_def Let_def members_def curve_flags_def flags_def curve_setData_def)

lemma clear_curves_frame:
  "members (clear_curves st) = members st" "curve_flags (clear_curves st) = curve_flags st"
  by (simp_all add: clear_curves_def Let_def members_def curve_flags_def flags_def curve_setData_def)

lemma update_frame:
  "members (st\<lparr>xBottomScale := v\<rparr>) = members st"
  "curve_flags (st\<lparr>xBottomScale := v\<rparr>) = curve_flags st"
  "members (st\<lparr>d_mrk := ms\<rparr>) = members st"
  "curve_flags (st\<lparr>d_mrk := ms\<rparr>) = curve_flags st"
  by (simp_all add: members_def curve_flags_def)

lemma recalc_finish_frame:
  assumes "recalc_finish mx st r l = Inr st'"
  shows "members st' = members st \<and> curve_flags st' = curve_flags st"
proof -
  from assms obtain st1 ms v where
    a: "refreshZoneLabels (setYMax mx ((set_curves st r l)\<lparr>xBottomScale := v\<rparr>)) = Inr st1"
    and b: "st' = st1\<lparr>d_mrk := ms\<rparr>"
    by (auto simp: recalc_finish_def Let_def split: if_splits sum.splits)
  have "members st1 = members st" "curve_flags st1 = curve_flags st"
    using refreshZoneLabels_frame(1,2) [OF a]
    by (simp_all only: setYMax_frame update_frame set_curves_frame)
  then show ?thesis using b by (simp only: update_frame)
qed

lemma recalc_frame:
  assumes "recalc mx st = Inr st'"
  shows "members st' = members st \<and> curve_flags st' = curve_flags st"
  using assms
  by (auto simp: recalc_def clear_curves_frame split: if_splits sum.splits
           dest: recalc_finish_frame)

lemma pre_load_frame:
  "unitSetting (pre_load r st) = unitSetting st"
  "rideItem (pre_load r st) = rideItem st"
  "smooth (pre_load r st) = smooth st"
  "bydist (pre_load r st) = bydist st"
  "shade_zones (pre_load r st) = shade_zones st"
  "d_mrk (pre_load r st) = d_mrk st"
  "zoneLabels (pre_load r st) = zoneLabels st"
  "plotTitle (pre_load r st) = startTime r"
  "xBottomTitle (pre_load r st) = xBottomTitle st"
  "yLeftTitle (pre_load r st) = yLeftTitle st"
  "yRightTitle (pre_load r st) = yRightTitle st"
  "xBottomScale (pre_load r st) = xBottomScale st"
  "yLeftScale (pre_load r st) = yLeftScale st"
  "yRightEnabled (pre_load r st) = yRightEnabled st"
  by (simp_all add: pre_load_def attach_curves_def resize_arrays_def Let_def)

lemma load_ride_frame:
  "unitSetting (load_ride r st) = unitSetting st"
  "rideItem (load_ride r st) = rideItem st"
  "smooth (load_ride r st) = smooth st"
  "bydist (load_ride r st) = bydist st"
  "shade_zones (load_ride r st) = shade_zones st"
  "d_mrk (load_ride r st) = d_mrk st"
  "zoneLabels (load_ride r st) = zoneLabels st"
  "plotTitle (load_ride r st) = startTime r"
  "xBottomTitle (load_ride r st) = xBottomTitle st"
  "yLeftTitle (load_ride r st) = yLeftTitle st"
  "yRightTitle (load_ride r st) = yRightTitle st"
  "xBottomScale (load_ride r st) = xBottomScale st"
  "yLeftScale (load_ride r st) = yLeftScale st"
  "yRightEnabled (load_ride r st) = yRightEnabled st"
  unfolding load_ride_pre
  by (simp_all add: load_points_same [where sel = unitSetting] load_points_same [where sel = rideItem]
        load_points_same [where sel = smooth] load_points_same [where sel = bydist]
        load_points_same [where sel = shade_zones] load_points_same [where sel = d_mrk]
        load_points_same [where sel = zoneLabels] load_points_same [where sel = plotTitle]
        load_points_same [where sel = xBottomTitle] load_points_same [where sel = yLeftTitle]
        load_points_same [where sel = yRightTitle] load_points_same [where sel = xBottomScale]
        load_points_same [where sel = yLeftScale] load_points_same [where sel = yRightEnabled]
        load_point_frame pre_load_frame)

lemmas load_ride_arrays =
  load_ride_time load_ride_inter load_ride_distance load_ride_watts load_ride_hr load_ride_cad
  load_ride_speed load_ride_alt load_ride_arrayLength

lemma arrays_ok_load_ride: "arrays_ok (load_ride r st)"
  by (simp add: arrays_ok_def load_ride_arrays)

lemma chan_map:
  "i < length xs \<Longrightarrow> chan (if c then map f xs else []) i = (if c then f (xs ! i) else 0)"
  by (auto simp: chan_def)

lemma dp_at_load_ride:
  assumes "i < length (dataPoints r)"
  shows "dp_at (load_ride r st) i =
           sample_of (useMetricUnits st) (areDataPresent r) (dataPoints r ! i)"
  unfolding dp_at_def sample_of_def load_ride_arrays
  using assms by (simp only: chan_map nth_map)

lemma samples_load_ride:
  "samples (load_ride r st) = map (sample_of (useMetricUnits st) (areDataPresent r)) (dataPoints r)"
  unfolding samples_def
  by (rule nth_equalityI) (simp_all add: load_ride_arrayLength dp_at_load_ride)

lemma setData_Some:
  "ride item = Some r \<Longrightarrow> setData maxYValue item st = recalc maxYValue (loaded item r st)"
  by (simp add: setData_def loaded_def Let_def)

lemma loaded_sel:
  "arrays_ok (loaded item r st)"
  "samples (loaded item r st) = map (sample_of (useMetricUnits st) (areDataPresent r)) (dataPoints r)"
  "timeArray (loaded item r st) = map pt_secs (dataPoints r)"
  "interArray (loaded item r st) = map pt_interval (dataPoints r)"
  "arrayLength (loaded item r st) = length (dataPoints r)"
  "smooth (loaded item r st) = smooth st"
  "bydist (loaded item r st) = bydist st"
  "rideItem (loaded item r st) = Some item"
  "useMetricUnits (loaded item r st) = useMetricUnits st"
  by (simp_all add: loaded_def arrays_ok_load_ride samples_load_ride load_ride_arrays
        load_ride_frame load_ride_metric)

section \<open>The smoothing loop\<close>

lemma dp_at_sel:
  "dp_time (dp_at st i) = timeArray st ! i"
  "dp_watts (dp_at st i) = chan (wattsArray st) i"
  "dp_hr (dp_at st i) = chan (hrArray st) i"
  "dp_speed (dp_at st i) = chan (speedArray st) i"
  "dp_cad (dp_at st i) = chan (cadArray st) i"
  "dp_alt (dp_at st i) = chan (altArray st) i"
  "dp_inter (dp_at st i) = interArray st ! i"
  by (simp_all add: dp_at_def)

lemma consume_step_sel:
  "idx (consume_step st secs l) = idx l + 1"
  "dplist (consume_step st secs l) = dplist l @ [dp_at st (idx l)]"
  "totalWatts (consume_step st secs l) = totalWatts l + dp_watts (dp_at st (idx l))"
  "totalHr (consume_step st secs l) = totalHr l + dp_hr (dp_at st (idx l))"
  "totalSpeed (consume_step st secs l) = totalSpeed l + dp_speed (dp_at st (idx l))"
  "totalCad (consume_step st secs l) = totalCad l + dp_cad (dp_at st (idx l))"
  "totalAlt (consume_step st secs l) = totalAlt l + dp_alt (dp_at st (idx l))"
  "totalDist (consume_step st secs l) = distanceArray st ! idx l"
  "vectors (consume_step st secs l) = vectors l"
  by (simp_all add: consume_step_def Let_def dp_at_sel chan_def vectors_def)

lemma consume_step_inter:
  "lastInterval (consume_step st secs l) = interArray st ! idx l"
  "interList (consume_step st secs l) =
     (if lastInterval l \<noteq> interArray st ! idx l
      then qmap_set (real_of_int secs / 60) (interArray st ! idx l) (interList l)
      else interList l)"
  by (simp_all add: consume_step_def Let_def)

lemma evict_step_sel:
  "idx (evict_step l) = idx l"
  "dplist (evict_step l) = tl (dplist l)"
  "totalWatts (evict_step l) = totalWatts l - dp_watts (hd (dplist l))"
  "totalHr (evict_step l) = totalHr l - dp_hr (hd (dplist l))"
  "totalSpeed (evict_step l) = totalSpeed l - dp_speed (hd (dplist l))"
  "totalCad (evict_step l) = totalCad l - dp_cad (hd (dplist l))"
  "totalAlt (evict_step l) = totalAlt l - dp_alt (hd (dplist l))"
  "totalDist (evict_step l) = totalDist l"
  "vectors (evict_step l) = vectors l"
  "lastInterval (evict_step l) = lastInterval l"
  "interList (evict_step l) = interList l"
  by (simp_all add: evict_step_def Let_def vectors_def)

lemma consume_step_queue:
  assumes "queue_ok st l" "idx l < arrayLength st"
  shows "queue_ok st (consume_step st secs l)"
proof -
  let ?n = "length (dplist l)"
  have le: "?n \<le> idx l" using assms by (simp add: queue_ok_def)
  have "[Suc (idx l) - Suc ?n..<Suc (idx l)] = [idx l - ?n..<idx l] @ [idx l]"
    using le by simp
  then show ?thesis using assms
    by (simp add: queue_ok_def consume_step_sel)
qed

lemma evict_step_queue:
  assumes "queue_ok st l" "dplist l \<noteq> []"
  shows "queue_ok st (evict_step l)"
proof -
  obtain p ps where ps: "dplist l = p # ps" using assms(2) by (cases "dplist l") auto
  let ?a = "idx l - length (dplist l)"
  have le: "length (dplist l) \<le> idx l" and N: "idx l \<le> arrayLength st"
    using assms by (simp_all add: queue_ok_def)
  have lt: "?a < idx l" using ps le by simp
  have "[?a..<idx l] = ?a # [Suc ?a..<idx l]" using lt by (simp add: upt_conv_Cons)
  moreover have "Suc ?a = idx l - length ps" using ps le by simp
  moreover have "dplist l = map (dp_at st) [?a..<idx l]" using assms by (simp add: queue_ok_def)
  ultimately have q: "ps = map (dp_at st) [idx l - length ps..<idx l]"
    using ps by simp
  have t: "totalWatts l = dp_watts p + sum_list (map dp_watts ps)"
    "totalHr l = dp_hr p + sum_list (map dp_hr ps)"
    "totalSpeed l = dp_speed p + sum_list (map dp_speed ps)"
    "totalCad l = dp_cad p + sum_list (map dp_cad ps)"
    "totalAlt l = dp_alt p + sum_list (map dp_alt ps)"
    using assms(1) ps by (simp_all add: queue_ok_def)
  have "length ps \<le> idx l" using le ps by simp
  then show ?thesis
    unfolding queue_ok_def evict_step_sel ps t using q N by simp
qed

lemma consume_queue: "queue_ok st l \<Longrightarrow> queue_ok st (consume st secs l)"
proof (induction st secs l rule: consume.induct)
  case (1 st secs l)
  show ?case
  proof (cases "idx l < arrayLength st \<and> timeArray st ! idx l \<le> real_of_int secs")
    case True
    have "queue_ok st (consume st secs (consume_step st secs l))"
      using True "1.prems" by (intro "1.IH") (simp_all add: consume_step_queue)
    then show ?thesis using True by (subst consume.simps) simp
  next
    case False
    then show ?thesis using "1.prems" by (subst consume.simps) auto
  qed
qed

lemma evict_queue: "queue_ok st l \<Longrightarrow> queue_ok st (evict st secs l)"
proof (induction st secs l rule: evict.induct)
  case (1 st secs l)
  show ?case
  proof (cases "dplist l \<noteq> [] \<and> dp_time (hd (dplist l)) < real_of_int (secs - smooth st)")
    case True
    have "queue_ok st (evict st secs (evict_step l))"
      using True "1.prems" by (intro "1.IH") (simp_all add: evict_step_queue)
    then show ?thesis using True by (subst evict.simps) simp
  next
    case False
    then show ?thesis using "1.prems" by (subst evict.simps) auto
  qed
qed


lemma consume_rule:
  assumes "P l"
    and step: "\<And>l. P l \<Longrightarrow> idx l < arrayLength st \<Longrightarrow> timeArray st ! idx l \<le> real_of_int secs
                 \<Longrightarrow> P (consume_step st secs l)"
  shows "P (consume st secs l) \<and>
         \<not> (idx (consume st secs l) < arrayLength st \<and>
            timeArray st ! idx (consume st secs l) \<le> real_of_int secs)"
  using assms
proof (induction st secs l rule: consume.induct)
  case (1 st secs l)
  show ?case
  proof (cases "idx l < arrayLength st \<and> timeArray st ! idx l \<le> real_of_int secs")
    case True
    have "P (consume st secs (consume_step st secs l)) \<and>
         \<not> (idx (consume st secs (consume_step st secs l)) < arrayLength st \<and>
            timeArray st ! idx (consume st secs (consume_step st secs l)) \<le> real_of_int secs)"
      using True "1.prems" by (intro "1.IH") simp_all
    then show ?thesis using True by (subst (1 2 3) consume.simps) simp
  next
    case False
    then show ?thesis using "1.prems"(1) by (subst (1 2 3) consume.simps) auto
  qed
qed

lemma evict_rule:
  assumes "P l"
    and step: "\<And>l. P l \<Longrightarrow> dplist l \<noteq> [] \<Longrightarrow>
                 dp_time (hd (dplist l)) < real_of_int (secs - smooth st) \<Longrightarrow> P (evict_step l)"
  shows "P (evict st secs l) \<and>
         \<not> (dplist (evict st secs l) \<noteq> [] \<and>
            dp_time (hd (dplist (evict st secs l))) < real_of_int (secs - smooth st))"
  using assms
proof (induction st secs l rule: evict.induct)
  case (1 st secs l)
  show ?case
  proof (cases "dplist l \<noteq> [] \<and> dp_time (hd (dplist l)) < real_of_int (secs - smooth st)")
    case True
    have "P (evict st secs (evict_step l)) \<and>
         \<not> (dplist (evict st secs (evict_step l)) \<noteq> [] \<and>
            dp_time (hd (dplist (evict st secs (evict_step l)))) < real_of_int (secs - smooth st))"
      using True "1.prems" by (intro "1.IH") simp_all
    then show ?thesis using True by (subst (1 2 3) evict.simps) simp
  next
    case False
    then show ?thesis using "1.prems"(1) by (subst (1 2 3) evict.simps) auto
  qed
qed

lemma queue_hd:
  assumes "queue_ok st l" "dplist l \<noteq> []"
  shows "hd (dplist l) = dp_at st (idx l - length (dplist l))"
    and "idx l - length (dplist l) < idx l"
proof -
  let ?a = "idx l - length (dplist l)"
  have le: "length (dplist l) \<le> idx l" using assms by (simp add: queue_ok_def)
  show lt: "?a < idx l" using assms(2) le by (cases "dplist l") auto
  have "dplist l = map (dp_at st) [?a..<idx l]" using assms by (simp add: queue_ok_def)
  also have "[?a..<idx l] = ?a # [Suc ?a..<idx l]" using lt by (simp add: upt_conv_Cons)
  finally have "dplist l = dp_at st ?a # map (dp_at st) [Suc ?a..<idx l]" by simp
  then show "hd (dplist l) = dp_at st ?a" by (metis list.sel(1))
qed

lemma consume_step_time:
  assumes "queue_ok st l" "consumed_upto st l s" "evicted_below st l b"
    "timeArray st ! idx l \<le> real_of_int secs" "real_of_int secs \<le> s"
  shows "consumed_upto st (consume_step st secs l) s" "evicted_below st (consume_step st secs l) b"
proof -
  have le: "length (dplist l) \<le> idx l" using assms by (simp add: queue_ok_def)
  show "consumed_upto st (consume_step st secs l) s"
    using assms(2,4,5) by (auto simp: consumed_upto_def consume_step_sel less_Suc_eq)
  show "evicted_below st (consume_step st secs l) b"
    using assms(3) le by (simp add: evicted_below_def consume_step_sel)
qed

lemma evict_step_time:
  assumes "queue_ok st l" "consumed_upto st l s" "evicted_below st l b"
    "dplist l \<noteq> []" "dp_time (hd (dplist l)) < b"
  shows "consumed_upto st (evict_step l) s" "evicted_below st (evict_step l) b"
proof -
  let ?a = "idx l - length (dplist l)"
  have le: "length (dplist l) \<le> idx l" using assms by (simp add: queue_ok_def)
  show "consumed_upto st (evict_step l) s"
    using assms(2) by (simp add: consumed_upto_def evict_step_sel)
  have "timeArray st ! ?a < b" using queue_hd(1) [OF assms(1,4)] assms(5) by (simp add: dp_at_sel)
  moreover have "idx l - length (tl (dplist l)) = Suc ?a"
    using assms(4) le by (cases "dplist l") auto
  ultimately show "evicted_below st (evict_step l) b"
    using assms(3) by (auto simp: evicted_below_def evict_step_sel less_Suc_eq)
qed

lemma consume_facts:
  assumes "queue_ok st l" "consumed_upto st l s" "evicted_below st l b" "real_of_int secs \<le> s"
  shows "queue_ok st (consume st secs l)"
    and "consumed_upto st (consume st secs l) s"
    and "evicted_below st (consume st secs l) b"
    and "vectors (consume st secs l) = vectors l"
    and "idx (consume st secs l) = arrayLength st \<or>
         real_of_int secs < timeArray st ! idx (consume st secs l)"
proof -
  let ?P = "\<lambda>l'. queue_ok st l' \<and> consumed_upto st l' s \<and> evicted_below st l' b \<and>
                 vectors l' = vectors l"
  have "?P (consume st secs l) \<and>
        \<not> (idx (consume st secs l) < arrayLength st \<and>
           timeArray st ! idx (consume st secs l) \<le> real_of_int secs)"
  proof (rule consume_rule)
    show "?P l" using assms by simp
  next
    fix l' assume "?P l'" "idx l' < arrayLength st" "timeArray st ! idx l' \<le> real_of_int secs"
    then show "?P (consume_step st secs l')"
      using assms(4) consume_step_time [of st l' s b secs]
      by (simp add: consume_step_queue consume_step_sel)
  qed
  moreover have "idx (consume st secs l) \<le> arrayLength st"
    using calculation by (simp add: queue_ok_def)
  ultimately show "queue_ok st (consume st secs l)"
    and "consumed_upto st (consume st secs l) s"
    and "evicted_below st (consume st secs l) b"
    and "vectors (consume st secs l) = vectors l"
    and "idx (consume st secs l) = arrayLength st \<or>
         real_of_int secs < timeArray st ! idx (consume st secs l)"
    by auto
qed

lemma evict_facts:
  assumes "queue_ok st l" "consumed_upto st l s" "evicted_below st l b"
    "b \<le> real_of_int (secs - smooth st)"
  shows "queue_ok st (evict st secs l)"
    and "consumed_upto st (evict st secs l) s"
    and "evicted_below st (evict st secs l) (real_of_int (secs - smooth st))"
    and "vectors (evict st secs l) = vectors l"
    and "idx (evict st secs l) = idx l"
    and "totalDist (evict st secs l) = totalDist l"
    and "interList (evict st secs l) = interList l"
    and "lastInterval (evict st secs l) = lastInterval l"
    and "dplist (evict st secs l) = [] \<or>
         real_of_int (secs - smooth st) \<le> dp_time (hd (dplist (evict st secs l)))"
proof -
  let ?b = "real_of_int (secs - smooth st)"
  let ?P = "\<lambda>l'. queue_ok st l' \<and> consumed_upto st l' s \<and> evicted_below st l' ?b \<and>
                 vectors l' = vectors l \<and> idx l' = idx l \<and> totalDist l' = totalDist l \<and>
                 interList l' = interList l \<and> lastInterval l' = lastInterval l"
  have "?P (evict st secs l) \<and>
        \<not> (dplist (evict st secs l) \<noteq> [] \<and> dp_time (hd (dplist (evict st secs l))) < ?b)"
  proof (rule evict_rule)
    have "evicted_below st l ?b" using assms(3,4) by (fastforce simp: evicted_below_def)
    then show "?P l" using assms by simp
  next
    fix l' assume "?P l'" "dplist l' \<noteq> []" "dp_time (hd (dplist l')) < ?b"
    then show "?P (evict_step l')"
      using evict_step_time [of st l' s ?b]
      by (simp add: evict_step_queue evict_step_sel)
  qed
  then show "queue_ok st (evict st secs l)"
    and "consumed_upto st (evict st secs l) s"
    and "evicted_below st (evict st secs l) (real_of_int (secs - smooth st))"
    and "vectors (evict st secs l) = vectors l"
    and "idx (evict st secs l) = idx l"
    and "totalDist (evict st secs l) = totalDist l"
    and "interList (evict st secs l) = interList l"
    and "lastInterval (evict st secs l) = lastInterval l"
    and "dplist (evict st secs l) = [] \<or>
         real_of_int (secs - smooth st) \<le> dp_time (hd (dplist (evict st secs l)))"
    by auto
qed

text \<open>The queue after the two inner loops is the window, when the time stamps are sorted.\<close>

lemma filter_upt_segment:
  fixes P :: "nat \<Rightarrow> bool"
  assumes "a \<le> b" "b \<le> n"
    and "\<And>j. j < a \<Longrightarrow> \<not> P j"
    and "\<And>j. a \<le> j \<Longrightarrow> j < b \<Longrightarrow> P j"
    and "\<And>j. b \<le> j \<Longrightarrow> j < n \<Longrightarrow> \<not> P j"
  shows "filter P [0..<n] = [a..<b]"
proof -
  have "[0..<n] = [0..<a] @ [a..<b] @ [b..<n]"
    using assms(1,2) upt_add_eq_append [of 0 a "n - a"] upt_add_eq_append [of a b "n - b"]
    by simp
  moreover have "filter P [0..<a] = []" using assms(3) by (simp add: filter_empty_conv)
  moreover have "filter P [a..<b] = [a..<b]" using assms(4) by (simp add: filter_id_conv)
  moreover have "filter P [b..<n] = []" using assms(5) by (simp add: filter_empty_conv)
  ultimately show ?thesis by simp
qed

lemma queue_is_window:
  assumes q: "queue_ok st l"
    and c: "consumed_upto st l (real_of_int secs)"
    and e: "evicted_below st l (real_of_int (secs - smooth st))"
    and stop: "idx l = arrayLength st \<or> real_of_int secs < timeArray st ! idx l"
    and front: "dplist l = [] \<or> real_of_int (secs - smooth st) \<le> dp_time (hd (dplist l))"
    and srt: "sorted (timeArray st)" and len: "length (timeArray st) = arrayLength st"
  shows "dplist l = window st secs"
proof -
  let ?a = "idx l - length (dplist l)"
  let ?T = "\<lambda>j. timeArray st ! j"
  let ?P = "\<lambda>j. real_of_int (secs - smooth st) \<le> ?T j \<and> ?T j \<le> real_of_int secs"
  have N: "idx l \<le> arrayLength st" and le: "length (dplist l) \<le> idx l"
    and dq: "dplist l = map (dp_at st) [?a..<idx l]"
    using q by (simp_all add: queue_ok_def)
  have mono: "\<And>i j. i \<le> j \<Longrightarrow> j < arrayLength st \<Longrightarrow> ?T i \<le> ?T j"
    using srt len by (simp add: sorted_iff_nth_mono)
  have "filter ?P [0..<arrayLength st] = [?a..<idx l]"
  proof (rule filter_upt_segment)
    show "?a \<le> idx l" by simp
    show "idx l \<le> arrayLength st" by (rule N)
  next
    fix j assume "j < ?a"
    then have "?T j < real_of_int (secs - smooth st)" using e by (simp add: evicted_below_def)
    then show "\<not> ?P j" by simp
  next
    fix j assume j: "?a \<le> j" "j < idx l"
    then have ne: "dplist l \<noteq> []" using le by (cases "dplist l") auto
    then have "real_of_int (secs - smooth st) \<le> ?T ?a"
      using front queue_hd(1) [OF q ne] by (simp add: dp_at_sel)
    also have "?T ?a \<le> ?T j" using j N by (intro mono) simp_all
    finally have "real_of_int (secs - smooth st) \<le> ?T j" .
    moreover have "?T j \<le> real_of_int secs" using c j by (simp add: consumed_upto_def)
    ultimately show "?P j" by simp
  next
    fix j assume j: "idx l \<le> j" "j < arrayLength st"
    then have "real_of_int secs < ?T (idx l)" using stop by auto
    also have "?T (idx l) \<le> ?T j" using j by (intro mono) simp_all
    finally show "\<not> ?P j" by simp
  qed
  then have "window st secs = map (dp_at st) [?a..<idx l]"
    by (simp add: window_def samples_def filter_map o_def dp_at_sel)
  then show ?thesis using dq by simp
qed

lemma accus_cong:
  assumes "accus l' = accus l"
  shows "queue_ok st l' = queue_ok st l" "consumed_upto st l' s = consumed_upto st l s"
    "evicted_below st l' b = evicted_below st l b"
  using assms by (simp_all add: accus_def queue_ok_def consumed_upto_def evicted_below_def)

lemma vectors_cong:
  assumes "vectors l' = vectors l"
  shows "vec_len n l' = vec_len n l"
    "smoothWatts l' = smoothWatts l" "smoothHr l' = smoothHr l" "smoothSpeed l' = smoothSpeed l"
    "smoothCad l' = smoothCad l" "smoothTime l' = smoothTime l"
    "smoothDistance l' = smoothDistance l" "smoothAltitude l' = smoothAltitude l"
  using assms by (simp_all add: vectors_def vec_len_def)

lemma store_bin_Inr:
  assumes "0 \<le> secs" "secs < int n" "vec_len n l" "dplist l \<noteq> [] \<or> 1 \<le> secs"
  shows "\<exists>l'. store_bin secs l = Inr l' \<and> accus l' = accus l \<and> vec_len n l' \<and>
     smoothWatts l' = (smoothWatts l)[nat secs :=
        (if dplist l = [] then 0 else totalWatts l / real (length (dplist l)))] \<and>
     smoothHr l' = (smoothHr l)[nat secs :=
        (if dplist l = [] then 0 else totalHr l / real (length (dplist l)))] \<and>
     smoothSpeed l' = (smoothSpeed l)[nat secs :=
        (if dplist l = [] then 0 else totalSpeed l / real (length (dplist l)))] \<and>
     smoothCad l' = (smoothCad l)[nat secs :=
        (if dplist l = [] then 0 else totalCad l / real (length (dplist l)))] \<and>
     smoothAltitude l' = (smoothAltitude l)[nat secs :=
        (if dplist l = [] then smoothAltitude l ! nat (secs - 1)
         else totalAlt l / real (length (dplist l)))] \<and>
     smoothDistance l' = (smoothDistance l)[nat secs := totalDist l] \<and>
     smoothTime l' = (smoothTime l)[nat secs := real_of_int secs / 60]"
  using assms by (auto simp: store_bin_def vec_len_def accus_def)

lemma bin_body_result:
  assumes inv: "at_bin st n secs l"
    and srt: "sorted (timeArray st)" and len: "length (timeArray st) = arrayLength st"
    and secs: "1 \<le> secs" "secs < int n"
  shows "\<exists>l'. bin_body st secs l = Inr l' \<and> at_bin st n (secs + 1) l' \<and>
     accus l' = accus (evict st secs (consume st secs l)) \<and>
     smoothWatts l' = (smoothWatts l)[nat secs := mean (map dp_watts (window st secs))] \<and>
     smoothHr l' = (smoothHr l)[nat secs := mean (map dp_hr (window st secs))] \<and>
     smoothSpeed l' = (smoothSpeed l)[nat secs := mean (map dp_speed (window st secs))] \<and>
     smoothCad l' = (smoothCad l)[nat secs := mean (map dp_cad (window st secs))] \<and>
     smoothAltitude l' = (smoothAltitude l)[nat secs := altitude_value st secs (smoothAltitude l)] \<and>
     smoothDistance l' = (smoothDistance l)[nat secs := totalDist (consume st secs l)] \<and>
     smoothTime l' = (smoothTime l)[nat secs := real_of_int secs / 60]"
proof -
  let ?l1 = "consume st secs l"
  let ?l2 = "evict st secs ?l1"
  let ?b = "real_of_int (secs - smooth st)"
  have q: "queue_ok st l" and c: "consumed_upto st l (real_of_int secs)"
    and e: "evicted_below st l ?b" and v: "vec_len n l"
    using inv by (simp_all add: at_bin_def)
  note c1 = consume_facts [OF q c e order_refl]
  note e1 = evict_facts [OF c1(1) c1(2) c1(3) order_refl]
  have stop: "idx ?l2 = arrayLength st \<or> real_of_int secs < timeArray st ! idx ?l2"
    using c1(5) e1(5) by simp
  have w: "dplist ?l2 = window st secs"
    by (rule queue_is_window [OF e1(1) e1(2) e1(3) stop e1(9) srt len])
  have vec: "vectors ?l2 = vectors l" using c1(4) e1(4) by simp
  have v2: "vec_len n ?l2" using vectors_cong(1) [OF vec] v by simp
  have tot: "totalWatts ?l2 = sum_list (map dp_watts (window st secs))"
    "totalHr ?l2 = sum_list (map dp_hr (window st secs))"
    "totalSpeed ?l2 = sum_list (map dp_speed (window st secs))"
    "totalCad ?l2 = sum_list (map dp_cad (window st secs))"
    "totalAlt ?l2 = sum_list (map dp_alt (window st secs))"
    using e1(1) w by (simp_all add: queue_ok_def)
  from store_bin_Inr [OF _ secs(2) v2, of ] secs(1)
  obtain l' where l': "store_bin secs ?l2 = Inr l'" "accus l' = accus ?l2" "vec_len n l'"
    "smoothWatts l' = (smoothWatts ?l2)[nat secs :=
        (if dplist ?l2 = [] then 0 else totalWatts ?l2 / real (length (dplist ?l2)))]"
    "smoothHr l' = (smoothHr ?l2)[nat secs :=
        (if dplist ?l2 = [] then 0 else totalHr ?l2 / real (length (dplist ?l2)))]"
    "smoothSpeed l' = (smoothSpeed ?l2)[nat secs :=
        (if dplist ?l2 = [] then 0 else totalSpeed ?l2 / real (length (dplist ?l2)))]"
    "smoothCad l' = (smoothCad ?l2)[nat secs :=
        (if dplist ?l2 = [] then 0 else totalCad ?l2 / real (length (dplist ?l2)))]"
    "smoothAltitude l' = (smoothAltitude ?l2)[nat secs :=
        (if dplist ?l2 = [] then smoothAltitude ?l2 ! nat (secs - 1)
         else totalAlt ?l2 / real (length (dplist ?l2)))]"
    "smoothDistance l' = (smoothDistance ?l2)[nat secs := totalDist ?l2]"
    "smoothTime l' = (smoothTime ?l2)[nat secs := real_of_int secs / 60]"
    by auto
  have c': "consumed_upto st l' (real_of_int (secs + 1))"
    using e1(2) accus_cong(2) [OF l'(2)] by (fastforce simp: consumed_upto_def)
  have e': "evicted_below st l' (real_of_int (secs + 1 - smooth st))"
    using e1(3) accus_cong(3) [OF l'(2)] by (fastforce simp: evicted_below_def)
  have "at_bin st n (secs + 1) l'"
    using c' e' l'(3) e1(1) accus_cong(1) [OF l'(2)] by (simp add: at_bin_def)
  then show ?thesis
    using l' vectors_cong [OF vec] e1(6)
    by (simp add: bin_body_def w tot mean_def altitude_value_def)
qed

lemma main_loop_rule:
  assumes "Inv s l"
    and step: "\<And>secs l. Inv secs l \<Longrightarrow> s \<le> secs \<Longrightarrow> secs \<le> r \<Longrightarrow>
                 \<exists>l'. bin_body st secs l = Inr l' \<and> Inv (secs + 1) l'"
  shows "\<exists>l'. main_loop st r s l = Inr l' \<and> Inv (max s (r + 1)) l'"
  using assms
proof (induction st r s l rule: main_loop.induct)
  case (1 st r s l)
  show ?case
  proof (cases "s \<le> r")
    case True
    obtain l1 where l1: "bin_body st s l = Inr l1" "Inv (s + 1) l1"
      using "1.prems"(2) [OF "1.prems"(1) order_refl True] by auto
    have "\<exists>l'. main_loop st r (s + 1) l1 = Inr l' \<and> Inv (max (s + 1) (r + 1)) l'"
    proof (rule "1.IH" [OF True l1(1) l1(2)])
      fix secs l assume "Inv secs l" "s + 1 \<le> secs" "secs \<le> r"
      then show "\<exists>l'. bin_body st secs l = Inr l' \<and> Inv (secs + 1) l'"
        using "1.prems"(2) [of secs l] by simp
    qed
    moreover have "max (s + 1) (r + 1) = max s (r + 1)" using True by simp
    ultimately show ?thesis using True l1(1) by (subst main_loop.simps) simp
  next
    case False
    then have "max s (r + 1) = s" by simp
    then show ?thesis using False "1.prems"(1) by (subst main_loop.simps) simp
  qed
qed

lemma init_loop_rule:
  assumes "P l"
    and step: "\<And>secs l. P l \<Longrightarrow> s \<le> secs \<Longrightarrow> secs < smth \<Longrightarrow> secs < r \<Longrightarrow> P (init_step secs l)"
  shows "P (init_loop smth r s l)"
  using assms
proof (induction smth r s l rule: init_loop.induct)
  case (1 smth r s l)
  show ?case
  proof (cases "s < smth \<and> s < r")
    case True
    have "P (init_loop smth r (s + 1) (init_step s l))"
    proof (rule "1.IH" [OF True])
      show "P (init_step s l)" using "1.prems"(2) [OF "1.prems"(1)] True by simp
    next
      fix secs l assume "P l" "s + 1 \<le> secs" "secs < smth" "secs < r"
      then show "P (init_step secs l)" using "1.prems"(2) [of l secs] by simp
    qed
    then show ?thesis using True by (subst init_loop.simps) simp
  next
    case False
    then show ?thesis using "1.prems"(1) by (subst init_loop.simps) auto
  qed
qed

lemma init_step_sel:
  "accus (init_step secs l) = accus l"
  "vec_len n (init_step secs l) = vec_len n l"
  by (simp_all add: init_step_def accus_def vec_len_def)

lemma init_loop_keeps:
  "accus (init_loop smth r s l) = accus l \<and> (vec_len n l \<longrightarrow> vec_len n (init_loop smth r s l))"
  by (rule init_loop_rule) (simp_all add: init_step_sel)

lemma locals_new_sel:
  "accus (locals_new n) = (0, 0, 0, 0, 0, 0, [], [], 0, 0)"
  "vec_len n (locals_new n)"
  by (simp_all add: locals_new_def accus_def vec_len_def)

lemma at_bin_start:
  assumes "accus l = (0, 0, 0, 0, 0, 0, [], [], 0, 0)" "vec_len n l"
  shows "at_bin st n secs l"
  using assms
  by (simp add: at_bin_def accus_def queue_ok_def consumed_upto_def evicted_below_def)

lemma bins_done_step:
  assumes bd: "bins_done st s0 secs l" and s0: "0 \<le> s0" "s0 \<le> secs" and n: "secs < int n"
    and v: "vec_len n l"
    and upd: "smoothWatts l' = (smoothWatts l)[nat secs := mean (map dp_watts (window st secs))]"
      "smoothHr l' = (smoothHr l)[nat secs := mean (map dp_hr (window st secs))]"
      "smoothSpeed l' = (smoothSpeed l)[nat secs := mean (map dp_speed (window st secs))]"
      "smoothCad l' = (smoothCad l)[nat secs := mean (map dp_cad (window st secs))]"
      "smoothAltitude l' = (smoothAltitude l)[nat secs := altitude_value st secs (smoothAltitude l)]"
      "smoothTime l' = (smoothTime l)[nat secs := real_of_int secs / 60]"
  shows "bins_done st s0 (secs + 1) l'"
  unfolding bins_done_def
proof (intro allI impI)
  fix k assume k: "s0 \<le> k \<and> k < secs + 1"
  have len: "nat secs < length (smoothWatts l)" "nat secs < length (smoothHr l)"
    "nat secs < length (smoothSpeed l)" "nat secs < length (smoothCad l)"
    "nat secs < length (smoothAltitude l)" "nat secs < length (smoothTime l)"
    using v n s0 by (simp_all add: vec_len_def)
  have prev: "nat (k - 1) \<noteq> nat secs \<or> k \<le> 0" using k by auto
  show "smoothWatts l' ! nat k = mean (map dp_watts (window st k)) \<and>
        smoothHr l' ! nat k = mean (map dp_hr (window st k)) \<and>
        smoothSpeed l' ! nat k = mean (map dp_speed (window st k)) \<and>
        smoothCad l' ! nat k = mean (map dp_cad (window st k)) \<and>
        smoothAltitude l' ! nat k = altitude_value st k (smoothAltitude l') \<and>
        smoothTime l' ! nat k = real_of_int k / 60"
  proof (cases "k = secs")
    case True
    have "nat (secs - 1) \<noteq> nat secs \<or> secs \<le> 0" by auto
    then have "altitude_value st secs (smoothAltitude l') = altitude_value st secs (smoothAltitude l)"
      using s0 by (auto simp: altitude_value_def upd)
    then show ?thesis using True len by (simp add: upd)
  next
    case False
    then have lt: "s0 \<le> k \<and> k < secs" using k by simp
    then have ne: "nat k \<noteq> nat secs" using s0 by auto
    have ne': "nat (k - 1) \<noteq> nat secs" using lt s0 by auto
    have "altitude_value st k (smoothAltitude l') = altitude_value st k (smoothAltitude l)"
      using ne' by (simp add: altitude_value_def upd)
    then show ?thesis
      using bd lt ne by (simp add: bins_done_def upd)
  qed
qed

lemma main_loop_bins:
  assumes srt: "sorted (timeArray st)" and len: "length (timeArray st) = arrayLength st"
    and s: "1 \<le> s" and a: "at_bin st n s l" and n: "n = nat (r + 1)"
  shows "\<exists>l'. main_loop st r s l = Inr l' \<and> bins_done st s (max s (r + 1)) l' \<and> vec_len n l'"
proof -
  let ?Inv = "\<lambda>secs l. at_bin st n secs l \<and> bins_done st s secs l"
  have "\<exists>l'. main_loop st r s l = Inr l' \<and> ?Inv (max s (r + 1)) l'"
  proof (rule main_loop_rule)
    show "?Inv s l" using a by (simp add: bins_done_def)
  next
    fix secs l assume inv: "?Inv secs l" and secs: "s \<le> secs" "secs \<le> r"
    have lt: "secs < int n" using secs n by simp
    have one: "1 \<le> secs" using s secs by simp
    from bin_body_result [OF _ srt len one lt] inv
    obtain l' where l': "bin_body st secs l = Inr l'" "at_bin st n (secs + 1) l'"
      "smoothWatts l' = (smoothWatts l)[nat secs := mean (map dp_watts (window st secs))]"
      "smoothHr l' = (smoothHr l)[nat secs := mean (map dp_hr (window st secs))]"
      "smoothSpeed l' = (smoothSpeed l)[nat secs := mean (map dp_speed (window st secs))]"
      "smoothCad l' = (smoothCad l)[nat secs := mean (map dp_cad (window st secs))]"
      "smoothAltitude l' = (smoothAltitude l)[nat secs := altitude_value st secs (smoothAltitude l)]"
      "smoothTime l' = (smoothTime l)[nat secs := real_of_int secs / 60]"
      by blast
    have v: "vec_len n l" using inv by (simp add: at_bin_def)
    have "bins_done st s (secs + 1) l'"
      using bins_done_step [OF _ _ secs(1) lt v l'(3-8)] inv s by simp
    then show "\<exists>l'. bin_body st secs l = Inr l' \<and> ?Inv (secs + 1) l'"
      using l'(1,2) by simp
  qed
  then show ?thesis by (auto simp: at_bin_def)
qed

lemma smoothing_bins:
  assumes srt: "sorted (timeArray st)" and len: "length (timeArray st) = arrayLength st"
    and s: "1 \<le> smooth st" and r: "- 1 \<le> r"
  shows "\<exists>l. smoothing st r = Inr l \<and> bins_done st (smooth st) (max (smooth st) (r + 1)) l \<and>
             vec_len (nat (r + 1)) l"
proof -
  let ?n = "nat (r + 1)"
  let ?l1 = "init_loop (smooth st) r 0 (locals_new ?n)"
  have "accus ?l1 = (0, 0, 0, 0, 0, 0, [], [], 0, 0)" "vec_len ?n ?l1"
    using init_loop_keeps [of "smooth st" r 0 "locals_new ?n" ?n]
    by (simp_all add: locals_new_sel)
  then have "at_bin st ?n (smooth st) ?l1" by (rule at_bin_start)
  from main_loop_bins [OF srt len s this refl]
  show ?thesis using r by (simp add: smoothing_def)
qed

lemma recalc_smoothing:
  assumes "timeArray st \<noteq> []" "length (timeArray st) = arrayLength st"
    and "- (2 ^ 31) \<le> \<lceil>last (timeArray st)\<rceil>" "last (timeArray st) \<le> 7 * 24 * 60 * 60"
  shows "recalc maxYValue st =
           (case smoothing st \<lceil>last (timeArray st)\<rceil> of
              Inl e \<Rightarrow> Inl e
            | Inr l \<Rightarrow> recalc_finish maxYValue st \<lceil>last (timeArray st)\<rceil> l)"
proof -
  have n: "arrayLength st \<noteq> 0" using assms(1,2) by (cases "timeArray st") auto
  have l: "timeArray st ! (arrayLength st - Suc 0) = last (timeArray st)"
    using assms(1,2) by (simp add: last_conv_nth)
  have c: "\<lceil>last (timeArray st)\<rceil> \<le> 604800" using assms(4) by (simp add: ceiling_le_iff)
  then have "int_cast \<lceil>last (timeArray st)\<rceil> = Inr \<lceil>last (timeArray st)\<rceil>"
    using assms(3) by (simp add: int_cast_def)
  then show ?thesis using assms(1,2) n c by (simp add: recalc_def l)
qed

lemma window_past:
  "window st secs = filter (\<lambda>p. real_of_int (secs - smooth st) \<le> dp_time p) (past st secs)"
  by (auto simp: window_def past_def intro: filter_cong)

lemma consume_vectors: "vectors (consume st secs l) = vectors l"
  using consume_rule [of "\<lambda>l'. vectors l' = vectors l" l st secs]
  by (simp add: consume_step_sel)

lemma evict_vectors: "vectors (evict st secs l) = vectors l"
  using evict_rule [of "\<lambda>l'. vectors l' = vectors l" l secs st]
  by (simp add: evict_step_sel)

lemma bin_body_total:
  assumes "vec_len n l" "1 \<le> secs" "secs < int n"
  shows "\<exists>l'. bin_body st secs l = Inr l' \<and> vec_len n l'"
proof -
  have "vectors (evict st secs (consume st secs l)) = vectors l"
    by (simp add: evict_vectors consume_vectors)
  then have "vec_len n (evict st secs (consume st secs l))"
    using assms(1) vectors_cong(1) by blast
  from store_bin_Inr [OF _ assms(3) this] assms(2)
  show ?thesis unfolding bin_body_def by fastforce
qed

lemma smoothing_total:
  assumes "1 \<le> smooth st" "- 1 \<le> r"
  shows "\<exists>l. smoothing st r = Inr l \<and> vec_len (nat (r + 1)) l"
proof -
  let ?n = "nat (r + 1)"
  let ?l1 = "init_loop (smooth st) r 0 (locals_new ?n)"
  have v: "vec_len ?n ?l1"
    using init_loop_keeps [of "smooth st" r 0 "locals_new ?n" ?n] by (simp add: locals_new_sel)
  have "\<exists>l'. main_loop st r (smooth st) ?l1 = Inr l' \<and> vec_len ?n l'"
  proof (rule main_loop_rule [where Inv = "\<lambda>secs l. vec_len ?n l"])
    show "vec_len ?n ?l1" by (rule v)
  next
    fix secs l assume "vec_len ?n l" "smooth st \<le> secs" "secs \<le> r"
    then show "\<exists>l'. bin_body st secs l = Inr l' \<and> vec_len ?n l'"
      using assms(1) by (intro bin_body_total) simp_all
  qed
  then show ?thesis using assms(2) by (simp add: smoothing_def)
qed

lemma consume_none:
  "\<not> (idx l < arrayLength st \<and> timeArray st ! idx l \<le> real_of_int secs) \<Longrightarrow>
   consume st secs l = l"
  by (subst consume.simps) auto

lemma evict_none: "dplist l = [] \<Longrightarrow> evict st secs l = l"
  by (subst evict.simps) simp

lemma init_loop_none: "smth \<le> 0 \<Longrightarrow> init_loop smth r 0 l = l"
  by (subst init_loop.simps) simp

lemma smoothing_nonpositive_window:
  assumes "smooth st \<le> 0" "0 < arrayLength st" "0 < timeArray st ! 0" "0 \<le> r"
  shows "smoothing st r =
           (if smooth st = 0 then Inl (ReadOutOfBounds (- 1)) else Inl (WriteOutOfBounds (smooth st)))"
proof -
  let ?l = "locals_new (nat (r + 1))"
  have i: "idx ?l = 0" "dplist ?l = []" "length (smoothWatts ?l) = nat (r + 1)"
    "length (smoothAltitude ?l) = nat (r + 1)"
    by (simp_all add: locals_new_def)
  have "\<not> (idx ?l < arrayLength st \<and> timeArray st ! idx ?l \<le> real_of_int (smooth st))"
    using assms(1,3) by (simp add: i)
  then have "consume st (smooth st) ?l = ?l" by (rule consume_none)
  then have b: "bin_body st (smooth st) ?l = store_bin (smooth st) ?l"
    by (simp add: bin_body_def evict_none i)
  have "store_bin (smooth st) ?l =
          (if smooth st = 0 then Inl (ReadOutOfBounds (- 1)) else Inl (WriteOutOfBounds (smooth st)))"
    using assms(1,4) by (simp add: store_bin_def i)
  then show ?thesis
    using assms(1,4) b
    by (simp add: smoothing_def init_loop_none main_loop.simps [of st r "smooth st"])
qed

lemma init_loop_rule2:
  assumes "Inv s l"
    and step: "\<And>secs l. Inv secs l \<Longrightarrow> s \<le> secs \<Longrightarrow> secs < smth \<Longrightarrow> secs < r \<Longrightarrow>
                 Inv (secs + 1) (init_step secs l)"
  shows "Inv (max s (min smth r)) (init_loop smth r s l)"
  using assms
proof (induction smth r s l rule: init_loop.induct)
  case (1 smth r s l)
  show ?case
  proof (cases "s < smth \<and> s < r")
    case True
    have "Inv (max (s + 1) (min smth r)) (init_loop smth r (s + 1) (init_step s l))"
    proof (rule "1.IH" [OF True])
      show "Inv (s + 1) (init_step s l)" using "1.prems"(2) [OF "1.prems"(1)] True by simp
    next
      fix secs l assume "Inv secs l" "s + 1 \<le> secs" "secs < smth" "secs < r"
      then show "Inv (secs + 1) (init_step secs l)" using "1.prems"(2) [of secs l] by simp
    qed
    moreover have "max (s + 1) (min smth r) = max s (min smth r)" using True by simp
    ultimately show ?thesis using True by (subst init_loop.simps) simp
  next
    case False
    then have "max s (min smth r) = s" by auto
    then show ?thesis using False "1.prems"(1) by (subst init_loop.simps) auto
  qed
qed

lemma replicate_update_same: "(replicate n x)[i := x] = replicate n x"
proof (rule nth_equalityI)
  fix k assume "k < length ((replicate n x)[i := x])"
  then show "(replicate n x)[i := x] ! k = replicate n x ! k"
    by (cases "k = i") simp_all
qed simp

lemma init_loop_result:
  assumes "0 \<le> r"
  shows "accus (init_loop smth r 0 (locals_new n)) = (0, 0, 0, 0, 0, 0, [], [], 0, 0) \<and>
         smoothWatts (init_loop smth r 0 (locals_new n)) = replicate n 0 \<and>
         smoothHr (init_loop smth r 0 (locals_new n)) = replicate n 0 \<and>
         smoothSpeed (init_loop smth r 0 (locals_new n)) = replicate n 0 \<and>
         smoothCad (init_loop smth r 0 (locals_new n)) = replicate n 0 \<and>
         smoothDistance (init_loop smth r 0 (locals_new n)) = replicate n 0 \<and>
         smoothAltitude (init_loop smth r 0 (locals_new n)) = replicate n 0 \<and>
         smoothTime (init_loop smth r 0 (locals_new n)) =
           map (\<lambda>k. if int k < max 0 (min smth r) then real k / 60 else 0) [0..<n]"
proof -
  let ?Inv = "\<lambda>secs l. 0 \<le> secs \<and> accus l = (0, 0, 0, 0, 0, 0, [], [], 0, 0) \<and>
         smoothWatts l = replicate n 0 \<and> smoothHr l = replicate n 0 \<and>
         smoothSpeed l = replicate n 0 \<and> smoothCad l = replicate n 0 \<and>
         smoothDistance l = replicate n 0 \<and> smoothAltitude l = replicate n 0 \<and>
         smoothTime l = map (\<lambda>k. if int k < secs then real k / 60 else 0) [0..<n]"
  have "?Inv (max 0 (min smth r)) (init_loop smth r 0 (locals_new n))"
  proof (rule init_loop_rule2)
    show "?Inv 0 (locals_new n)"
      by (simp add: locals_new_def accus_def list_eq_iff_nth_eq)
  next
    fix secs l assume inv: "?Inv secs l" and "0 \<le> secs" "secs < smth" "secs < r"
    have t: "(map (\<lambda>k. if int k < secs then real k / 60 else 0) [0..<n])
               [nat secs := real_of_int secs / 60] =
             map (\<lambda>k. if int k < secs + 1 then real k / 60 else 0) [0..<n]"
    proof (rule nth_equalityI)
      fix i assume "i < length ((map (\<lambda>k. if int k < secs then real k / 60 else 0) [0..<n])
               [nat secs := real_of_int secs / 60])"
      then have i: "i < n" by simp
      show "(map (\<lambda>k. if int k < secs then real k / 60 else 0) [0..<n])
               [nat secs := real_of_int secs / 60] ! i =
            map (\<lambda>k. if int k < secs + 1 then real k / 60 else 0) [0..<n] ! i"
      proof (cases "i = nat secs")
        case True
        then have "real i = real_of_int secs" using \<open>0 \<le> secs\<close> by simp
        then show ?thesis using True i \<open>0 \<le> secs\<close> by simp
      next
        case False
        then have "int i < secs + 1 \<longleftrightarrow> int i < secs" using \<open>0 \<le> secs\<close> by auto
        then show ?thesis using False i by simp
      qed
    qed simp
    show "?Inv (secs + 1) (init_step secs l)"
      using inv t by (simp add: init_step_def accus_def replicate_update_same)
  qed
  then show ?thesis by simp
qed

lemma smoothing_short_ride:
  assumes "0 \<le> r" "r < smooth st"
  shows "\<exists>l. smoothing st r = Inr l \<and> totalDist l = 0 \<and> interList l = [] \<and>
             smoothWatts l = replicate (nat (r + 1)) 0 \<and>
             smoothDistance l = replicate (nat (r + 1)) 0 \<and>
             smoothTime l = map (\<lambda>k. real k / 60) [0..<nat r] @ [0]"
proof -
  let ?l = "init_loop (smooth st) r 0 (locals_new (nat (r + 1)))"
  have m: "max 0 (min (smooth st) r) = r" using assms by simp
  have "nat (r + 1) = Suc (nat r)" using assms(1) by simp
  moreover have "\<And>k. k < nat r \<Longrightarrow> int k < r" by simp
  ultimately have "map (\<lambda>k. if int k < r then real k / 60 else 0) [0..<nat (r + 1)] =
             map (\<lambda>k. real k / 60) [0..<nat r] @ [0]"
    using assms(1) by simp
  then have "totalDist ?l = 0 \<and> interList ?l = [] \<and> smoothWatts ?l = replicate (nat (r + 1)) 0 \<and>
             smoothDistance ?l = replicate (nat (r + 1)) 0 \<and>
             smoothTime ?l = map (\<lambda>k. real k / 60) [0..<nat r] @ [0]"
    using init_loop_result [OF assms(1), of "smooth st" "nat (r + 1)"]
    by (simp add: m accus_def)
  moreover have "smoothing st r = Inr ?l"
    using assms by (simp add: smoothing_def main_loop.simps [of st r "smooth st"])
  ultimately show ?thesis by simp
qed

section \<open>The end of recalc\<close>

lemma names_ok_cong: "rideItem st' = rideItem st \<Longrightarrow> names_ok st' = names_ok st"
  by (simp add: names_ok_def)

lemma newZoneLabel_Inr:
  assumes "names_ok parent"
  shows "\<exists>label. newZoneLabel parent z = Inr label"
  using assms
  by (auto simp: newZoneLabel_def names_ok_def Let_def split: option.splits)

lemma newZoneLabels_Inr:
  assumes "names_ok parent"
  shows "\<exists>labels. newZoneLabels parent zs = Inr labels"
proof (induction zs)
  case Nil
  then show ?case by simp
next
  case (Cons z zs)
  then show ?case using newZoneLabel_Inr [OF assms, of z] by auto
qed

lemma refreshZoneLabels_Inr:
  assumes "names_ok st"
  shows "\<exists>labels. refreshZoneLabels st = Inr (st\<lparr>zoneLabels := labels\<rparr>)"
proof -
  let ?s = "st\<lparr>zoneLabels := []\<rparr>"
  have n: "names_ok ?s" using assms by (simp add: names_ok_def)
  show ?thesis
  proof (cases "rideItem st")
    case None
    then show ?thesis by (intro exI [of _ "[]"]) (simp add: refreshZoneLabels_def Let_def)
  next
    case (Some item)
    show ?thesis
    proof (cases "zones item")
      case None
      then show ?thesis using Some
        by (intro exI [of _ "[]"]) (simp add: refreshZoneLabels_def Let_def)
    next
      case zs: (Some zs)
      show ?thesis
      proof (cases "zoneRange item \<ge> 0")
        case True
        obtain labels where
          "newZoneLabels ?s [0..<nat (numZones zs (zoneRange item))] = Inr labels"
          using newZoneLabels_Inr [OF n] by blast
        then show ?thesis using Some zs True
          by (intro exI [of _ labels]) (simp add: refreshZoneLabels_def Let_def)
      next
        case False
        then show ?thesis using Some zs
          by (intro exI [of _ "[]"]) (simp add: refreshZoneLabels_def Let_def)
      qed
    qed
  qed
qed

lemma new_markers_time: "new_markers False sd m = Inr (map time_marker m)"
  by (induction m) (auto simp: marker_x_def time_marker_def)

lemma recalc_finish_sel:
  assumes "recalc_finish maxYValue st r l = Inr st'"
  shows "wattsCurve st' = wattsCurve (set_curves st r l)"
    and "hrCurve st' = hrCurve (set_curves st r l)"
    and "speedCurve st' = speedCurve (set_curves st r l)"
    and "cadCurve st' = cadCurve (set_curves st r l)"
    and "altCurve st' = altCurve (set_curves st r l)"
    and "xBottomScale st' = (0, if bydist st then totalDist l else smoothTime l ! nat r)"
    and "new_markers (bydist st) (smoothDistance l) (interList l) = Inr (d_mrk st')"
proof -
  let ?v = "(0, if bydist st then totalDist l else smoothTime l ! nat r)"
  let ?s1 = "setYMax maxYValue ((set_curves st r l)\<lparr>xBottomScale := ?v\<rparr>)"
  have b: "bydist (set_curves st r l) = bydist st"
    using set_curves_frame(1) [of st r l] by (simp add: members_def)
  from assms obtain st1 ms where
    a: "refreshZoneLabels ?s1 = Inr st1"
    and m: "new_markers (bydist st1) (smoothDistance l) (interList l) = Inr ms"
    and s: "st' = st1\<lparr>d_mrk := ms\<rparr>"
    by (auto simp: recalc_finish_def Let_def b split: if_splits sum.splits)
  note f = refreshZoneLabels_frame [OF a]
  have "bydist st1 = bydist st"
    using f(1) b by (simp add: members_def setYMax_frame [unfolded members_def])
  then show "new_markers (bydist st) (smoothDistance l) (interList l) = Inr (d_mrk st')"
    using m s by simp
  show "wattsCurve st' = wattsCurve (set_curves st r l)"
    and "hrCurve st' = hrCurve (set_curves st r l)"
    and "speedCurve st' = speedCurve (set_curves st r l)"
    and "cadCurve st' = cadCurve (set_curves st r l)"
    and "altCurve st' = altCurve (set_curves st r l)"
    and "xBottomScale st' = ?v"
    using s f(3-7,9) by (simp_all add: setYMax_frame)
qed

lemma recalc_finish_Inr:
  assumes "bydist st \<or> (0 \<le> r \<and> r < int (length (smoothTime l)))"
    and "names_ok st"
    and "new_markers (bydist st) (smoothDistance l) (interList l) = Inr ms"
  shows "\<exists>st'. recalc_finish maxYValue st r l = Inr st'"
proof -
  let ?v = "(0, if bydist st then totalDist l else smoothTime l ! nat r)"
  let ?s1 = "setYMax maxYValue ((set_curves st r l)\<lparr>xBottomScale := ?v\<rparr>)"
  have m: "members ?s1 = members st"
    by (simp only: setYMax_frame update_frame set_curves_frame)
  then have ri: "rideItem ?s1 = rideItem st" and b: "bydist ?s1 = bydist st"
    by (simp_all add: members_def)
  have b0: "bydist (set_curves st r l) = bydist st"
    using set_curves_frame(1) [of st r l] by (simp add: members_def)
  obtain labels where lb: "refreshZoneLabels ?s1 = Inr (?s1\<lparr>zoneLabels := labels\<rparr>)"
    using refreshZoneLabels_Inr [of ?s1] names_ok_cong [OF ri] assms(2) by auto
  show ?thesis
    using assms(1,3) lb b
    by (auto simp: recalc_finish_def Let_def b0)
qed

lemma recalc_over_week:
  assumes "timeArray st \<noteq> []" "length (timeArray st) = arrayLength st"
    and "7 * 24 * 60 * 60 < last (timeArray st)" "\<lceil>last (timeArray st)\<rceil> < 2 ^ 31"
  shows "recalc maxYValue st = Inr (clear_curves st)"
proof -
  have n: "arrayLength st \<noteq> 0" using assms(1,2) by (cases "timeArray st") auto
  have l: "timeArray st ! (arrayLength st - Suc 0) = last (timeArray st)"
    using assms(1,2) by (simp add: last_conv_nth)
  have c: "604800 < \<lceil>last (timeArray st)\<rceil>" using assms(3) by (simp add: less_ceiling_iff)
  then have "int_cast \<lceil>last (timeArray st)\<rceil> = Inr \<lceil>last (timeArray st)\<rceil>"
    using assms(4) by (simp add: int_cast_def)
  then show ?thesis using assms(1,2) n c by (simp add: recalc_def l)
qed

lemma recalc_cast_fault:
  assumes "timeArray st \<noteq> []" "length (timeArray st) = arrayLength st"
    and "2 ^ 31 \<le> \<lceil>last (timeArray st)\<rceil>"
  shows "recalc maxYValue st = Inl CastOutOfRange"
proof -
  have n: "arrayLength st \<noteq> 0" using assms(1,2) by (cases "timeArray st") auto
  have l: "timeArray st ! (arrayLength st - Suc 0) = last (timeArray st)"
    using assms(1,2) by (simp add: last_conv_nth)
  have "int_cast \<lceil>last (timeArray st)\<rceil> = Inl CastOutOfRange"
    using assms(3) by (simp add: int_cast_def)
  then show ?thesis using assms(1,2) n by (simp add: recalc_def l)
qed

lemma clear_curves_sel:
  "wattsCurve (clear_curves st) =
     (if wattsArray st \<noteq> [] then (wattsCurve st)\<lparr>xData := [], yData := []\<rparr> else wattsCurve st)"
  "hrCurve (clear_curves st) =
     (if hrArray st \<noteq> [] then (hrCurve st)\<lparr>xData := [], yData := []\<rparr> else hrCurve st)"
  "speedCurve (clear_curves st) =
     (if speedArray st \<noteq> [] then (speedCurve st)\<lparr>xData := [], yData := []\<rparr> else speedCurve st)"
  "cadCurve (clear_curves st) =
     (if cadArray st \<noteq> [] then (cadCurve st)\<lparr>xData := [], yData := []\<rparr> else cadCurve st)"
  "altCurve (clear_curves st) =
     (if altArray st \<noteq> [] then (altCurve st)\<lparr>xData := [], yData := []\<rparr> else altCurve st)"
  "d_mrk (clear_curves st) = d_mrk st" "zoneLabels (clear_curves st) = zoneLabels st"
  "xBottomScale (clear_curves st) = xBottomScale st" "yLeftScale (clear_curves st) = yLeftScale st"
  "yLeftTitle (clear_curves st) = yLeftTitle st" "yRightTitle (clear_curves st) = yRightTitle st"
  "yRightEnabled (clear_curves st) = yRightEnabled st"
  by (simp_all add: clear_curves_def Let_def curve_setData_def)

lemma set_curves_sel:
  "wattsCurve (set_curves st r l) =
     (if wattsArray st \<noteq> []
      then (wattsCurve st)\<lparr>xData := take (nat (r + 1)) (if bydist st then smoothDistance l else smoothTime l),
                            yData := take (nat (r + 1)) (smoothWatts l)\<rparr>
      else wattsCurve st)"
  "hrCurve (set_curves st r l) =
     (if hrArray st \<noteq> []
      then (hrCurve st)\<lparr>xData := take (nat (r + 1)) (if bydist st then smoothDistance l else smoothTime l),
                         yData := take (nat (r + 1)) (smoothHr l)\<rparr>
      else hrCurve st)"
  "speedCurve (set_curves st r l) =
     (if speedArray st \<noteq> []
      then (speedCurve st)\<lparr>xData := take (nat (r + 1)) (if bydist st then smoothDistance l else smoothTime l),
                            yData := take (nat (r + 1)) (smoothSpeed l)\<rparr>
      else speedCurve st)"
  "cadCurve (set_curves st r l) =
     (if cadArray st \<noteq> []
      then (cadCurve st)\<lparr>xData := take (nat (r + 1)) (if bydist st then smoothDistance l else smoothTime l),
                          yData := take (nat (r + 1)) (smoothCad l)\<rparr>
      else cadCurve st)"
  "altCurve (set_curves st r l) =
     (if altArray st \<noteq> []
      then (altCurve st)\<lparr>xData := take (nat (r + 1)) (if bydist st then smoothDistance l else smoothTime l),
                          yData := take (nat (r + 1)) (smoothAltitude l)\<rparr>
      else altCurve st)"
  by (simp_all add: set_curves_def Let_def curve_setData_def)

section \<open>The example inputs\<close>

lemma metric_plot_sel:
  "useMetricUnits metric_plot" "unitSetting metric_plot = ''Metric''" "smooth metric_plot = 30"
  "\<not> bydist metric_plot" "\<not> shade_zones metric_plot" "rideItem metric_plot = None"
  "timeArray metric_plot = []" "wattsArray metric_plot = []"
  by (simp_all add: metric_plot_def AllPlot_new_def raw_plot_def setXTitle_def Let_def)

lemma climb_plot_sel:
  "arrays_ok (climb_plot w)"
  "timeArray (climb_plot w) = [1 / 2, 1, 3 / 2, 11 / 2]"
  "arrayLength (climb_plot w) = 4"
  "smooth (climb_plot w) = w"
  "samples (climb_plot w) = map (sample_of True all_present) (dataPoints climb_ride)"
  "\<not> bydist (climb_plot w)"
  "rideItem (climb_plot w) = Some climb_item"
  by (simp_all add: climb_plot_def loaded_sel climb_ride_def metric_plot_sel)

lemma stamped_plot_sel:
  "arrays_ok (stamped_plot t)"
  "timeArray (stamped_plot t) = [0, t]"
  "arrayLength (stamped_plot t) = 2"
  "smooth (stamped_plot t) = 30"
  "ride (stamped_item t) = Some (stamped_ride t)"
  by (simp_all add: stamped_plot_def loaded_sel stamped_ride_def stamped_item_def metric_plot_sel)

lemma short_plot_sel:
  "arrays_ok (short_plot bd)"
  "timeArray (short_plot bd) = [1, 2, 3]"
  "arrayLength (short_plot bd) = 3"
  "smooth (short_plot bd) = 30"
  "bydist (short_plot bd) = bd"
  "rideItem (short_plot bd) = Some short_item"
  "ride short_item = Some short_ride"
  by (simp_all add: short_plot_def loaded_sel short_ride_def short_item_def metric_plot_sel)

lemma short_plot_sel2:
  "wattsArray (short_plot bd) \<noteq> []"
  "distanceArray (short_plot bd) = [1 / 100, 2 / 100, 3 / 100]"
  "names_ok (short_plot bd)"
  by (simp_all add: short_plot_def short_ride_def short_item_def metric_plot_sel
        loaded_def load_ride_arrays all_present_def max_dbl_def names_ok_def load_ride_frame)

lemma climb_plot_sel2:
  "names_ok (climb_plot w)"
  "interArray (climb_plot w) = [1, 1, 1, 2]"
  "ride climb_item = Some climb_ride"
  by (simp_all add: climb_plot_def loaded_sel climb_ride_def climb_item_def names_ok_def)

lemma burst_plot_sel:
  "arrays_ok burst_plot"
  "timeArray burst_plot = [1, 2, 3]"
  "interArray burst_plot = [0, 1, 2]"
  "arrayLength burst_plot = 3"
  "smooth burst_plot = 3"
  "\<not> bydist burst_plot"
  "names_ok burst_plot"
  "ride burst_item = Some burst_ride"
  by (simp_all add: burst_plot_def loaded_sel burst_ride_def burst_item_def metric_plot_sel
        names_ok_def)

lemma climb_plot_transitions:
  "transitions 0 (samples (climb_plot 2)) =
     [sample_of True all_present (dataPoints climb_ride ! 0),
      sample_of True all_present (dataPoints climb_ride ! 3)]"
  by (simp add: climb_plot_sel climb_ride_def sample_of_def)

lemma climb_plot_bins: "map (bin_of (climb_plot 2)) (transitions 0 (samples (climb_plot 2))) = [2, 6]"
  by (simp add: climb_plot_transitions bin_of_def climb_plot_sel climb_ride_def sample_of_def
        ceiling_eq_iff)

lemma climb_plot_markers:
  "map (interval_marker (climb_plot 2)) (transitions 0 (samples (climb_plot 2))) =
     [\<lparr>xValue = 2 / 60, yValue = 0, mrkLabel = 1\<rparr>, \<lparr>xValue = 6 / 60, yValue = 0, mrkLabel = 2\<rparr>]"
  using climb_plot_bins
  by (simp add: climb_plot_transitions interval_marker_def climb_ride_def sample_of_def)

lemma climb_plot_hyps:
  "arrays_ok (climb_plot 2)" "sorted (timeArray (climb_plot 2))" "timeArray (climb_plot 2) \<noteq> []"
  "last (timeArray (climb_plot 2)) \<le> 7 * 24 * 60 * 60" "1 \<le> smooth (climb_plot 2)"
  "smooth (climb_plot 2) \<le> \<lceil>last (timeArray (climb_plot 2))\<rceil>" "names_ok (climb_plot 2)"
  "\<not> bydist (climb_plot 2)"
  "distinct (map (bin_of (climb_plot 2)) (transitions 0 (samples (climb_plot 2))))"
  unfolding climb_plot_bins
  by (simp_all add: climb_plot_sel(1-4,6) climb_plot_sel2 ceiling_eq_iff [of _ 6])

section \<open>The interval map\<close>

lemma transitions_snoc:
  "transitions prev (xs @ [p]) =
     transitions prev xs @
       (if (if xs = [] then prev else dp_inter (last xs)) \<noteq> dp_inter p then [p] else [])"
  by (induction xs arbitrary: prev) auto

lemma transitions_append:
  "transitions prev (xs @ ys) =
     transitions prev xs @ transitions (if xs = [] then prev else dp_inter (last xs)) ys"
  by (induction xs arbitrary: prev) auto

lemma transitions_subset: "set (transitions prev xs) \<subseteq> set xs"
  by (induction xs arbitrary: prev) auto

lemma qmap_set_append:
  "\<forall>e \<in> set m. fst e < k \<Longrightarrow> qmap_set k v m = m @ [(k, v)]"
  by (induction m) auto

lemma samples_sel:
  "length (samples st) = arrayLength st"
  "i < arrayLength st \<Longrightarrow> samples st ! i = dp_at st i"
  by (simp_all add: samples_def)

lemma take_samples_Suc:
  "i < arrayLength st \<Longrightarrow> take (Suc i) (samples st) = take i (samples st) @ [dp_at st i]"
  by (simp add: take_Suc_conv_app_nth samples_sel)

lemma consumed_bins:
  assumes "consumed_upto st l (real_of_int secs)" "idx l \<le> arrayLength st" "smooth st \<le> secs"
    and "p \<in> set (take (idx l) (samples st))"
  shows "bin_of st p \<le> secs"
proof -
  from assms(4) obtain j where j: "j < idx l" "p = samples st ! j"
    by (auto simp: in_set_conv_nth)
  then have "dp_time p = timeArray st ! j" using assms(2) by (simp add: samples_sel dp_at_sel)
  then have "dp_time p \<le> real_of_int secs" using assms(1) j by (simp add: consumed_upto_def)
  then have "\<lceil>dp_time p\<rceil> \<le> secs" by (simp add: ceiling_le_iff)
  then show ?thesis using assms(3) by (simp add: bin_of_def)
qed

lemma consume_step_inter_ok:
  assumes io: "inter_ok st secs l"
    and i: "idx l < arrayLength st" and t: "timeArray st ! idx l \<le> real_of_int secs"
    and s: "smooth st \<le> secs"
    and fresh: "secs = smooth st \<or> real_of_int (secs - 1) < timeArray st ! idx l"
    and dist: "distinct (map (bin_of st) (transitions 0 (samples st)))"
  shows "interList (consume_step st secs l) =
           entries st (take (idx (consume_step st secs l)) (samples st))"
    and "lastInterval (consume_step st secs l) =
           last_inter (take (idx (consume_step st secs l)) (samples st))"
    and "consumed_upto st (consume_step st secs l) (real_of_int secs)"
proof -
  let ?xs = "take (idx l) (samples st)"
  let ?p = "dp_at st (idx l)"
  have il: "interList l = entries st ?xs" and li: "lastInterval l = last_inter ?xs"
    and cu: "consumed_upto st l (real_of_int secs)"
    using io by (simp_all add: inter_ok_def)
  have tk: "take (Suc (idx l)) (samples st) = ?xs @ [?p]" using i by (rule take_samples_Suc)
  have ip: "interArray st ! idx l = dp_inter ?p" by (simp add: dp_at_sel)
  show "lastInterval (consume_step st secs l) =
           last_inter (take (idx (consume_step st secs l)) (samples st))"
    by (simp add: consume_step_inter consume_step_sel tk last_inter_def ip)
  show "consumed_upto st (consume_step st secs l) (real_of_int secs)"
    using cu t by (auto simp: consumed_upto_def consume_step_sel less_Suc_eq)
  have li': "lastInterval l = (if ?xs = [] then 0 else dp_inter (last ?xs))"
    using li by (simp add: last_inter_def)
  show "interList (consume_step st secs l) =
           entries st (take (idx (consume_step st secs l)) (samples st))"
  proof (cases "lastInterval l \<noteq> dp_inter ?p")
    case False
    then show ?thesis
      using li' by (simp add: consume_step_inter consume_step_sel tk ip il entries_def transitions_snoc)
  next
    case True
    have tr: "transitions 0 (?xs @ [?p]) = transitions 0 ?xs @ [?p]"
      using True li' by (simp add: transitions_snoc)
    have b: "bin_of st ?p = secs"
    proof -
      have "\<lceil>timeArray st ! idx l\<rceil> \<le> secs" using t by (simp add: ceiling_le_iff)
      moreover have "secs = smooth st \<or> secs \<le> \<lceil>timeArray st ! idx l\<rceil>"
        using fresh by (auto simp: le_ceiling_iff)
      ultimately show ?thesis using s by (auto simp: bin_of_def dp_at_sel)
    qed
    have pre: "transitions 0 (samples st) =
                 (transitions 0 ?xs @ [?p]) @
                 transitions (dp_inter ?p) (drop (Suc (idx l)) (samples st))"
    proof -
      have "samples st = (?xs @ [?p]) @ drop (Suc (idx l)) (samples st)"
        using tk by (metis append_take_drop_id)
      then have "transitions 0 (samples st) =
                   transitions 0 ((?xs @ [?p]) @ drop (Suc (idx l)) (samples st))"
        by simp
      also have "\<dots> = transitions 0 (?xs @ [?p]) @
                   transitions (dp_inter ?p) (drop (Suc (idx l)) (samples st))"
        by (subst transitions_append) simp
      finally show ?thesis using tr by simp
    qed
    have "distinct (map (bin_of st) (transitions 0 ?xs @ [?p]))"
      using dist unfolding pre by simp
    then have notin: "secs \<notin> bin_of st ` set (transitions 0 ?xs)" using b by simp
    have "\<forall>e \<in> set (entries st ?xs). fst e < real_of_int secs / 60"
    proof
      fix e assume "e \<in> set (entries st ?xs)"
      then obtain q where q: "q \<in> set (transitions 0 ?xs)" "fst e = real_of_int (bin_of st q) / 60"
        by (auto simp: entries_def)
      then have "q \<in> set ?xs" using transitions_subset by blast
      then have "bin_of st q \<le> secs"
        using consumed_bins [OF cu _ s] i by simp
      moreover have "bin_of st q \<noteq> secs" using notin q(1) by auto
      ultimately have "bin_of st q < secs" by simp
      then show "fst e < real_of_int secs / 60" using q(2) by simp
    qed
    then have "qmap_set (real_of_int secs / 60) (dp_inter ?p) (entries st ?xs) =
               entries st ?xs @ [(real_of_int secs / 60, dp_inter ?p)]"
      by (rule qmap_set_append)
    then show ?thesis
      using True by (simp add: consume_step_inter consume_step_sel tk ip il entries_def tr b)
  qed
qed

lemma inter_ok_accus: "accus l' = accus l \<Longrightarrow> inter_ok st secs l' = inter_ok st secs l"
  by (simp add: accus_def inter_ok_def consumed_upto_def)

lemma consume_inter_ok:
  assumes io: "inter_ok st secs l"
    and srt: "sorted (timeArray st)" and len: "length (timeArray st) = arrayLength st"
    and s: "smooth st \<le> secs"
    and dist: "distinct (map (bin_of st) (transitions 0 (samples st)))"
  shows "inter_ok st secs (consume st secs l)"
proof -
  have "inter_ok st secs (consume st secs l) \<and>
        \<not> (idx (consume st secs l) < arrayLength st \<and>
           timeArray st ! idx (consume st secs l) \<le> real_of_int secs)"
  proof (rule consume_rule [where P = "inter_ok st secs"])
    show "inter_ok st secs l" by (rule io)
  next
    fix l' assume io': "inter_ok st secs l'" and i: "idx l' < arrayLength st"
      and t: "timeArray st ! idx l' \<le> real_of_int secs"
    have fresh: "secs = smooth st \<or> real_of_int (secs - 1) < timeArray st ! idx l'"
      using io' i by (auto simp: inter_ok_def)
    note step = consume_step_inter_ok [OF io' i t s fresh dist]
    have "secs = smooth st \<or> Suc (idx l') = arrayLength st \<or>
          real_of_int (secs - 1) < timeArray st ! Suc (idx l')"
    proof (cases "secs = smooth st \<or> Suc (idx l') = arrayLength st")
      case True
      then show ?thesis by auto
    next
      case False
      then have "Suc (idx l') < arrayLength st" using i by simp
      then have "timeArray st ! idx l' \<le> timeArray st ! Suc (idx l')"
        using srt len by (simp add: sorted_iff_nth_mono)
      then show ?thesis using fresh False by auto
    qed
    then show "inter_ok st secs (consume_step st secs l')"
      using step i unfolding inter_ok_def by (simp add: consume_step_sel)
  qed
  then show ?thesis by simp
qed

lemma bin_body_inter:
  assumes a: "at_bin st n secs l" and io: "inter_ok st secs l"
    and srt: "sorted (timeArray st)" and len: "length (timeArray st) = arrayLength st"
    and secs: "1 \<le> secs" "secs < int n" "smooth st \<le> secs"
    and dist: "distinct (map (bin_of st) (transitions 0 (samples st)))"
  shows "\<exists>l'. bin_body st secs l = Inr l' \<and> at_bin st n (secs + 1) l' \<and> inter_ok st (secs + 1) l'"
proof -
  let ?l1 = "consume st secs l"
  let ?l2 = "evict st secs ?l1"
  have q: "queue_ok st l" and c: "consumed_upto st l (real_of_int secs)"
    and e: "evicted_below st l (real_of_int (secs - smooth st))"
    using a by (simp_all add: at_bin_def)
  note c1 = consume_facts [OF q c e order_refl]
  note e1 = evict_facts [OF c1(1) c1(2) c1(3) order_refl]
  have io1: "inter_ok st secs ?l1" by (rule consume_inter_ok [OF io srt len secs(3) dist])
  from bin_body_result [OF a srt len secs(1,2)] obtain l' where
    l': "bin_body st secs l = Inr l'" "at_bin st n (secs + 1) l'" "accus l' = accus ?l2"
    by blast
  have i2: "idx l' = idx ?l1" "interList l' = interList ?l1" "lastInterval l' = lastInterval ?l1"
    using l'(3) e1(5,7,8) by (simp_all add: accus_def)
  have cu: "consumed_upto st l' (real_of_int (secs + 1))"
    using l'(2) by (simp add: at_bin_def)
  have "inter_ok st (secs + 1) l'"
    using io1 c1(5) cu unfolding inter_ok_def i2 by auto
  then show ?thesis using l'(1,2) by blast
qed

lemma smoothing_inter:
  assumes srt: "sorted (timeArray st)" and len: "length (timeArray st) = arrayLength st"
    and s: "1 \<le> smooth st" and r: "smooth st \<le> r"
    and ne: "timeArray st \<noteq> []" and lst: "last (timeArray st) \<le> real_of_int r"
    and dist: "distinct (map (bin_of st) (transitions 0 (samples st)))"
  shows "\<exists>l. smoothing st r = Inr l \<and> vec_len (nat (r + 1)) l \<and>
             interList l = entries st (samples st)"
proof -
  let ?n = "nat (r + 1)"
  let ?l1 = "init_loop (smooth st) r 0 (locals_new ?n)"
  have ac: "accus ?l1 = (0, 0, 0, 0, 0, 0, [], [], 0, 0)" and v: "vec_len ?n ?l1"
    using init_loop_keeps [of "smooth st" r 0 "locals_new ?n" ?n]
    by (simp_all add: locals_new_sel)
  have a0: "at_bin st ?n (smooth st) ?l1" using ac v by (rule at_bin_start)
  have i0: "inter_ok st (smooth st) ?l1"
    using ac by (simp add: inter_ok_def accus_def entries_def last_inter_def consumed_upto_def)
  let ?Inv = "\<lambda>secs l. at_bin st ?n secs l \<and> inter_ok st secs l"
  have "\<exists>l'. main_loop st r (smooth st) ?l1 = Inr l' \<and> ?Inv (max (smooth st) (r + 1)) l'"
  proof (rule main_loop_rule)
    show "?Inv (smooth st) ?l1" using a0 i0 by simp
  next
    fix secs l assume "?Inv secs l" "smooth st \<le> secs" "secs \<le> r"
    then show "\<exists>l'. bin_body st secs l = Inr l' \<and> ?Inv (secs + 1) l'"
      using s by (intro bin_body_inter [OF _ _ srt len _ _ _ dist]) simp_all
  qed
  then obtain l where l: "main_loop st r (smooth st) ?l1 = Inr l" "at_bin st ?n (r + 1) l"
    "inter_ok st (r + 1) l"
    using r by (auto simp: max_def)
  have "idx l = arrayLength st"
  proof (rule ccontr)
    assume n: "idx l \<noteq> arrayLength st"
    then have lt: "idx l < arrayLength st" using l(3) by (simp add: inter_ok_def)
    have "real_of_int r < timeArray st ! idx l" using l(3) n r s by (auto simp: inter_ok_def)
    moreover have "timeArray st ! idx l \<le> timeArray st ! (arrayLength st - 1)"
      using srt len lt by (simp add: sorted_iff_nth_mono)
    moreover have "timeArray st ! (arrayLength st - 1) = last (timeArray st)"
      using ne len by (simp add: last_conv_nth)
    ultimately show False using lst by simp
  qed
  then have "interList l = entries st (samples st)"
    using l(3) by (simp add: inter_ok_def samples_sel)
  moreover have "smoothing st r = Inr l" using l(1) r s by (simp add: smoothing_def)
  ultimately show ?thesis using l(2) by (auto simp: at_bin_def)
qed

lemma sample_bins:
  assumes srt: "sorted (timeArray st)" and len: "length (timeArray st) = arrayLength st"
    and ne: "timeArray st \<noteq> []" and r: "smooth st \<le> \<lceil>last (timeArray st)\<rceil>"
    and p: "p \<in> set (samples st)"
  shows "smooth st \<le> bin_of st p \<and> bin_of st p \<le> \<lceil>last (timeArray st)\<rceil>"
proof -
  from p obtain j where j: "j < arrayLength st" "p = samples st ! j"
    by (auto simp: in_set_conv_nth samples_sel)
  then have "dp_time p = timeArray st ! j" by (simp add: samples_sel dp_at_sel)
  also have "\<dots> \<le> timeArray st ! (arrayLength st - 1)"
    using srt len j by (simp add: sorted_iff_nth_mono)
  also have "\<dots> = last (timeArray st)" using ne len by (simp add: last_conv_nth)
  finally have "\<lceil>dp_time p\<rceil> \<le> \<lceil>last (timeArray st)\<rceil>" by (rule ceiling_mono)
  then show ?thesis using r by (simp add: bin_of_def)
qed

lemma recalc_markers:
  assumes ok: "arrays_ok st" and srt: "sorted (timeArray st)" and ne: "timeArray st \<noteq> []"
    and week: "last (timeArray st) \<le> 7 * 24 * 60 * 60"
    and s: "1 \<le> smooth st" and r: "smooth st \<le> \<lceil>last (timeArray st)\<rceil>"
    and names: "names_ok st"
    and tm: "\<not> bydist st"
    and dist: "distinct (map (bin_of st) (transitions 0 (samples st)))"
  shows "\<exists>st'. recalc maxYValue st = Inr st' \<and>
           d_mrk st' = map (interval_marker st) (transitions 0 (samples st))"
proof -
  let ?r = "\<lceil>last (timeArray st)\<rceil>"
  let ?ts = "transitions 0 (samples st)"
  have len: "length (timeArray st) = arrayLength st" using ok by (simp add: arrays_ok_def)
  have r1: "1 \<le> ?r" using s r by linarith
  obtain l where l: "smoothing st ?r = Inr l" "vec_len (nat (?r + 1)) l"
    "interList l = entries st (samples st)"
    using smoothing_inter [OF srt len s r ne le_of_int_ceiling dist] by blast
  have rc: "recalc maxYValue st = recalc_finish maxYValue st ?r l"
    using recalc_smoothing [OF ne len _ week] r1 l(1) by simp
  let ?ms = "map (interval_marker st) ?ts"
  have m: "new_markers (bydist st) (smoothDistance l) (interList l) = Inr ?ms"
    using tm by (simp add: new_markers_time l(3) entries_def time_marker_def interval_marker_def)
  have "bydist st \<or> (0 \<le> ?r \<and> ?r < int (length (smoothTime l)))"
    using l(2) r1 by (simp add: vec_len_def)
  from recalc_finish_Inr [OF this names m] obtain st' where
    st': "recalc_finish maxYValue st ?r l = Inr st'" by blast
  have "d_mrk st' = ?ms" using recalc_finish_sel(7) [OF st'] m by simp
  then show ?thesis using rc st' by auto
qed

section \<open>The life of a plot\<close>

text \<open>What each member function does to the members that \<^verbatim>\<open>recalc\<close> only reads.\<close>

lemma setXTitle_frame:
  "members (setXTitle st) = members (st\<lparr>xBottomTitle := xBottomTitle (setXTitle st)\<rparr>)"
  "curve_flags (setXTitle st) = curve_flags st"
  by (simp_all add: setXTitle_def members_def curve_flags_def)

lemma showPower_frame:
  assumes "showPower mx ident st = Inr st'"
  shows "members st' = members (st\<lparr>shade_zones := (ident = 0)\<rparr>)"
proof -
  have "members st' =
          members (setYMax mx (st\<lparr>wattsCurve := (wattsCurve st)\<lparr>visible := ident < 2\<rparr>,
                                  shade_zones := (ident = 0)\<rparr>))"
    using assms recalc_frame [of mx _ st'] by (simp add: showPower_def Let_def)
  then show ?thesis by (simp add: setYMax_frame) (simp add: members_def)
qed

lemma show_frame:
  "showHr mx state st = Inr st' \<Longrightarrow> members st' = members st"
  "showSpeed mx state st = Inr st' \<Longrightarrow> members st' = members st"
  "showCad mx state st = Inr st' \<Longrightarrow> members st' = members st"
  "showAlt mx state st = Inr st' \<Longrightarrow> members st' = members st"
  by (auto simp: showHr_def showSpeed_def showCad_def showAlt_def setYMax_frame split: if_splits)
     (simp_all add: members_def)

lemma setSmoothing_frame:
  "setSmoothing mx v st = Inr st' \<Longrightarrow> members st' = members (st\<lparr>smooth := v\<rparr>)"
  using recalc_frame [of mx "st\<lparr>smooth := v\<rparr>" st'] by (simp add: setSmoothing_def)

lemma setByDistance_frame:
  "setByDistance mx ident st = Inr st' \<Longrightarrow>
   members st' = members (setXTitle (st\<lparr>bydist := (ident = 1)\<rparr>))"
  using recalc_frame [of mx "setXTitle (st\<lparr>bydist := (ident = 1)\<rparr>)" st']
  by (simp add: setByDistance_def)

lemma setData_None:
  assumes "ride item = None" "setData mx item st = Inr st'"
  shows "members st' =
           members (st\<lparr>rideItem := Some item, wattsArray := [], plotTitle := ''no data''\<rparr>)"
  using assms by (auto simp: setData_def Let_def members_def)

lemma setData_members:
  assumes "ride item = Some r" "setData mx item st = Inr st'"
  shows "members st' = members (loaded item r st)"
  using assms recalc_frame [of mx "loaded item r st" st'] by (simp add: setData_Some)

section \<open>The arrays are never negative\<close>

lemma nonneg_arrays_cong: "members st' = members st \<Longrightarrow> nonneg_arrays st' = nonneg_arrays st"
  by (simp add: members_def nonneg_arrays_def)

lemma nonneg_arrays_update [simp]:
  "nonneg_arrays (st\<lparr>shade_zones := a\<rparr>) = nonneg_arrays st"
  "nonneg_arrays (st\<lparr>smooth := b\<rparr>) = nonneg_arrays st"
  "nonneg_arrays (st\<lparr>bydist := c\<rparr>) = nonneg_arrays st"
  "nonneg_arrays (st\<lparr>xBottomTitle := d\<rparr>) = nonneg_arrays st"
  "nonneg_arrays (st\<lparr>plotTitle := e\<rparr>) = nonneg_arrays st"
  "nonneg_arrays (st\<lparr>rideItem := f\<rparr>) = nonneg_arrays st"
  by (simp_all add: nonneg_arrays_def)

lemma nonneg_arrays_clear: "nonneg_arrays st \<Longrightarrow> nonneg_arrays (st\<lparr>wattsArray := []\<rparr>)"
  by (simp add: nonneg_arrays_def)

lemma nonneg_arrays_new: "nonneg_arrays (AllPlot_new unit q)"
  by (simp add: nonneg_arrays_def AllPlot_new_def Let_def setXTitle_def)

lemma max_dbl_nonneg: "0 \<le> max_dbl 0 v"
  by (simp add: max_dbl_def)

lemma nonneg_clamped:
  "list_all (\<lambda>v. 0 \<le> v) (map (\<lambda>p. max_dbl 0 (f p)) ps)"
  "list_all (\<lambda>v. 0 \<le> v) (if c then map (\<lambda>p. max_dbl 0 (f p)) ps else [])"
  by (auto simp: list_all_iff max_dbl_nonneg)

lemma nonneg_arrays_loaded: "nonneg_arrays (loaded item r st)"
  unfolding nonneg_arrays_def loaded_def load_ride_arrays
  by (intro conjI nonneg_clamped)

lemma setData_nonneg:
  assumes "setData mx item st = Inr st'" "ride item = None \<Longrightarrow> nonneg_arrays st"
  shows "nonneg_arrays st'"
proof (cases "ride item")
  case None
  then show ?thesis
    using nonneg_arrays_cong [OF setData_None [OF None assms(1)]] assms(2)
    by (simp add: nonneg_arrays_clear)
next
  case (Some r)
  then show ?thesis
    using nonneg_arrays_cong [OF setData_members [OF Some assms(1)]]
    by (simp add: nonneg_arrays_loaded)
qed

lemma reachable_nonneg: "reachable mx st \<Longrightarrow> nonneg_arrays st"
proof (induction rule: reachable.induct)
  case (constructed unit q)
  show ?case by (rule nonneg_arrays_new)
next
  case (after_setData st item st')
  then show ?case using setData_nonneg by blast
next
  case (after_recalc st st')
  then show ?case using nonneg_arrays_cong recalc_frame by blast
next
  case (after_refreshZoneLabels st st')
  then show ?case using nonneg_arrays_cong refreshZoneLabels_frame(1) by blast
next
  case (after_setYMax st)
  then show ?case using nonneg_arrays_cong [OF setYMax_frame(1)] by simp
next
  case (after_setXTitle st)
  then show ?case using nonneg_arrays_cong [OF setXTitle_frame(1)] by simp
next
  case (after_showPower st ident st')
  then show ?case using nonneg_arrays_cong [OF showPower_frame] by simp
next
  case (after_showHr st state st')
  then show ?case using nonneg_arrays_cong [OF show_frame(1)] by simp
next
  case (after_showSpeed st state st')
  then show ?case using nonneg_arrays_cong [OF show_frame(2)] by simp
next
  case (after_showCad st state st')
  then show ?case using nonneg_arrays_cong [OF show_frame(3)] by simp
next
  case (after_showAlt st state st')
  then show ?case using nonneg_arrays_cong [OF show_frame(4)] by simp
next
  case (after_setSmoothing st v st')
  then show ?case using nonneg_arrays_cong [OF setSmoothing_frame] by simp
next
  case (after_setByDistance st ident st')
  then show ?case
    using nonneg_arrays_cong [OF setByDistance_frame]
      nonneg_arrays_cong [OF setXTitle_frame(1)] by simp
qed

section \<open>A ride shorter than the window\<close>

lemma recalc_short_total:
  assumes "arrays_ok st" "timeArray st \<noteq> []" "- 1 < last (timeArray st)"
    and "\<lceil>last (timeArray st)\<rceil> < smooth st" "last (timeArray st) \<le> 7 * 24 * 60 * 60"
    and "names_ok st"
  shows "\<exists>st'. recalc mx st = Inr st'"
proof -
  let ?r = "\<lceil>last (timeArray st)\<rceil>"
  have r0: "0 \<le> ?r" using assms(3) by (simp add: le_ceiling_iff)
  obtain l where l: "smoothing st ?r = Inr l" "interList l = []"
    "smoothTime l = map (\<lambda>k. real k / 60) [0..<nat ?r] @ [0]"
    using smoothing_short_ride [OF r0 assms(4)] by auto
  have len: "length (timeArray st) = arrayLength st" using assms(1) by (simp add: arrays_ok_def)
  have r: "recalc mx st = recalc_finish mx st ?r l"
    using recalc_smoothing [OF assms(2) len _ assms(5), of mx] l(1) r0 by simp
  have m: "new_markers (bydist st) (smoothDistance l) (interList l) = Inr []"
    by (simp add: l(2))
  have "bydist st \<or> (0 \<le> ?r \<and> ?r < int (length (smoothTime l)))"
    using r0 by (simp add: l(3))
  from recalc_finish_Inr [OF this assms(6) m] show ?thesis using r by simp
qed

lemma AllPlot_new_sel:
  "unitSetting (AllPlot_new unit q) = unit"
  "useMetricUnits (AllPlot_new unit q) = (unit = ''Metric'')"
  "smooth (AllPlot_new unit q) = 30"
  "\<not> bydist (AllPlot_new unit q)"
  "\<not> shade_zones (AllPlot_new unit q)"
  "rideItem (AllPlot_new unit q) = None"
  "xBottomTitle (AllPlot_new unit q) = ''Time (minutes)''"
  by (simp_all add: AllPlot_new_def Let_def setXTitle_def)

lemma loaded_frame:
  "unitSetting (loaded item r st) = unitSetting st"
  "shade_zones (loaded item r st) = shade_zones st"
  "xBottomTitle (loaded item r st) = xBottomTitle st"
  "plotTitle (loaded item r st) = startTime r"
  by (simp_all add: loaded_def load_ride_frame)

lemma valley_plot_sel:
  "arrays_ok (valley_plot unit)"
  "timeArray (valley_plot unit) = [0, 1]"
  "smooth (valley_plot unit) = 30"
  "names_ok (valley_plot unit)"
  "ride valley_item = Some valley_ride"
  "useMetricUnits (valley_plot unit) = (unit = ''Metric'')"
  "unitSetting (valley_plot unit) = unit"
  by (simp_all add: valley_plot_def loaded_sel loaded_frame valley_ride_def valley_item_def
        names_ok_def AllPlot_new_sel)

lemma valley_plot_arrays:
  "wattsArray (valley_plot unit) = [0, 200]"
  "hrArray (valley_plot unit) = [120, 121]"
  "cadArray (valley_plot unit) = [90, 91]"
  "unit = ''Metric'' \<Longrightarrow> speedArray (valley_plot unit) = [30, 31]"
  "altArray (valley_plot unit) = [0, 0]"
  "unit = ''Metric'' \<Longrightarrow> distanceArray (valley_plot unit) = [0, 1 / 100]"
  by (simp_all add: valley_plot_def loaded_def load_ride_arrays valley_ride_def all_present_def
        max_dbl_def AllPlot_new_sel FEET_PER_M_def)

lemma valley_recalc: "\<exists>st'. recalc mx (valley_plot unit) = Inr st'"
  by (rule recalc_short_total) (simp_all add: valley_plot_sel)

section \<open>The axes\<close>

lemma setYMax_left:
  "yLeftScale (setYMax mx st) =
     (0, Max (set (0 # map (\<lambda>e. mx (fst e)) (visible_left st))) * 11 / 10)"
  "yLeftTitle (setYMax mx st) = join '' / '' (map snd (visible_left st))"
  by (cases "visible (wattsCurve st)"; cases "visible (hrCurve st)";
      cases "visible (cadCurve st)"; cases "visible (altCurve st)";
      simp add: setYMax_def Let_def max_dbl_def visible_left_def left_curves_def add_label_def
        max_def)+

lemma setYMax_right:
  "yRightEnabled (setYMax mx st) = visible (speedCurve st)"
  "yRightTitle (setYMax mx st) = (if useMetricUnits st then ''KPH'' else ''MPH'')"
  by (simp_all add: setYMax_def Let_def split_def)

lemma visible_left_speed [simp]: "visible_left (st\<lparr>speedCurve := c\<rparr>) = visible_left st"
  by (simp add: visible_left_def left_curves_def)

section \<open>The units\<close>

lemma units_ok_cong: "members st' = members st \<Longrightarrow> units_ok st' = units_ok st"
  by (simp add: members_def units_ok_def setXTitle_def)

lemma units_ok_update [simp]:
  "units_ok (st\<lparr>shade_zones := a\<rparr>) = units_ok st"
  "units_ok (st\<lparr>smooth := b\<rparr>) = units_ok st"
  "units_ok (st\<lparr>plotTitle := e\<rparr>) = units_ok st"
  "units_ok (st\<lparr>rideItem := f\<rparr>) = units_ok st"
  "units_ok (st\<lparr>wattsArray := g\<rparr>) = units_ok st"
  by (simp_all add: units_ok_def setXTitle_def)

lemma units_ok_setXTitle:
  "units_ok (setXTitle st) = (useMetricUnits st = (unitSetting st = ''Metric''))"
  by (simp add: units_ok_def setXTitle_def)

lemma units_ok_new: "units_ok (AllPlot_new unit q)"
  by (simp add: units_ok_def AllPlot_new_def Let_def setXTitle_def)

lemma units_ok_loaded: "units_ok (loaded item r st) = units_ok st"
  by (simp add: units_ok_def setXTitle_def loaded_sel loaded_frame)

lemma setData_units:
  assumes "setData mx item st = Inr st'" "units_ok st"
  shows "units_ok st'"
proof (cases "ride item")
  case None
  then show ?thesis
    using units_ok_cong [OF setData_None [OF None assms(1)]] assms(2) by simp
next
  case (Some r)
  then show ?thesis
    using units_ok_cong [OF setData_members [OF Some assms(1)]] assms(2)
    by (simp add: units_ok_loaded)
qed

lemma reachable_units: "reachable mx st \<Longrightarrow> units_ok st"
proof (induction rule: reachable.induct)
  case (constructed unit q)
  show ?case by (rule units_ok_new)
next
  case (after_setData st item st')
  then show ?case using setData_units by blast
next
  case (after_recalc st st')
  then show ?case using units_ok_cong recalc_frame by blast
next
  case (after_refreshZoneLabels st st')
  then show ?case using units_ok_cong refreshZoneLabels_frame(1) by blast
next
  case (after_setYMax st)
  then show ?case using units_ok_cong [OF setYMax_frame(1)] by simp
next
  case (after_setXTitle st)
  then show ?case by (simp add: units_ok_setXTitle) (simp add: units_ok_def)
next
  case (after_showPower st ident st')
  then show ?case using units_ok_cong [OF showPower_frame] by simp
next
  case (after_showHr st state st')
  then show ?case using units_ok_cong [OF show_frame(1)] by simp
next
  case (after_showSpeed st state st')
  then show ?case using units_ok_cong [OF show_frame(2)] by simp
next
  case (after_showCad st state st')
  then show ?case using units_ok_cong [OF show_frame(3)] by simp
next
  case (after_showAlt st state st')
  then show ?case using units_ok_cong [OF show_frame(4)] by simp
next
  case (after_setSmoothing st v st')
  then show ?case using units_ok_cong [OF setSmoothing_frame] by simp
next
  case (after_setByDistance st ident st')
  then have "useMetricUnits st = (unitSetting st = ''Metric'')" by (simp add: units_ok_def)
  then show ?case
    using units_ok_cong [OF setByDistance_frame [OF after_setByDistance(2)]]
    by (simp add: units_ok_setXTitle)
qed

lemma join_snoc: "join sep (xs @ [x]) = (if xs = [] then [] else join sep xs @ sep) @ x"
  by (induction sep xs rule: join.induct) simp_all

lemma setYMax_altitude:
  assumes "visible (altCurve st)"
  shows "\<exists>names. yLeftTitle (setYMax mx st) =
                   names @ (if useMetricUnits st then ''Meters'' else ''Ft'')"
proof -
  let ?three = "[(wattsCurve st, ''Watts''), (hrCurve st, ''BPM''), (cadCurve st, ''RPM'')]"
  let ?name = "if useMetricUnits st then ''Meters'' else ''Ft''"
  have "map snd (visible_left st) = map snd (filter (\<lambda>e. visible (fst e)) ?three) @ [?name]"
    using assms by (simp add: visible_left_def left_curves_def)
  then show ?thesis
    unfolding setYMax_left by (simp only: join_snoc) blast
qed

text \<open>Where \<^verbatim>\<open>recalc\<close> goes through to its end, the titles are those that \<^verbatim>\<open>setYMax\<close> sets.\<close>

lemma setYMax_titles_cong:
  assumes "curve_flags a = curve_flags b" "useMetricUnits a = useMetricUnits b"
  shows "yLeftTitle (setYMax mx a) = yLeftTitle (setYMax mx b)"
    and "yRightTitle (setYMax mx a) = yRightTitle (setYMax mx b)"
proof -
  have "map snd (visible_left a) = map snd (visible_left b)"
    using assms by (simp add: visible_left_def left_curves_def curve_flags_def flags_def)
  then show "yLeftTitle (setYMax mx a) = yLeftTitle (setYMax mx b)"
    by (simp only: setYMax_left)
  show "yRightTitle (setYMax mx a) = yRightTitle (setYMax mx b)"
    using assms(2) by (simp add: setYMax_right)
qed

lemma recalc_finish_titles:
  assumes "recalc_finish mx st r l = Inr st'"
  shows "yLeftTitle st' = yLeftTitle (setYMax mx st)"
    and "yRightTitle st' = yRightTitle (setYMax mx st)"
proof -
  from assms obtain st1 ms v where
    a: "refreshZoneLabels (setYMax mx ((set_curves st r l)\<lparr>xBottomScale := v\<rparr>)) = Inr st1"
    and b: "st' = st1\<lparr>d_mrk := ms\<rparr>"
    by (auto simp: recalc_finish_def Let_def split: if_splits sum.splits)
  let ?s = "(set_curves st r l)\<lparr>xBottomScale := v\<rparr>"
  have c: "curve_flags ?s = curve_flags st" "useMetricUnits ?s = useMetricUnits st"
    using set_curves_frame(1,2) [of st r l] by (simp_all add: members_def curve_flags_def)
  show "yLeftTitle st' = yLeftTitle (setYMax mx st)"
    using refreshZoneLabels_frame(11) [OF a] b setYMax_titles_cong(1) [OF c] by simp
  show "yRightTitle st' = yRightTitle (setYMax mx st)"
    using refreshZoneLabels_frame(12) [OF a] b setYMax_titles_cong(2) [OF c] by simp
qed

lemma recalc_titles:
  assumes "recalc mx st = Inr st'" "timeArray st \<noteq> []" "length (timeArray st) = arrayLength st"
    and "last (timeArray st) \<le> 7 * 24 * 60 * 60"
  shows "yLeftTitle st' = yLeftTitle (setYMax mx st)"
    and "yRightTitle st' = yRightTitle (setYMax mx st)"
proof -
  have n: "arrayLength st \<noteq> 0" using assms(2,3) by (cases "timeArray st") auto
  have t: "timeArray st ! (arrayLength st - Suc 0) = last (timeArray st)"
    using assms(2,3) by (simp add: last_conv_nth)
  have c: "\<lceil>last (timeArray st)\<rceil> \<le> 604800" using assms(4) by (simp add: ceiling_le_iff)
  from assms(1) obtain r l where "recalc_finish mx st r l = Inr st'"
    using assms(2,3) n t c
    by (auto simp: recalc_def int_cast_def split: if_splits sum.splits)
  then show "yLeftTitle st' = yLeftTitle (setYMax mx st)"
    and "yRightTitle st' = yRightTitle (setYMax mx st)"
    by (simp_all add: recalc_finish_titles)
qed

lemma short_imperial_plot_sel:
  "arrays_ok short_imperial_plot"
  "timeArray short_imperial_plot = [1, 2, 3]"
  "smooth short_imperial_plot = 30"
  "names_ok short_imperial_plot"
  "unitSetting imperial_plot = ''Imperial''"
  by (simp_all add: short_imperial_plot_def loaded_sel short_ride_def short_item_def
        names_ok_def imperial_plot_def AllPlot_new_sel)

section \<open>The curves\<close>

lemma curves_titles_cong:
  "curve_flags a = curve_flags b \<Longrightarrow> map curveTitle (curves a) = map curveTitle (curves b)"
  by (simp add: curve_flags_def flags_def curves_def)

lemma curves_attached_cong:
  "curve_flags a = curve_flags b \<Longrightarrow> map attached (curves a) = map attached (curves b)"
  by (simp add: curve_flags_def flags_def curves_def)

lemma curves_loaded:
  "map curveTitle (curves (loaded item r st)) = map curveTitle (curves st)"
  "map attached (curves (loaded item r st)) = map (\<lambda>c. c \<and> dataPoints r \<noteq> []) (channels r)"
  by (simp_all add: curves_def channels_def loaded_def load_ride_curves)

lemma setData_curves:
  assumes "setData mx item st = Inr st'"
  shows "map curveTitle (curves st') = map curveTitle (curves st)"
    and "ride item = Some r \<Longrightarrow>
         map attached (curves st') = map (\<lambda>c. c \<and> dataPoints r \<noteq> []) (channels r) \<and>
         plotTitle st' = startTime r"
    and "ride item = None \<Longrightarrow>
         map attached (curves st') = [False, False, False, False, False] \<and>
         plotTitle st' = ''no data''"
proof -
  show "map curveTitle (curves st') = map curveTitle (curves st)"
  proof (cases "ride item")
    case None
    then show ?thesis using assms by (auto simp: setData_def Let_def curves_def)
  next
    case (Some r)
    then have "recalc mx (loaded item r st) = Inr st'" using assms by (simp add: setData_Some)
    from recalc_frame [OF this] show ?thesis
      using curves_titles_cong [of st' "loaded item r st"] by (simp add: curves_loaded)
  qed
  show "map attached (curves st') = map (\<lambda>c. c \<and> dataPoints r \<noteq> []) (channels r) \<and>
        plotTitle st' = startTime r" if s: "ride item = Some r"
  proof -
    have "recalc mx (loaded item r st) = Inr st'" using assms s by (simp add: setData_Some)
    from recalc_frame [OF this] show ?thesis
      using curves_attached_cong [of st' "loaded item r st"]
      by (simp add: curves_loaded members_def loaded_frame)
  qed
  show "map attached (curves st') = [False, False, False, False, False] \<and>
        plotTitle st' = ''no data''" if "ride item = None"
    using assms that by (auto simp: setData_def Let_def curves_def)
qed

lemma curves_new:
  "map curveTitle (curves (AllPlot_new unit q)) =
     [''Power'', ''Heart Rate'', ''Speed'', ''Cadence'', ''Altitude'']"
  by (simp add: curves_def AllPlot_new_def Let_def QwtPlotCurve_new_def)

lemma show_curves:
  "showHr mx state st = Inr st' \<Longrightarrow> map curveTitle (curves st') = map curveTitle (curves st)"
  "showSpeed mx state st = Inr st' \<Longrightarrow> map curveTitle (curves st') = map curveTitle (curves st)"
  "showCad mx state st = Inr st' \<Longrightarrow> map curveTitle (curves st') = map curveTitle (curves st)"
  "showAlt mx state st = Inr st' \<Longrightarrow> map curveTitle (curves st') = map curveTitle (curves st)"
  by (auto simp: showHr_def showSpeed_def showCad_def showAlt_def curves_def setYMax_frame
           split: if_splits)

lemma showPower_curves:
  assumes "showPower mx ident st = Inr st'"
  shows "map curveTitle (curves st') = map curveTitle (curves st)"
proof -
  let ?s = "setYMax mx (st\<lparr>wattsCurve := (wattsCurve st)\<lparr>visible := ident < 2\<rparr>,
                          shade_zones := (ident = 0)\<rparr>)"
  have "recalc mx ?s = Inr st'" using assms by (simp add: showPower_def Let_def)
  from recalc_frame [OF this] have "map curveTitle (curves st') = map curveTitle (curves ?s)"
    using curves_titles_cong by blast
  then show ?thesis by (simp add: curves_def setYMax_frame)
qed

lemma reachable_curves:
  "reachable mx st \<Longrightarrow>
   map curveTitle (curves st) = [''Power'', ''Heart Rate'', ''Speed'', ''Cadence'', ''Altitude'']"
proof (induction rule: reachable.induct)
  case (constructed unit q)
  show ?case by (rule curves_new)
next
  case (after_setData st item st')
  then show ?case using setData_curves(1) by simp
next
  case (after_recalc st st')
  then show ?case using curves_titles_cong [of st' st] recalc_frame by simp
next
  case (after_refreshZoneLabels st st')
  then show ?case using curves_titles_cong [of st' st] refreshZoneLabels_frame(2) by simp
next
  case (after_setYMax st)
  then show ?case using curves_titles_cong [OF setYMax_frame(2)] by simp
next
  case (after_setXTitle st)
  then show ?case using curves_titles_cong [OF setXTitle_frame(2)] by simp
next
  case (after_showPower st ident st')
  then show ?case using showPower_curves by simp
next
  case (after_showHr st state st')
  then show ?case using show_curves(1) by simp
next
  case (after_showSpeed st state st')
  then show ?case using show_curves(2) by simp
next
  case (after_showCad st state st')
  then show ?case using show_curves(3) by simp
next
  case (after_showAlt st state st')
  then show ?case using show_curves(4) by simp
next
  case (after_setSmoothing st v st')
  then have "recalc mx (st\<lparr>smooth := v\<rparr>) = Inr st'" by (simp add: setSmoothing_def)
  from recalc_frame [OF this] curves_titles_cong [of st' "st\<lparr>smooth := v\<rparr>"]
  show ?case using after_setSmoothing.IH by (simp add: curves_def)
next
  case (after_setByDistance st ident st')
  let ?s = "setXTitle (st\<lparr>bydist := (ident = 1)\<rparr>)"
  have "recalc mx ?s = Inr st'" using after_setByDistance(2) by (simp add: setByDistance_def)
  from recalc_frame [OF this] curves_titles_cong [of st' ?s]
  show ?case using after_setByDistance.IH by (simp add: curves_def setXTitle_def)
qed

lemma pulse_plot_sel:
  "arrays_ok (loaded pulse_item pulse_ride metric_plot)"
  "timeArray (loaded pulse_item pulse_ride metric_plot) = [1, 2]"
  "smooth (loaded pulse_item pulse_ride metric_plot) = 30"
  "names_ok (loaded pulse_item pulse_ride metric_plot)"
  "ride pulse_item = Some pulse_ride"
  "ride blank_item = None"
  by (simp_all add: loaded_sel pulse_ride_def pulse_item_def names_ok_def metric_plot_sel
        blank_item_def)

section \<open>The index of a marker in distance mode\<close>

lemma log2_nat_numeral [simp]:
  "log2_nat 0 = 0" "log2_nat (Suc 0) = 0"
  "log2_nat (numeral k) = (if numeral k < (2::nat) then 0 else Suc (log2_nat (numeral k div 2)))"
  by (simp_all add: log2_nat.simps [of 0] log2_nat.simps [of "Suc 0"] log2_nat.simps [of "numeral k"])

lemma to_double_scaled:
  assumes "x \<noteq> 0" "exponent x = e" "- 1022 \<le> e" "e \<le> 52"
  shows "to_double x =
           sgn x * real_of_int (round_even (\<bar>x\<bar> * 2 ^ nat (52 - e))) / 2 ^ nat (52 - e)"
proof -
  have "(2::real) powi (e - 52) = 1 / 2 ^ nat (52 - e)"
    using assms(4) by (simp add: power_int_def field_simps)
  then show ?thesis using assms by (simp add: to_double_def Let_def max_def)
qed

text \<open>The key of bin 31 is \<open>4653719614949513 / 2 ^ 53\<close>, and 60 times the key rounds to \<open>31 + 2 ^ (- 48)\<close>.\<close>

lemma marker_index_31: "marker_index (31 / 60) = 32"
proof -
  have e1: "exponent (31 / 60) = - 1" by (simp add: exponent_def)
  have d1: "to_double (31 / 60) = 4653719614949513 / 2 ^ 53"
    by (subst to_double_scaled [OF _ e1]) (simp_all add: round_even_def Let_def)
  have e2: "exponent (60 * (4653719614949513 / 2 ^ 53)) = 4" by (simp add: exponent_def)
  have d2: "to_double (60 * (4653719614949513 / 2 ^ 53)) = 31 + 1 / 2 ^ 48"
    by (subst to_double_scaled [OF _ e2]) (simp_all add: round_even_def Let_def)
  show ?thesis unfolding marker_index_def d1 d2 by (simp add: ceiling_eq_iff)
qed

lemma marker_index_30: "marker_index (30 / 60) = 30"
proof -
  have e: "exponent (30 / 60) = - 1" by (simp add: exponent_def)
  have d: "to_double (30 / 60) = 1 / 2"
    by (subst to_double_scaled [OF _ e]) (simp_all add: round_even_def Let_def)
  have e': "exponent (60 * (1 / 2)) = 4" by (simp add: exponent_def)
  have d': "to_double (60 * (1 / 2)) = 30"
    by (subst to_double_scaled [OF _ e']) (simp_all add: round_even_def Let_def)
  show ?thesis unfolding marker_index_def d d' by simp
qed

lemma lap_plot_sel:
  "arrays_ok lap_plot"
  "timeArray lap_plot = [0, 31]"
  "arrayLength lap_plot = 2"
  "smooth lap_plot = 30"
  "bydist lap_plot"
  "names_ok lap_plot"
  "ride lap_item = Some lap_ride"
  "samples lap_plot = map (sample_of True all_present) (dataPoints lap_ride)"
  by (simp_all add: lap_plot_def loaded_sel lap_ride_def lap_item_def names_ok_def metric_plot_sel)

section \<open>The background\<close>

lemma draw_zone_band:
  "draw_zone zoneColor yMap rect zone_lows z =
     (if rtop (band yMap rect zone_lows z) \<le> rbottom (band yMap rect zone_lows z)
      then [(band yMap rect zone_lows z, shade zoneColor (length zone_lows) z)] else [])"
  by (simp add: draw_zone_def band_def shade_def Let_def)

lemma concat_map_if:
  "concat (map (\<lambda>z. if P z then [f z] else []) zs) = map f (filter P zs)"
  by (induction zs) simp_all

lemma draw_bands:
  assumes "rideItem st = Some item" "zones item = Some zs" "0 \<le> zoneRange item" "shadeZones st"
  shows "draw zoneColor yMap rect st =
           map (\<lambda>z. (band yMap rect (getZoneLows zs (zoneRange item)) z,
                      shade zoneColor (length (getZoneLows zs (zoneRange item))) z))
             (filter (\<lambda>z. rtop (band yMap rect (getZoneLows zs (zoneRange item)) z)
                           \<le> rbottom (band yMap rect (getZoneLows zs (zoneRange item)) z))
                [0..<length (getZoneLows zs (zoneRange item))])"
proof -
  define lows where "lows = getZoneLows zs (zoneRange item)"
  have f: "draw_zone zoneColor yMap rect lows =
             (\<lambda>z. if rtop (band yMap rect lows z) \<le> rbottom (band yMap rect lows z)
                   then [(band yMap rect lows z, shade zoneColor (length lows) z)] else [])"
    by (rule ext) (rule draw_zone_band)
  have "draw zoneColor yMap rect st =
          concat (map (draw_zone zoneColor yMap rect lows) [0..<length lows])"
    using assms by (simp add: draw_def Let_def lows_def)
  then have "draw zoneColor yMap rect st =
          map (\<lambda>z. (band yMap rect lows z, shade zoneColor (length lows) z))
            (filter (\<lambda>z. rtop (band yMap rect lows z) \<le> rbottom (band yMap rect lows z))
               [0..<length lows])"
    by (simp only: f concat_map_if)
  then show ?thesis by (simp only: lows_def)
qed

lemma draw_none: "\<not> shadeZones st \<Longrightarrow> draw zoneColor yMap rect st = []"
  by (simp add: draw_def split: option.splits)

lemma shade_zones_kept:
  assumes "setData mx item st = Inr st' \<or> recalc mx st = Inr st' \<or>
           showHr mx n st = Inr st' \<or> showSpeed mx n st = Inr st' \<or>
           showCad mx n st = Inr st' \<or> showAlt mx n st = Inr st' \<or>
           setSmoothing mx n st = Inr st' \<or> setByDistance mx n st = Inr st'"
  shows "shade_zones st' = shade_zones st"
proof -
  have c: "shade_zones a = shade_zones b" if "members a = members b" for a b
    using that by (simp add: members_def)
  have 1: "shade_zones st' = shade_zones st" if s: "setData mx item st = Inr st'"
  proof (cases "ride item")
    case None
    then show ?thesis using c [OF setData_None [OF None s]] by simp
  next
    case (Some r)
    then show ?thesis using c [OF setData_members [OF Some s]] by (simp add: loaded_frame)
  qed
  have 2: "shade_zones st' = shade_zones st" if "recalc mx st = Inr st'"
    using c [of st' st] recalc_frame [OF that] by simp
  have 3: "shade_zones st' = shade_zones st" if "showHr mx n st = Inr st'"
    using c [OF show_frame(1) [OF that]] .
  have 4: "shade_zones st' = shade_zones st" if "showSpeed mx n st = Inr st'"
    using c [OF show_frame(2) [OF that]] .
  have 5: "shade_zones st' = shade_zones st" if "showCad mx n st = Inr st'"
    using c [OF show_frame(3) [OF that]] .
  have 6: "shade_zones st' = shade_zones st" if "showAlt mx n st = Inr st'"
    using c [OF show_frame(4) [OF that]] .
  have 7: "shade_zones st' = shade_zones st" if "setSmoothing mx n st = Inr st'"
    using c [OF setSmoothing_frame [OF that]] by simp
  have 8: "shade_zones st' = shade_zones st" if "setByDistance mx n st = Inr st'"
    using c [OF setByDistance_frame [OF that]] by (simp add: setXTitle_def)
  from assms show ?thesis
    by (elim disjE) (rule 1 2 3 4 5 6 7 8, assumption)+
qed

lemma zoned_plot_sel:
  "rideItem zoned_plot = Some zoned_item"
  "zones zoned_item = Some example_zones"
  "zoneRange zoned_item = 0"
  "getZoneLows example_zones 0 = [0, 150, 300]"
  "shadeZones zoned_plot"
proof -
  show "rideItem zoned_plot = Some zoned_item"
    by (simp add: zoned_plot_def loaded_sel)
  show "zones zoned_item = Some example_zones" "zoneRange zoned_item = 0"
    "getZoneLows example_zones 0 = [0, 150, 300]"
    by (simp_all add: zoned_item_def example_zones_def)
  have "wattsArray (loaded zoned_item short_ride metric_plot) \<noteq> []"
    by (simp add: loaded_def load_ride_arrays short_ride_def all_present_def)
  then show "shadeZones zoned_plot" by (simp add: shadeZones_def zoned_plot_def)
qed


lemma zoned_plot_draw:
  "draw example_colour example_yMap example_rect zoned_plot =
     [(\<lparr>rleft = 0, rtop = 50, rright = 400, rbottom = 200\<rparr>,
       \<lparr>hue = 0, saturation = 63, colValue = 255\<rparr>),
      (\<lparr>rleft = 0, rtop = - 100, rright = 400, rbottom = 50\<rparr>,
       \<lparr>hue = 60, saturation = 63, colValue = 255\<rparr>)]"
proof -
  have u: "[0..<3] = [0, 1, 2]" by (simp add: eval_nat_numeral upt_rec)
  have z: "0 \<le> zoneRange zoned_item" by (simp add: zoned_plot_sel)
  show ?thesis
    unfolding draw_bands [OF zoned_plot_sel(1,2) z zoned_plot_sel(5)]
    by (simp add: zoned_plot_sel(3,4) u band_def shade_def example_yMap_def example_rect_def
          example_colour_def cdiv_def)
qed

lemma draw_cong:
  "members a = members b \<Longrightarrow> draw zoneColor yMap rect a = draw zoneColor yMap rect b"
proof -
  assume m: "members a = members b"
  then have s: "shadeZones a = shadeZones b" and r: "rideItem a = rideItem b"
    by (simp_all add: shadeZones_def members_def)
  show ?thesis unfolding draw_def s r ..
qed

lemma arrays_ok_cong: "members a = members b \<Longrightarrow> arrays_ok a = arrays_ok b"
  by (simp add: arrays_ok_def members_def)

lemma zoned_loaded_sel:
  "arrays_ok (loaded zoned_item short_ride metric_plot)"
  "timeArray (loaded zoned_item short_ride metric_plot) = [1, 2, 3]"
  "smooth (loaded zoned_item short_ride metric_plot) = 30"
  "names_ok (loaded zoned_item short_ride metric_plot)"
  "ride zoned_item = Some short_ride"
  by (simp_all add: loaded_sel short_ride_def zoned_item_def names_ok_def metric_plot_sel
        example_zones_def)

lemma zoned_run_members: "\<exists>st. zoned_run = Inr st \<and> members st = members zoned_plot"
proof -
  let ?ld = "loaded zoned_item short_ride metric_plot"
  have "\<exists>st1. recalc example_maxY ?ld = Inr st1"
    by (rule recalc_short_total) (simp_all add: zoned_loaded_sel)
  then obtain st1 where s1: "setData example_maxY zoned_item metric_plot = Inr st1"
    by (auto simp: setData_Some [OF zoned_loaded_sel(5)])
  have m1: "members st1 = members ?ld" using setData_members [OF zoned_loaded_sel(5) s1] .
  let ?s = "setYMax example_maxY
              (st1\<lparr>wattsCurve := (wattsCurve st1)\<lparr>visible := True\<rparr>, shade_zones := True\<rparr>)"
  have m2: "members ?s = members zoned_plot"
    using m1 by (simp add: setYMax_frame) (simp add: members_def zoned_plot_def)
  have h: "arrays_ok ?s" "timeArray ?s = [1, 2, 3]" "smooth ?s = 30" "names_ok ?s"
  proof -
    show "arrays_ok ?s"
      using arrays_ok_cong [OF m2] zoned_loaded_sel(1)
      by (simp add: zoned_plot_def arrays_ok_def)
    show "timeArray ?s = [1, 2, 3]" "smooth ?s = 30"
      using m2 zoned_loaded_sel(2,3) by (simp_all add: members_def zoned_plot_def)
    have "rideItem ?s = rideItem ?ld" using m2 by (simp add: members_def zoned_plot_def)
    from names_ok_cong [OF this] show "names_ok ?s" using zoned_loaded_sel(4) by simp
  qed
  have "\<exists>st2. recalc example_maxY ?s = Inr st2"
    by (rule recalc_short_total) (simp_all add: h)
  then obtain st2 where s2: "recalc example_maxY ?s = Inr st2" ..
  then have "showPower example_maxY 0 st1 = Inr st2" by (simp add: showPower_def Let_def)
  moreover have "members st2 = members zoned_plot" using recalc_frame [OF s2] m2 by simp
  ultimately show ?thesis using s1 by (simp add: zoned_run_def)
qed

section \<open>The claims\<close>

text \<open>
  C1. For a ride whose samples are sorted by time, with a last time stamp of at most
  \<open>7 * 24 * 60 * 60\<close> seconds, and a smoothing window \<open>smooth \<ge> 1\<close>: for every bin
  \<open>secs\<close> with \<open>smooth \<le> secs \<le> ceil(last time stamp)\<close>, \<^verbatim>\<open>recalc\<close> completes its two loops
  and the smoothed watts, heart rate, speed and cadence of the bin are the unweighted
  arithmetic means over the samples with \<open>secs - smooth \<le> t \<le> secs\<close> (0 when there is none;
  a channel that the ride does not have counts as 0 in every sample). The smoother is causal:
  the window is a part of \<open>past st secs\<close>, the samples with \<open>t \<le> secs\<close>. The vectors of the
  result \<open>l\<close> are the ones that \<^verbatim>\<open>recalc\<close> goes on to plot.
\<close>

theorem recalc_moving_average:
  assumes "arrays_ok st" and "sorted (timeArray st)" and "timeArray st \<noteq> []"
    and "last (timeArray st) \<le> 7 * 24 * 60 * 60"
    and "1 \<le> smooth st" and "smooth st \<le> secs" and "secs \<le> \<lceil>last (timeArray st)\<rceil>"
  shows "\<exists>l. smoothing st \<lceil>last (timeArray st)\<rceil> = Inr l \<and>
             recalc maxYValue st = recalc_finish maxYValue st \<lceil>last (timeArray st)\<rceil> l \<and>
             smoothWatts l ! nat secs = mean (map dp_watts (window st secs)) \<and>
             smoothHr l ! nat secs = mean (map dp_hr (window st secs)) \<and>
             smoothSpeed l ! nat secs = mean (map dp_speed (window st secs)) \<and>
             smoothCad l ! nat secs = mean (map dp_cad (window st secs)) \<and>
             window st secs =
               filter (\<lambda>p. real_of_int (secs - smooth st) \<le> dp_time p) (past st secs)"
proof -
  let ?r = "\<lceil>last (timeArray st)\<rceil>"
  have len: "length (timeArray st) = arrayLength st" using assms(1) by (simp add: arrays_ok_def)
  have r: "1 \<le> ?r" using assms(5-7) by linarith
  obtain l where l: "smoothing st ?r = Inr l" "bins_done st (smooth st) (max (smooth st) (?r + 1)) l"
    using smoothing_bins [OF assms(2) len assms(5), of ?r] r by auto
  have "recalc maxYValue st = recalc_finish maxYValue st ?r l"
    using recalc_smoothing [OF assms(3) len _ assms(4)] r l(1) by simp
  moreover have "smooth st \<le> secs \<and> secs < max (smooth st) (?r + 1)" using assms(6,7) by simp
  ultimately show ?thesis
    using l window_past [of st secs] unfolding bins_done_def by blast
qed

theorem recalc_moving_average_witness:
  "arrays_ok (climb_plot 2) \<and> sorted (timeArray (climb_plot 2)) \<and> timeArray (climb_plot 2) \<noteq> [] \<and>
   last (timeArray (climb_plot 2)) \<le> 7 * 24 * 60 * 60 \<and> 1 \<le> smooth (climb_plot 2) \<and>
   smooth (climb_plot 2) \<le> 2 \<and> 2 \<le> \<lceil>last (timeArray (climb_plot 2))\<rceil> \<and>
   (\<exists>l. smoothing (climb_plot 2) 6 = Inr l \<and>
        recalc example_maxY (climb_plot 2) = recalc_finish example_maxY (climb_plot 2) 6 l \<and>
        smoothWatts l ! 2 = 200 \<and> smoothHr l ! 2 = 122 \<and> smoothSpeed l ! 2 = 22 \<and>
        smoothCad l ! 2 = 82)"
proof -
  let ?st = "climb_plot 2"
  have h: "arrays_ok ?st" "sorted (timeArray ?st)" "timeArray ?st \<noteq> []"
    "last (timeArray ?st) \<le> 7 * 24 * 60 * 60" "1 \<le> smooth ?st"
    "smooth ?st \<le> 2" "2 \<le> \<lceil>last (timeArray ?st)\<rceil>"
    by (simp_all add: climb_plot_sel)
  have c: "\<lceil>last (timeArray ?st)\<rceil> = 6" by (simp add: climb_plot_sel ceiling_eq_iff)
  have w: "window ?st 2 = map (sample_of True all_present) (take 3 (dataPoints climb_ride))"
    by (simp add: window_def climb_plot_sel climb_ride_def sample_of_def)
  have m: "mean (map dp_watts (window ?st 2)) = 200"
    "mean (map dp_hr (window ?st 2)) = 122"
    "mean (map dp_speed (window ?st 2)) = 22"
    "mean (map dp_cad (window ?st 2)) = 82"
    by (simp_all add: w climb_ride_def sample_of_def all_present_def mean_def max_dbl_def)
  from recalc_moving_average [OF h, of example_maxY] obtain l where
    "smoothing ?st \<lceil>last (timeArray ?st)\<rceil> = Inr l \<and>
     recalc example_maxY ?st = recalc_finish example_maxY ?st \<lceil>last (timeArray ?st)\<rceil> l \<and>
     smoothWatts l ! nat 2 = mean (map dp_watts (window ?st 2)) \<and>
     smoothHr l ! nat 2 = mean (map dp_hr (window ?st 2)) \<and>
     smoothSpeed l ! nat 2 = mean (map dp_speed (window ?st 2)) \<and>
     smoothCad l ! nat 2 = mean (map dp_cad (window ?st 2)) \<and>
     window ?st 2 = filter (\<lambda>p. real_of_int (2 - smooth ?st) \<le> dp_time p) (past ?st 2)" ..
  then have "smoothing ?st 6 = Inr l \<and>
        recalc example_maxY ?st = recalc_finish example_maxY ?st 6 l \<and>
        smoothWatts l ! 2 = 200 \<and> smoothHr l ! 2 = 122 \<and> smoothSpeed l ! 2 = 22 \<and>
        smoothCad l ! 2 = 82"
    by (simp add: c m)
  then show ?thesis using h by (intro conjI exI [of _ l]) simp_all
qed

text \<open>
  C2. The ride of three seconds under the window of 30 seconds of a new plot. The first
  loop stops one bin short (\<^verbatim>\<open>secs < rideTimeSecs\<close>) and the main loop does not run, so the
  last bin keeps the x-value 0 instead of 3/60, and the x-axis is scaled from 0 to 0, by
  time as well as by distance, where the ride covers 0.03 km.
\<close>

theorem recalc_short_ride:
  "(\<exists>st'. setData example_maxY short_item metric_plot = Inr st' \<and>
          timeArray st' = [1, 2, 3] \<and> smooth st' = 30 \<and>
          distanceArray st' = [1 / 100, 2 / 100, 3 / 100] \<and>
          xData (wattsCurve st') = [0, 1 / 60, 2 / 60, 0] \<and> xBottomScale st' = (0, 0)) \<and>
   (\<exists>st'. setData example_maxY short_item (metric_plot\<lparr>bydist := True\<rparr>) = Inr st' \<and>
          timeArray st' = [1, 2, 3] \<and> smooth st' = 30 \<and>
          distanceArray st' = [1 / 100, 2 / 100, 3 / 100] \<and>
          xData (wattsCurve st') = [0, 0, 0, 0] \<and> xBottomScale st' = (0, 0))"
proof -
  have main: "\<exists>st'. recalc example_maxY (short_plot bd) = Inr st' \<and>
      timeArray st' = [1, 2, 3] \<and> smooth st' = 30 \<and>
      distanceArray st' = [1 / 100, 2 / 100, 3 / 100] \<and>
      xData (wattsCurve st') = (if bd then [0, 0, 0, 0] else [0, 1 / 60, 2 / 60, 0]) \<and>
      xBottomScale st' = (0, 0)" for bd
  proof -
    let ?st = "short_plot bd"
    have c: "\<lceil>last (timeArray ?st)\<rceil> = 3" by (simp add: short_plot_sel)
    obtain l where l: "smoothing ?st 3 = Inr l" "totalDist l = 0" "interList l = []"
      "smoothTime l = map (\<lambda>k. real k / 60) [0..<nat 3] @ [0]"
      "smoothDistance l = replicate (nat (3 + 1)) 0"
      using smoothing_short_ride [of 3 ?st] by (auto simp: short_plot_sel)
    have t: "smoothTime l = [0, 1 / 60, 2 / 60, 0]"
    proof -
      have "[0..<nat 3] = [0, 1, 2]" by (simp add: eval_nat_numeral upt_rec)
      then show ?thesis by (simp add: l(4))
    qed
    have d: "smoothDistance l = [0, 0, 0, 0]"
      by (simp add: l(5) eval_nat_numeral)
    have r: "recalc example_maxY ?st = recalc_finish example_maxY ?st 3 l"
      using recalc_smoothing [of ?st example_maxY] l(1) by (simp add: short_plot_sel)
    have m: "new_markers (bydist ?st) (smoothDistance l) (interList l) = Inr []"
      by (simp add: l(3))
    obtain st' where st': "recalc_finish example_maxY ?st 3 l = Inr st'"
      using recalc_finish_Inr [OF _ short_plot_sel2(3) m, of 3 example_maxY] by (auto simp: t)
    note s = recalc_finish_sel [OF st']
    have f: "members st' = members ?st" using recalc_finish_frame [OF st'] by simp
    have "xData (wattsCurve st') = (if bd then [0, 0, 0, 0] else [0, 1 / 60, 2 / 60, 0])"
      by (simp add: s(1) set_curves_sel short_plot_sel short_plot_sel2 t d)
    moreover have "xBottomScale st' = (0, 0)"
      by (simp add: s(6) short_plot_sel l(2) t)
    moreover have "timeArray st' = [1, 2, 3]" "smooth st' = 30"
      "distanceArray st' = [1 / 100, 2 / 100, 3 / 100]"
      using f by (simp_all add: members_def short_plot_sel short_plot_sel2)
    ultimately show ?thesis using r st' by simp
  qed
  have "setData example_maxY short_item metric_plot = recalc example_maxY (short_plot False)"
    by (simp add: setData_Some [OF short_plot_sel(7)] short_plot_def metric_plot_def
          AllPlot_new_def raw_plot_def setXTitle_def Let_def)
  moreover have "setData example_maxY short_item (metric_plot\<lparr>bydist := True\<rparr>) =
                 recalc example_maxY (short_plot True)"
    by (simp add: setData_Some [OF short_plot_sel(7)] short_plot_def)
  ultimately show ?thesis using main [of False] main [of True] by simp
qed

text \<open>
  C3, as amended. \<^verbatim>\<open>setYMax\<close> scales the left axis from 0 to \<open>1.1 * m\<close>, where \<open>m\<close> is the
  largest of 0 and the maximal y-values of the visible curves among power, heart rate,
  cadence and altitude; the title of the left axis is the names of the units of those
  visible curves, in this order, with \<open>'' / ''\<close> between them. The speed curve has no part in
  either: the constructor puts it, and no other curve, on the right axis, which is enabled
  if and only if the speed curve is visible.
\<close>

theorem setYMax_axes:
  "yLeftScale (setYMax maxYValue st) =
     (0, Max (set (0 # map (\<lambda>e. maxYValue (fst e)) (visible_left st))) * 11 / 10) \<and>
   yLeftTitle (setYMax maxYValue st) = join '' / '' (map snd (visible_left st)) \<and>
   yRightEnabled (setYMax maxYValue st) = visible (speedCurve st) \<and>
   yLeftScale (setYMax maxYValue (st\<lparr>speedCurve := c\<rparr>)) = yLeftScale (setYMax maxYValue st) \<and>
   yLeftTitle (setYMax maxYValue (st\<lparr>speedCurve := c\<rparr>)) = yLeftTitle (setYMax maxYValue st) \<and>
   map onRightAxis
     [wattsCurve (AllPlot_new unit q), hrCurve (AllPlot_new unit q),
      cadCurve (AllPlot_new unit q), altCurve (AllPlot_new unit q),
      speedCurve (AllPlot_new unit q)] = [False, False, False, False, True]"
proof -
  have "map onRightAxis
     [wattsCurve (AllPlot_new unit q), hrCurve (AllPlot_new unit q),
      cadCurve (AllPlot_new unit q), altCurve (AllPlot_new unit q),
      speedCurve (AllPlot_new unit q)] = [False, False, False, False, True]"
    by (simp add: AllPlot_new_def Let_def QwtPlotCurve_new_def)
  then show ?thesis
    by (simp only: setYMax_left setYMax_right visible_left_speed simp_thms)
qed

text \<open>
  The claim as stated fails where every visible curve has a negative maximum: in a new plot
  the four curves are visible and without data, \<open>example_maxY\<close> gives -1 for each of them,
  and the axis is scaled from 0 to 0, not to \<open>1.1 * (- 1)\<close>. The names in the title are
  set apart by \<open>'' / ''\<close>.
\<close>

theorem setYMax_axes_counterexample:
  "map visible
     [wattsCurve metric_plot, hrCurve metric_plot, cadCurve metric_plot, altCurve metric_plot] =
     [True, True, True, True] \<and>
   map example_maxY
     [wattsCurve metric_plot, hrCurve metric_plot, cadCurve metric_plot, altCurve metric_plot] =
     [- 1, - 1, - 1, - 1] \<and>
   yLeftScale (setYMax example_maxY metric_plot) = (0, 0) \<and>
   yLeftTitle (setYMax example_maxY metric_plot) = ''Watts / BPM / RPM / Meters''"
  by (simp add: metric_plot_def AllPlot_new_def raw_plot_def setXTitle_def Let_def
        QwtPlotCurve_new_def example_maxY_def setYMax_def max_dbl_def add_label_def)

text \<open>
  C4, as amended. For a plot that the program holds and an item with a ride, a call of
  \<^verbatim>\<open>setData\<close> that returns leaves the unit setting as it is and stores, for every sample of
  the ride and in the order of the samples, the larger of 0 and the converted value: the
  value itself under the unit setting \<open>Metric\<close>, and under any other setting the speed and the
  distance times 0.62137119 and the altitude times 3.2808399. The speed and the altitude
  array are empty where the ride does not have the channel. The right axis is titled \<open>KPH\<close>
  resp. \<open>MPH\<close> by \<^verbatim>\<open>setYMax\<close>, the title of the left axis ends with \<open>Meters\<close> resp. \<open>Ft\<close>
  if the altitude curve is visible, and these are the titles after \<^verbatim>\<open>setData\<close> if the ride
  has a sample and ends within seven days; in distance mode the x-axis is titled
  \<open>Distance (km)\<close> resp. \<open>Distance (miles)\<close>.
\<close>

theorem unit_derivation:
  assumes "reachable maxYValue st" and "ride item = Some r"
    and "setData maxYValue item st = Inr st'"
  shows
    "unitSetting st' = unitSetting st \<and>
     speedArray st' =
       (if present_kph (areDataPresent r)
        then map (\<lambda>p. max_dbl 0 (if unitSetting st = ''Metric'' then pt_kph p
                                  else pt_kph p * MILES_PER_KM)) (dataPoints r)
        else []) \<and>
     altArray st' =
       (if present_alt (areDataPresent r)
        then map (\<lambda>p. max_dbl 0 (if unitSetting st = ''Metric'' then pt_alt p
                                  else pt_alt p * FEET_PER_M)) (dataPoints r)
        else []) \<and>
     distanceArray st' =
       map (\<lambda>p. max_dbl 0 (if unitSetting st = ''Metric'' then pt_km p
                            else pt_km p * MILES_PER_KM)) (dataPoints r) \<and>
     yRightTitle (setYMax maxYValue st') =
       (if unitSetting st = ''Metric'' then ''KPH'' else ''MPH'') \<and>
     (visible (altCurve st') \<longrightarrow>
        (\<exists>names. yLeftTitle (setYMax maxYValue st') =
                  names @ (if unitSetting st = ''Metric'' then ''Meters'' else ''Ft''))) \<and>
     (dataPoints r \<noteq> [] \<and> pt_secs (last (dataPoints r)) \<le> 7 * 24 * 60 * 60 \<longrightarrow>
        yRightTitle st' = yRightTitle (setYMax maxYValue st') \<and>
        yLeftTitle st' = yLeftTitle (setYMax maxYValue st')) \<and>
     (bydist st' \<longrightarrow>
        xBottomTitle st' =
          ''Distance '' @ (if unitSetting st = ''Metric'' then ''(km)'' else ''(miles)''))"
proof -
  let ?ld = "loaded item r st"
  have u: "useMetricUnits st = (unitSetting st = ''Metric'')"
    using reachable_units [OF assms(1)] by (simp add: units_ok_def)
  have rc: "recalc maxYValue ?ld = Inr st'" using assms(2,3) by (simp add: setData_Some)
  have m: "members st' = members ?ld" and cf: "curve_flags st' = curve_flags ?ld"
    using recalc_frame [OF rc] by simp_all
  have u': "units_ok st'" using setData_units [OF assms(3) reachable_units [OF assms(1)]] .
  have us: "unitSetting st' = unitSetting st" "useMetricUnits st' = useMetricUnits st"
    using m by (simp_all add: members_def loaded_frame loaded_sel)
  have "speedArray st' = speedArray ?ld" "altArray st' = altArray ?ld"
    "distanceArray st' = distanceArray ?ld"
    using m by (simp_all add: members_def)
  then have arrays: "speedArray st' =
       (if present_kph (areDataPresent r)
        then map (\<lambda>p. max_dbl 0 (if unitSetting st = ''Metric'' then pt_kph p
                                  else pt_kph p * MILES_PER_KM)) (dataPoints r)
        else [])"
     "altArray st' =
       (if present_alt (areDataPresent r)
        then map (\<lambda>p. max_dbl 0 (if unitSetting st = ''Metric'' then pt_alt p
                                  else pt_alt p * FEET_PER_M)) (dataPoints r)
        else [])"
     "distanceArray st' =
       map (\<lambda>p. max_dbl 0 (if unitSetting st = ''Metric'' then pt_km p
                            else pt_km p * MILES_PER_KM)) (dataPoints r)"
    by (simp_all add: loaded_def load_ride_arrays u)
  have right: "yRightTitle (setYMax maxYValue st') =
       (if unitSetting st = ''Metric'' then ''KPH'' else ''MPH'')"
    by (simp add: setYMax_right us u)
  have left: "\<exists>names. yLeftTitle (setYMax maxYValue st') =
                  names @ (if unitSetting st = ''Metric'' then ''Meters'' else ''Ft'')"
    if "visible (altCurve st')"
    using setYMax_altitude [OF that, of maxYValue] by (simp add: us u)
  have fin: "yRightTitle st' = yRightTitle (setYMax maxYValue st') \<and>
        yLeftTitle st' = yLeftTitle (setYMax maxYValue st')"
    if ne: "dataPoints r \<noteq> []" and wk: "pt_secs (last (dataPoints r)) \<le> 7 * 24 * 60 * 60"
  proof -
    have t: "timeArray ?ld \<noteq> []" "length (timeArray ?ld) = arrayLength ?ld"
      "last (timeArray ?ld) \<le> 7 * 24 * 60 * 60"
      using ne wk by (simp_all add: loaded_sel last_map)
    have "useMetricUnits st' = useMetricUnits ?ld" using us by (simp add: loaded_sel)
    from setYMax_titles_cong [OF cf this, of maxYValue] recalc_titles [OF rc t]
    show ?thesis by simp
  qed
  have x: "xBottomTitle st' =
          ''Distance '' @ (if unitSetting st = ''Metric'' then ''(km)'' else ''(miles)'')"
    if "bydist st'"
    using u' that by (simp add: units_ok_def setXTitle_def us)
  show ?thesis using us(1) arrays right left fin x by (intro conjI impI) blast+
qed

theorem unit_derivation_witness:
  "reachable example_maxY imperial_plot \<and> unitSetting imperial_plot = ''Imperial'' \<and>
   map pt_kph (dataPoints short_ride) = [18, 18, 18] \<and>
   map pt_alt (dataPoints short_ride) = [5, 5, 5] \<and>
   map pt_km (dataPoints short_ride) = [1 / 100, 2 / 100, 3 / 100] \<and>
   (\<exists>st'. setData example_maxY short_item imperial_plot = Inr st' \<and>
          speedArray st' = [18 * MILES_PER_KM, 18 * MILES_PER_KM, 18 * MILES_PER_KM] \<and>
          altArray st' = [5 * FEET_PER_M, 5 * FEET_PER_M, 5 * FEET_PER_M] \<and>
          distanceArray st' = [MILES_PER_KM / 100, 2 * MILES_PER_KM / 100, 3 * MILES_PER_KM / 100] \<and>
          yRightTitle st' = ''MPH'')"
proof -
  have r: "reachable example_maxY imperial_plot"
    unfolding imperial_plot_def by (rule reachable.constructed)
  have "\<exists>st'. recalc example_maxY short_imperial_plot = Inr st'"
    by (rule recalc_short_total) (simp_all add: short_imperial_plot_sel)
  then obtain st' where s: "recalc example_maxY short_imperial_plot = Inr st'" ..
  then have sd: "setData example_maxY short_item imperial_plot = Inr st'"
    by (simp add: setData_Some [OF short_plot_sel(7)] short_imperial_plot_def)
  note f = unit_derivation [OF r short_plot_sel(7) sd]
  have d: "dataPoints short_ride \<noteq> []" "pt_secs (last (dataPoints short_ride)) \<le> 7 * 24 * 60 * 60"
    by (simp_all add: short_ride_def)
  have "speedArray st' = [18 * MILES_PER_KM, 18 * MILES_PER_KM, 18 * MILES_PER_KM]"
    "altArray st' = [5 * FEET_PER_M, 5 * FEET_PER_M, 5 * FEET_PER_M]"
    "distanceArray st' = [MILES_PER_KM / 100, 2 * MILES_PER_KM / 100, 3 * MILES_PER_KM / 100]"
    "yRightTitle st' = ''MPH''"
    using f d
    by (simp_all add: short_imperial_plot_sel short_ride_def all_present_def max_dbl_def
          MILES_PER_KM_def FEET_PER_M_def)
  moreover have "map pt_kph (dataPoints short_ride) = [18, 18, 18]"
   "map pt_alt (dataPoints short_ride) = [5, 5, 5]"
   "map pt_km (dataPoints short_ride) = [1 / 100, 2 / 100, 3 / 100]"
    by (simp_all add: short_ride_def)
  ultimately show ?thesis using r sd short_imperial_plot_sel(5) by simp
qed

text \<open>
  The claim as stated fails for a value below 0: under the unit setting \<open>Metric\<close>, the
  altitudes of -10 m and -12 m of the ride below sea level are stored as 0.
\<close>

theorem unit_derivation_counterexample:
  "unitSetting metric_plot = ''Metric'' \<and>
   map pt_alt (dataPoints valley_ride) = [- 10, - 12] \<and>
   map_sum id altArray (setData example_maxY valley_item metric_plot) = Inr [0, 0]"
proof -
  obtain st' where s: "recalc example_maxY (valley_plot ''Metric'') = Inr st'"
    using valley_recalc by blast
  then have sd: "setData example_maxY valley_item metric_plot = Inr st'"
    by (simp add: setData_Some [OF valley_plot_sel(5)] valley_plot_def metric_plot_def)
  have "members st' = members (valley_plot ''Metric'')" using recalc_frame [OF s] by simp
  then have "altArray st' = [0, 0]" by (simp add: members_def valley_plot_arrays)
  then show ?thesis by (simp add: sd metric_plot_sel valley_ride_def)
qed

text \<open>
  C5, as amended. \<^verbatim>\<open>recalc\<close> reads the interval numbers as a stream that starts after
  interval 0: a transition is a sample whose interval number differs from the one before
  it, or a first sample whose interval number is not 0. In time mode, for a ride with sorted
  samples, a last time stamp of at most \<open>7 * 24 * 60 * 60\<close> seconds,
  \<open>1 \<le> smooth \<le> ceil(last time stamp)\<close>, zone names that are as many as the zone lows (the
  assertion of the constructor of a zone label, which \<^verbatim>\<open>recalc\<close> reaches before it makes the
  markers), and no two transitions taken in the same bin, \<^verbatim>\<open>recalc\<close> completes and the
  markers are, in order, one for every transition: labelled with the new interval number
  and set at \<open>secs / 60\<close> for the bin \<open>secs = max smooth (ceil t)\<close> in which the sample is taken.
  There is no other marker.
\<close>

theorem interval_markers:
  assumes "arrays_ok st" and "sorted (timeArray st)" and "timeArray st \<noteq> []"
    and "last (timeArray st) \<le> 7 * 24 * 60 * 60"
    and "1 \<le> smooth st" and "smooth st \<le> \<lceil>last (timeArray st)\<rceil>"
    and "names_ok st"
    and "\<not> bydist st"
    and "distinct (map (bin_of st) (transitions 0 (samples st)))"
  shows "\<exists>st'. recalc maxYValue st = Inr st' \<and>
           d_mrk st' = map (interval_marker st) (transitions 0 (samples st))"
  using assms by (rule recalc_markers)

theorem interval_markers_witness:
  "arrays_ok (climb_plot 2) \<and> sorted (timeArray (climb_plot 2)) \<and> timeArray (climb_plot 2) \<noteq> [] \<and>
   last (timeArray (climb_plot 2)) \<le> 7 * 24 * 60 * 60 \<and> 1 \<le> smooth (climb_plot 2) \<and>
   smooth (climb_plot 2) \<le> \<lceil>last (timeArray (climb_plot 2))\<rceil> \<and> names_ok (climb_plot 2) \<and>
   \<not> bydist (climb_plot 2) \<and>
   distinct (map (bin_of (climb_plot 2)) (transitions 0 (samples (climb_plot 2)))) \<and>
   map dp_inter (samples (climb_plot 2)) = [1, 1, 1, 2] \<and>
   (\<exists>st'. recalc example_maxY (climb_plot 2) = Inr st' \<and>
      d_mrk st' = [\<lparr>xValue = 2 / 60, yValue = 0, mrkLabel = 1\<rparr>,
                   \<lparr>xValue = 6 / 60, yValue = 0, mrkLabel = 2\<rparr>])"
proof -
  let ?st = "climb_plot 2"
  note h = climb_plot_hyps
  have i: "map dp_inter (samples ?st) = [1, 1, 1, 2]"
    by (simp add: climb_plot_sel climb_ride_def sample_of_def)
  from interval_markers [OF h, of example_maxY] obtain st' where
    "recalc example_maxY ?st = Inr st' \<and>
       d_mrk st' = map (interval_marker ?st) (transitions 0 (samples ?st))" ..
  then have "recalc example_maxY ?st = Inr st' \<and>
      d_mrk st' = [\<lparr>xValue = 2 / 60, yValue = 0, mrkLabel = 1\<rparr>,
                   \<lparr>xValue = 6 / 60, yValue = 0, mrkLabel = 2\<rparr>]"
    by (simp add: climb_plot_markers)
  then have "\<exists>st'. recalc example_maxY ?st = Inr st' \<and>
      d_mrk st' = [\<lparr>xValue = 2 / 60, yValue = 0, mrkLabel = 1\<rparr>,
                   \<lparr>xValue = 6 / 60, yValue = 0, mrkLabel = 2\<rparr>]" ..
  then show ?thesis using h i by (intro conjI)
qed

text \<open>
  The claim as stated fails for a ride that does not start in interval 0. The four samples
  of the ride below are in the intervals 1, 1, 1 and 2: only the last differs from the
  sample before it, and there are two markers, the first of them for the first sample,
  which is taken in bin 2 and has no sample before it.
\<close>

theorem interval_markers_counterexample:
  "map pt_interval (dataPoints climb_ride) = [1, 1, 1, 2] \<and>
   map_sum id d_mrk (setData example_maxY climb_item (metric_plot\<lparr>smooth := 2\<rparr>)) =
     Inr [\<lparr>xValue = 2 / 60, yValue = 0, mrkLabel = 1\<rparr>,
          \<lparr>xValue = 6 / 60, yValue = 0, mrkLabel = 2\<rparr>]"
proof -
  let ?st = "climb_plot 2"
  from recalc_markers [OF climb_plot_hyps, of example_maxY] obtain st' where
    "recalc example_maxY ?st = Inr st' \<and>
       d_mrk st' = map (interval_marker ?st) (transitions 0 (samples ?st))" ..
  then have "recalc example_maxY ?st = Inr st'"
    "d_mrk st' = [\<lparr>xValue = 2 / 60, yValue = 0, mrkLabel = 1\<rparr>,
                  \<lparr>xValue = 6 / 60, yValue = 0, mrkLabel = 2\<rparr>]"
    by (simp_all add: climb_plot_markers)
  moreover have "setData example_maxY climb_item (metric_plot\<lparr>smooth := 2\<rparr>) =
                 recalc example_maxY ?st"
    by (simp add: setData_Some [OF climb_plot_sel2(3)] climb_plot_def)
  ultimately show ?thesis by (simp add: climb_ride_def)
qed

text \<open>
  C6, as amended. The zones are shaded if and only if shading is enabled and there is power
  data. The flag \<^verbatim>\<open>shade_zones\<close> is off in a new plot, \<^verbatim>\<open>showPower\<close> sets it to \<open>id = 0\<close>, and
  the other member functions leave it as it is. Where the zones are shaded and the item has
  zones and a zone range that is not negative, the background fills, in the order of the
  zones, the band of every zone whose band is not upside down (its top row is not below its
  bottom row): the rectangle of the plot from the low value of the zone up to the low value
  of the next zone, for the last zone up to the top of the rectangle, in the colour of the
  zone with a quarter of its saturation. A zone whose band is upside down has no band, and
  nothing is filled where the zones are not shaded.
\<close>

theorem zone_shading:
  "shadeZones st = (shade_zones st \<and> wattsArray st \<noteq> []) \<and>
   \<not> shade_zones (AllPlot_new unit q) \<and>
   (\<forall>st'. showPower maxYValue ident st = Inr st' \<longrightarrow> shade_zones st' = (ident = 0)) \<and>
   (\<forall>st'. setData maxYValue other st = Inr st' \<or> recalc maxYValue st = Inr st' \<or>
          showHr maxYValue n st = Inr st' \<or> showSpeed maxYValue n st = Inr st' \<or>
          showCad maxYValue n st = Inr st' \<or> showAlt maxYValue n st = Inr st' \<or>
          setSmoothing maxYValue n st = Inr st' \<or> setByDistance maxYValue n st = Inr st' \<longrightarrow>
          shade_zones st' = shade_zones st) \<and>
   (\<forall>item zs. rideItem st = Some item \<and> zones item = Some zs \<and> 0 \<le> zoneRange item \<and>
        shadeZones st \<longrightarrow>
        draw zoneColor yMap rect st =
          map (\<lambda>z. (band yMap rect (getZoneLows zs (zoneRange item)) z,
                     shade zoneColor (length (getZoneLows zs (zoneRange item))) z))
            (filter (\<lambda>z. rtop (band yMap rect (getZoneLows zs (zoneRange item)) z)
                          \<le> rbottom (band yMap rect (getZoneLows zs (zoneRange item)) z))
               [0..<length (getZoneLows zs (zoneRange item))])) \<and>
   (\<not> shadeZones st \<longrightarrow> draw zoneColor yMap rect st = [])"
proof (intro conjI allI impI)
  show "shadeZones st = (shade_zones st \<and> wattsArray st \<noteq> [])" by (simp add: shadeZones_def)
  show "\<not> shade_zones (AllPlot_new unit q)" by (simp add: AllPlot_new_sel)
  show "shade_zones st' = (ident = 0)" if "showPower maxYValue ident st = Inr st'" for st'
    using showPower_frame [OF that] by (simp add: members_def)
  show "shade_zones st' = shade_zones st"
    if "setData maxYValue other st = Inr st' \<or> recalc maxYValue st = Inr st' \<or>
        showHr maxYValue n st = Inr st' \<or> showSpeed maxYValue n st = Inr st' \<or>
        showCad maxYValue n st = Inr st' \<or> showAlt maxYValue n st = Inr st' \<or>
        setSmoothing maxYValue n st = Inr st' \<or> setByDistance maxYValue n st = Inr st'" for st'
    using that by (rule shade_zones_kept)
  show "draw zoneColor yMap rect st =
          map (\<lambda>z. (band yMap rect (getZoneLows zs (zoneRange item)) z,
                     shade zoneColor (length (getZoneLows zs (zoneRange item))) z))
            (filter (\<lambda>z. rtop (band yMap rect (getZoneLows zs (zoneRange item)) z)
                          \<le> rbottom (band yMap rect (getZoneLows zs (zoneRange item)) z))
               [0..<length (getZoneLows zs (zoneRange item))])"
    if "rideItem st = Some item \<and> zones item = Some zs \<and> 0 \<le> zoneRange item \<and> shadeZones st"
    for item zs
    using that by (intro draw_bands) simp_all
  show "draw zoneColor yMap rect st = []" if "\<not> shadeZones st"
    using that by (rule draw_none)
qed

theorem zone_shading_witness:
  "(\<exists>st'. showPower example_maxY 0 metric_plot = Inr st' \<and> shade_zones st') \<and>
   (\<exists>st'. setData example_maxY blank_item metric_plot = Inr st' \<and> \<not> shade_zones st') \<and>
   rideItem zoned_plot = Some zoned_item \<and> zones zoned_item = Some example_zones \<and>
   0 \<le> zoneRange zoned_item \<and> shadeZones zoned_plot \<and>
   getZoneLows example_zones (zoneRange zoned_item) = [0, 150, 300] \<and>
   draw example_colour example_yMap example_rect zoned_plot =
     [(\<lparr>rleft = 0, rtop = 50, rright = 400, rbottom = 200\<rparr>,
       \<lparr>hue = 0, saturation = 63, colValue = 255\<rparr>),
      (\<lparr>rleft = 0, rtop = - 100, rright = 400, rbottom = 50\<rparr>,
       \<lparr>hue = 60, saturation = 63, colValue = 255\<rparr>)] \<and>
   \<not> shadeZones metric_plot \<and> draw example_colour example_yMap example_rect metric_plot = []"
proof -
  let ?s = "setYMax example_maxY
              (metric_plot\<lparr>wattsCurve := (wattsCurve metric_plot)\<lparr>visible := True\<rparr>,
                           shade_zones := True\<rparr>)"
  note zs = zone_shading [where zoneColor = example_colour and yMap = example_yMap
      and rect = example_rect and maxYValue = example_maxY and ident = 0 and other = blank_item]
  have "timeArray ?s = []"
    using setYMax_frame(1) [of example_maxY] by (simp add: members_def metric_plot_sel)
  then have p: "showPower example_maxY 0 metric_plot = Inr ?s"
    by (simp add: showPower_def Let_def recalc_def)
  have "shade_zones ?s" using zs [of metric_plot] p by simp
  then have a: "\<exists>st'. showPower example_maxY 0 metric_plot = Inr st' \<and> shade_zones st'"
    using p by simp
  obtain st2 where s2: "setData example_maxY blank_item metric_plot = Inr st2"
    by (simp add: setData_def Let_def blank_item_def)
  have "\<not> shade_zones st2" using zs [of metric_plot] s2 by (simp add: metric_plot_sel)
  then have b: "\<exists>st'. setData example_maxY blank_item metric_plot = Inr st' \<and> \<not> shade_zones st'"
    using s2 by simp
  have n: "\<not> shadeZones metric_plot" by (simp add: shadeZones_def metric_plot_sel)
  then have d0: "draw example_colour example_yMap example_rect metric_plot = []"
    using zs [of metric_plot] by simp
  have u: "[0..<3] = [0, 1, 2]" by (simp add: eval_nat_numeral upt_rec)
  have h: "rideItem zoned_plot = Some zoned_item \<and> zones zoned_item = Some example_zones \<and>
           0 \<le> zoneRange zoned_item \<and> shadeZones zoned_plot"
    by (simp add: zoned_plot_sel)
  have "draw example_colour example_yMap example_rect zoned_plot =
          map (\<lambda>z. (band example_yMap example_rect (getZoneLows example_zones (zoneRange zoned_item)) z,
                     shade example_colour (length (getZoneLows example_zones (zoneRange zoned_item))) z))
            (filter (\<lambda>z. rtop (band example_yMap example_rect (getZoneLows example_zones (zoneRange zoned_item)) z)
                          \<le> rbottom (band example_yMap example_rect (getZoneLows example_zones (zoneRange zoned_item)) z))
               [0..<length (getZoneLows example_zones (zoneRange zoned_item))])"
    using zs [of zoned_plot] h by blast
  then have d: "draw example_colour example_yMap example_rect zoned_plot =
     [(\<lparr>rleft = 0, rtop = 50, rright = 400, rbottom = 200\<rparr>,
       \<lparr>hue = 0, saturation = 63, colValue = 255\<rparr>),
      (\<lparr>rleft = 0, rtop = - 100, rright = 400, rbottom = 50\<rparr>,
       \<lparr>hue = 60, saturation = 63, colValue = 255\<rparr>)]"
    by (simp add: zoned_plot_sel(3,4) u band_def shade_def example_yMap_def example_rect_def
          example_colour_def cdiv_def)
  show ?thesis using a b n d0 d h by (simp add: zoned_plot_sel(3,4))
qed

text \<open>
  The claim as stated fails where the plot ends below the low value of a zone. The plot
  below, made by \<^verbatim>\<open>setData\<close> and \<^verbatim>\<open>showPower(0)\<close>, shows 0 W to 200 W: the band of the
  third zone, from 300 W, would have its bottom at row -100, above the top of the rectangle,
  and is not filled. There are two bands for three zones.
\<close>

theorem zone_shading_counterexample:
  "zones zoned_item = Some example_zones \<and> zoneRange zoned_item = 0 \<and>
   getZoneLows example_zones 0 = [0, 150, 300] \<and>
   map_sum id (map fst \<circ> draw example_colour example_yMap example_rect) zoned_run =
     Inr [\<lparr>rleft = 0, rtop = 50, rright = 400, rbottom = 200\<rparr>,
          \<lparr>rleft = 0, rtop = - 100, rright = 400, rbottom = 50\<rparr>]"
proof -
  obtain st where st: "zoned_run = Inr st" "members st = members zoned_plot"
    using zoned_run_members by blast
  have "draw example_colour example_yMap example_rect st =
        draw example_colour example_yMap example_rect zoned_plot"
    using st(2) by (rule draw_cong)
  then show ?thesis by (simp add: st(1) zoned_plot_sel zoned_plot_draw)
qed

text \<open>
  C7. A plot that the program holds has five curves, titled Power, Heart Rate, Speed,
  Cadence and Altitude. After a call of \<^verbatim>\<open>setData\<close> that returns, for an item with a ride of
  at least one sample, the curves that are attached are exactly those whose channel the
  ride has, and the plot is titled with the start time of the ride; for an item without a
  ride, the five curves are detached and the plot is titled \<open>no data\<close>. A call for an item
  without a ride always returns.
\<close>

theorem setData_curves_attached:
  assumes "reachable maxYValue st" and "setData maxYValue item st = Inr st'"
  shows
    "map curveTitle (curves st') = [''Power'', ''Heart Rate'', ''Speed'', ''Cadence'', ''Altitude''] \<and>
     (\<forall>r. ride item = Some r \<and> dataPoints r \<noteq> [] \<longrightarrow>
        map attached (curves st') = channels r \<and> plotTitle st' = startTime r) \<and>
     (ride item = None \<longrightarrow>
        map attached (curves st') = [False, False, False, False, False] \<and>
        plotTitle st' = ''no data'') \<and>
     (\<forall>other. ride other = None \<longrightarrow> (\<exists>st''. setData maxYValue other st = Inr st''))"
proof -
  have "map curveTitle (curves st') = [''Power'', ''Heart Rate'', ''Speed'', ''Cadence'', ''Altitude'']"
    using setData_curves(1) [OF assms(2)] reachable_curves [OF assms(1)] by simp
  moreover have "\<exists>st''. setData maxYValue other st = Inr st''" if "ride other = None" for other
    using that by (simp add: setData_def Let_def)
  moreover have "map attached (curves st') = channels r \<and> plotTitle st' = startTime r"
    if "ride item = Some r" "dataPoints r \<noteq> []" for r
    using setData_curves(2) [OF assms(2) that(1)] that(2) by (simp add: channels_def)
  ultimately show ?thesis
    using setData_curves(3) [OF assms(2)] by blast
qed

theorem setData_curves_attached_witness:
  "reachable example_maxY metric_plot \<and>
   channels pulse_ride = [False, True, True, False, False] \<and>
   dataPoints pulse_ride \<noteq> [] \<and>
   (\<exists>st'. setData example_maxY pulse_item metric_plot = Inr st' \<and>
          map attached (curves st') = [False, True, True, False, False] \<and>
          plotTitle st' = ''2009-06-06 07:00:00'') \<and>
   (\<exists>st'. setData example_maxY blank_item metric_plot = Inr st' \<and>
          map attached (curves st') = [False, False, False, False, False] \<and>
          plotTitle st' = ''no data'')"
proof -
  have r: "reachable example_maxY metric_plot"
    unfolding metric_plot_def by (rule reachable.constructed)
  have "\<exists>st'. recalc example_maxY (loaded pulse_item pulse_ride metric_plot) = Inr st'"
    by (rule recalc_short_total) (simp_all add: pulse_plot_sel)
  then obtain st1 where s1: "setData example_maxY pulse_item metric_plot = Inr st1"
    by (auto simp: setData_Some [OF pulse_plot_sel(5)])
  have c: "channels pulse_ride = [False, True, True, False, False]"
    "dataPoints pulse_ride \<noteq> []"
    by (simp_all add: channels_def pulse_ride_def)
  have a1: "map attached (curves st1) = [False, True, True, False, False] \<and>
          plotTitle st1 = ''2009-06-06 07:00:00''"
    using setData_curves_attached [OF r s1] pulse_plot_sel(5) c by (simp add: pulse_ride_def)
  obtain st2 where s2: "setData example_maxY blank_item metric_plot = Inr st2"
    using setData_curves_attached [OF r s1] pulse_plot_sel(6) by blast
  have a2: "map attached (curves st2) = [False, False, False, False, False] \<and>
          plotTitle st2 = ''no data''"
    using setData_curves_attached [OF r s2] pulse_plot_sel(6) by simp
  show ?thesis using r c s1 a1 s2 a2 by simp
qed

text \<open>
  C8. A ride whose last time stamp exceeds \<open>7 * 24 * 60 * 60\<close> seconds. \<^verbatim>\<open>recalc\<close> converts
  \<^verbatim>\<open>ceil\<close> of the time stamp to \<^verbatim>\<open>int\<close> before it compares with the limit: at a last time
  stamp of three thousand million seconds the value is not an \<^verbatim>\<open>int\<close>, the conversion is
  undefined, and the guard is not reached with a defined value.
\<close>

theorem recalc_cast_before_guard:
  "setData example_maxY (stamped_item 3000000000) metric_plot = Inl CastOutOfRange"
proof -
  have "recalc example_maxY (stamped_plot 3000000000) = Inl CastOutOfRange"
    by (rule recalc_cast_fault) (simp_all add: stamped_plot_sel)
  then show ?thesis
    by (simp add: setData_Some [OF stamped_plot_sel(5)] stamped_plot_def)
qed

text \<open>
  C9. Whatever plot the program holds, after a call of \<^verbatim>\<open>setData\<close> that returns, no value of
  the watts, heart-rate, speed, cadence, altitude and distance arrays is negative,
  whatever the signs of the samples of the ride.
\<close>

theorem setData_arrays_nonnegative:
  assumes "reachable maxYValue st" and "setData maxYValue item st = Inr st'"
  shows "nonneg_arrays st'"
  using assms(2) reachable_nonneg [OF assms(1)] by (rule setData_nonneg)

theorem setData_arrays_nonnegative_witness:
  "reachable example_maxY metric_plot \<and>
   map pt_watts (dataPoints valley_ride) = [- 5, 200] \<and>
   map pt_alt (dataPoints valley_ride) = [- 10, - 12] \<and>
   (\<exists>st'. setData example_maxY valley_item metric_plot = Inr st' \<and>
          wattsArray st' = [0, 200] \<and> altArray st' = [0, 0] \<and> nonneg_arrays st')"
proof -
  have r: "reachable example_maxY metric_plot"
    unfolding metric_plot_def by (rule reachable.constructed)
  obtain st' where s: "recalc example_maxY (valley_plot ''Metric'') = Inr st'"
    using valley_recalc by blast
  then have sd: "setData example_maxY valley_item metric_plot = Inr st'"
    by (simp add: setData_Some [OF valley_plot_sel(5)] valley_plot_def metric_plot_def)
  have "members st' = members (valley_plot ''Metric'')" using recalc_frame [OF s] by simp
  then have "wattsArray st' = [0, 200]" "altArray st' = [0, 0]"
    by (simp_all add: members_def valley_plot_arrays)
  moreover have "nonneg_arrays st'" using setData_arrays_nonnegative [OF r sd] .
  moreover have "map pt_watts (dataPoints valley_ride) = [- 5, 200]"
    "map pt_alt (dataPoints valley_ride) = [- 10, - 12]"
    by (simp_all add: valley_ride_def)
  ultimately show ?thesis using r sd by simp
qed

text \<open>
  C10. With \<open>smooth \<ge> 1\<close> the loops never read the smoothed altitude out of bounds, whatever the
  ride: every bin that the main loop visits has \<open>secs \<ge> smooth \<ge> 1\<close>, so the index \<open>secs - 1\<close>
  of the carried-forward read lies in the vector (the loops even complete without any fault
  when the vector size \<open>r + 1\<close> is not negative). For sorted samples the altitude of a bin whose
  window is empty is the altitude of the bin before it. With \<open>smooth = 0\<close> and a first time
  stamp above 0 the first bin reads index -1; with \<open>smooth < 0\<close> already the write of the first
  bin, at the negative index \<open>smooth\<close>, is out of bounds, before the read is reached.
\<close>

theorem altitude_read_in_bounds:
  "(1 \<le> smooth st \<longrightarrow>
      (\<forall>k. smoothing st r \<noteq> Inl (ReadOutOfBounds k)) \<and>
      (- 1 \<le> r \<longrightarrow> (\<exists>l. smoothing st r = Inr l))) \<and>
   (1 \<le> smooth st \<and> sorted (timeArray st) \<and> length (timeArray st) = arrayLength st \<and>
    smooth st \<le> secs \<and> secs \<le> r \<longrightarrow>
      (\<exists>l. smoothing st r = Inr l \<and> 0 \<le> secs - 1 \<and> nat (secs - 1) < length (smoothAltitude l) \<and>
           smoothAltitude l ! nat secs =
             (if window st secs = [] then smoothAltitude l ! nat (secs - 1)
              else mean (map dp_alt (window st secs))))) \<and>
   (smooth st = 0 \<and> 0 < arrayLength st \<and> 0 < timeArray st ! 0 \<and> 0 \<le> r \<longrightarrow>
      smoothing st r = Inl (ReadOutOfBounds (- 1))) \<and>
   (smooth st < 0 \<and> 0 < arrayLength st \<and> 0 < timeArray st ! 0 \<and> 0 \<le> r \<longrightarrow>
      smoothing st r = Inl (WriteOutOfBounds (smooth st)))"
proof (intro conjI impI allI)
  fix k assume s: "1 \<le> smooth st"
  show "smoothing st r \<noteq> Inl (ReadOutOfBounds k)"
  proof (cases "- 1 \<le> r")
    case True
    then show ?thesis using smoothing_total [OF s True] by auto
  next
    case False
    then show ?thesis by (simp add: smoothing_def)
  qed
next
  assume "1 \<le> smooth st" "- 1 \<le> r"
  then show "\<exists>l. smoothing st r = Inr l" using smoothing_total by blast
next
  assume a: "1 \<le> smooth st \<and> sorted (timeArray st) \<and> length (timeArray st) = arrayLength st \<and>
    smooth st \<le> secs \<and> secs \<le> r"
  then have r: "- 1 \<le> r" by simp
  from a smoothing_bins [of st r] r obtain l where
    l: "smoothing st r = Inr l" "bins_done st (smooth st) (max (smooth st) (r + 1)) l"
      "vec_len (nat (r + 1)) l" by blast
  have "smooth st \<le> secs \<and> secs < max (smooth st) (r + 1)" using a by simp
  then have "smoothAltitude l ! nat secs = altitude_value st secs (smoothAltitude l)"
    using l(2) unfolding bins_done_def by blast
  moreover have "nat (secs - 1) < length (smoothAltitude l)"
    using l(3) a by (simp add: vec_len_def)
  ultimately show "\<exists>l. smoothing st r = Inr l \<and> 0 \<le> secs - 1 \<and>
      nat (secs - 1) < length (smoothAltitude l) \<and>
      smoothAltitude l ! nat secs =
        (if window st secs = [] then smoothAltitude l ! nat (secs - 1)
         else mean (map dp_alt (window st secs)))"
    using l(1) a by (intro exI [of _ l]) (simp add: altitude_value_def)
next
  assume "smooth st = 0 \<and> 0 < arrayLength st \<and> 0 < timeArray st ! 0 \<and> 0 \<le> r"
  then show "smoothing st r = Inl (ReadOutOfBounds (- 1))"
    using smoothing_nonpositive_window [of st r] by simp
next
  assume "smooth st < 0 \<and> 0 < arrayLength st \<and> 0 < timeArray st ! 0 \<and> 0 \<le> r"
  then show "smoothing st r = Inl (WriteOutOfBounds (smooth st))"
    using smoothing_nonpositive_window [of st r] by simp
qed

theorem altitude_read_in_bounds_witness:
  "1 \<le> smooth (climb_plot 2) \<and> sorted (timeArray (climb_plot 2)) \<and>
   length (timeArray (climb_plot 2)) = arrayLength (climb_plot 2) \<and>
   smooth (climb_plot 2) \<le> 4 \<and> window (climb_plot 2) 4 = [] \<and>
   (\<exists>l. smoothing (climb_plot 2) 6 = Inr l \<and> smoothAltitude l ! 4 = smoothAltitude l ! 3) \<and>
   smooth (climb_plot 0) = 0 \<and> 0 < arrayLength (climb_plot 0) \<and> 0 < timeArray (climb_plot 0) ! 0 \<and>
   smoothing (climb_plot 0) 6 = Inl (ReadOutOfBounds (- 1)) \<and>
   smooth (climb_plot (- 3)) < 0 \<and> 0 < arrayLength (climb_plot (- 3)) \<and>
   0 < timeArray (climb_plot (- 3)) ! 0 \<and>
   smoothing (climb_plot (- 3)) 6 = Inl (WriteOutOfBounds (- 3))"
proof -
  have w: "window (climb_plot 2) 4 = []"
    by (simp add: window_def climb_plot_sel climb_ride_def sample_of_def)
  have h: "1 \<le> smooth (climb_plot 2) \<and> sorted (timeArray (climb_plot 2)) \<and>
    length (timeArray (climb_plot 2)) = arrayLength (climb_plot 2) \<and>
    smooth (climb_plot 2) \<le> 4 \<and> (4::int) \<le> 6"
    by (simp add: climb_plot_sel)
  have h0: "smooth (climb_plot 0) = 0 \<and> 0 < arrayLength (climb_plot 0) \<and>
    0 < timeArray (climb_plot 0) ! 0 \<and> (0::int) \<le> 6"
    by (simp add: climb_plot_sel)
  have h3: "smooth (climb_plot (- 3)) < 0 \<and> 0 < arrayLength (climb_plot (- 3)) \<and>
    0 < timeArray (climb_plot (- 3)) ! 0 \<and> (0::int) \<le> 6"
    by (simp add: climb_plot_sel)
  note t2 = altitude_read_in_bounds [of "climb_plot 2" 6 4]
  from t2 h obtain l where
    "smoothing (climb_plot 2) 6 = Inr l \<and> 0 \<le> (4::int) - 1 \<and>
     nat (4 - 1) < length (smoothAltitude l) \<and>
     smoothAltitude l ! nat 4 =
       (if window (climb_plot 2) 4 = [] then smoothAltitude l ! nat (4 - 1)
        else mean (map dp_alt (window (climb_plot 2) 4)))"
    by blast
  then have e: "\<exists>l. smoothing (climb_plot 2) 6 = Inr l \<and> smoothAltitude l ! 4 = smoothAltitude l ! 3"
    by (intro exI [of _ l]) (simp add: w)
  have z: "smoothing (climb_plot 0) 6 = Inl (ReadOutOfBounds (- 1))"
    using altitude_read_in_bounds [of "climb_plot 0" 6 0] h0 by blast
  have n: "smoothing (climb_plot (- 3)) 6 = Inl (WriteOutOfBounds (- 3))"
    using altitude_read_in_bounds [of "climb_plot (- 3)" 6 0] h3 by (simp add: climb_plot_sel)
  show ?thesis using h h0 h3 w e z n by simp
qed

section \<open>Further properties\<close>

text \<open>
  The guard of \<^verbatim>\<open>recalc\<close> on the length of the ride, where the time stamp converts to
  \<^verbatim>\<open>int\<close>: for a last time stamp above \<open>7 * 24 * 60 * 60\<close> and at most \<open>2^31 - 1\<close> seconds,
  \<^verbatim>\<open>recalc\<close> gives every curve whose channel is present an empty data series and changes
  nothing else: no smoothed values, no axis scale, no zone label and no marker.
\<close>

theorem recalc_long_ride:
  assumes "timeArray st \<noteq> []" and "length (timeArray st) = arrayLength st"
    and "7 * 24 * 60 * 60 < last (timeArray st)" and "last (timeArray st) \<le> 2 ^ 31 - 1"
  shows "recalc maxYValue st =
           Inr (st\<lparr>wattsCurve := (if wattsArray st \<noteq> [] then (wattsCurve st)\<lparr>xData := [], yData := []\<rparr>
                                   else wattsCurve st),
                   hrCurve := (if hrArray st \<noteq> [] then (hrCurve st)\<lparr>xData := [], yData := []\<rparr>
                               else hrCurve st),
                   speedCurve := (if speedArray st \<noteq> [] then (speedCurve st)\<lparr>xData := [], yData := []\<rparr>
                                  else speedCurve st),
                   cadCurve := (if cadArray st \<noteq> [] then (cadCurve st)\<lparr>xData := [], yData := []\<rparr>
                                else cadCurve st),
                   altCurve := (if altArray st \<noteq> [] then (altCurve st)\<lparr>xData := [], yData := []\<rparr>
                                else altCurve st)\<rparr>)"
proof -
  have "\<lceil>last (timeArray st)\<rceil> \<le> 2 ^ 31 - 1" using assms(4) by (simp add: ceiling_le_iff)
  then have "recalc maxYValue st = Inr (clear_curves st)"
    using recalc_over_week [OF assms(1-3)] by simp
  then show ?thesis by (simp add: clear_curves_def Let_def curve_setData_def)
qed

theorem recalc_long_ride_witness:
  "timeArray (stamped_plot 700000) \<noteq> [] \<and>
   length (timeArray (stamped_plot 700000)) = arrayLength (stamped_plot 700000) \<and>
   7 * 24 * 60 * 60 < last (timeArray (stamped_plot 700000)) \<and>
   last (timeArray (stamped_plot 700000)) \<le> 2 ^ 31 - 1 \<and>
   (\<exists>st'. setData example_maxY (stamped_item 700000) metric_plot = Inr st' \<and>
          yData (wattsCurve st') = [] \<and> xData (wattsCurve st') = [] \<and> d_mrk st' = [])"
proof -
  let ?st = "stamped_plot 700000"
  have h: "timeArray ?st \<noteq> []" "length (timeArray ?st) = arrayLength ?st"
    "7 * 24 * 60 * 60 < last (timeArray ?st)" "last (timeArray ?st) \<le> 2 ^ 31 - 1"
    by (simp_all add: stamped_plot_sel)
  have w: "wattsArray ?st \<noteq> []" "d_mrk ?st = []"
    by (simp_all add: stamped_plot_def loaded_def load_ride_arrays load_ride_frame
          stamped_ride_def all_present_def metric_plot_def AllPlot_new_def raw_plot_def
          setXTitle_def Let_def)
  have "setData example_maxY (stamped_item 700000) metric_plot = recalc example_maxY ?st"
    by (simp add: setData_Some [OF stamped_plot_sel(5)] stamped_plot_def)
  then show ?thesis
    using recalc_long_ride [OF h, of example_maxY] h w by simp
qed

text \<open>
  Two transitions in one bin. The ride below enters interval 1 at 2 s and interval 2 at 3 s;
  with a window of three seconds both samples are taken in bin 3, the second entry of the
  interval map replaces the first, and one marker, labelled 2, is made for the two
  transitions.
\<close>

theorem recalc_markers_collide:
  "\<exists>st'. setData example_maxY burst_item (metric_plot\<lparr>smooth := 3\<rparr>) = Inr st' \<and>
         timeArray st' = [1, 2, 3] \<and> interArray st' = [0, 1, 2] \<and> smooth st' = 3 \<and>
         d_mrk st' = [\<lparr>xValue = 3 / 60, yValue = 0, mrkLabel = 2\<rparr>]"
proof -
  let ?st = burst_plot
  let ?l1 = "init_loop 3 3 0 (locals_new 4)"
  have srt: "sorted (timeArray ?st)" and len: "length (timeArray ?st) = arrayLength ?st"
    and ne: "timeArray ?st \<noteq> []"
    by (simp_all add: burst_plot_sel)
  have ac: "accus ?l1 = (0, 0, 0, 0, 0, 0, [], [], 0, 0)" and v: "vec_len 4 ?l1"
    using init_loop_keeps [of 3 3 0 "locals_new 4" 4] by (simp_all add: locals_new_sel)
  have f: "idx ?l1 = 0" "interList ?l1 = []" "lastInterval ?l1 = 0"
    using ac by (simp_all add: accus_def)
  have a: "at_bin ?st 4 3 ?l1" using ac v by (rule at_bin_start)
  from bin_body_result [OF a srt len] obtain l where
    l: "bin_body ?st 3 ?l1 = Inr l" "accus l = accus (evict ?st 3 (consume ?st 3 ?l1))"
      "vec_len 4 l"
    by (auto simp: at_bin_def)
  have q: "queue_ok ?st ?l1" "consumed_upto ?st ?l1 3" "evicted_below ?st ?l1 0"
    using a by (simp_all add: at_bin_def burst_plot_sel)
  note c1 = consume_facts [OF q(1) q(2) q(3), of 3]
  have "interList (evict ?st 3 (consume ?st 3 ?l1)) = interList (consume ?st 3 ?l1)"
    using evict_facts(7) [OF c1(1) c1(2) c1(3), of 3] by (simp add: burst_plot_sel)
  then have il: "interList l = interList (consume ?st 3 ?l1)"
    using l(2) by (simp add: accus_def)
  have c: "consume ?st 3 ?l1 =
             consume_step ?st 3 (consume_step ?st 3 (consume_step ?st 3 ?l1))"
    by (simp add: consume.simps [of ?st 3] consume_step_sel f burst_plot_sel)
  have il2: "interList l = [(3 / 60, 2)]"
    by (simp add: il c consume_step_inter consume_step_sel f burst_plot_sel)
  have sm: "smoothing ?st 3 = Inr l"
    using l(1) by (simp add: smoothing_def burst_plot_sel main_loop.simps [of ?st 3])
  have rc: "recalc example_maxY ?st = recalc_finish example_maxY ?st 3 l"
    using recalc_smoothing [OF ne len, of example_maxY] sm by (simp add: burst_plot_sel)
  have m: "new_markers (bydist ?st) (smoothDistance l) (interList l) =
             Inr [\<lparr>xValue = 3 / 60, yValue = 0, mrkLabel = 2\<rparr>]"
    using new_markers_time [of "smoothDistance l" "[(3 / 60, 2)]"]
    by (simp add: burst_plot_sel il2 time_marker_def)
  have "bydist ?st \<or> (0 \<le> (3::int) \<and> 3 < int (length (smoothTime l)))"
    using l(3) by (simp add: vec_len_def)
  from recalc_finish_Inr [OF this burst_plot_sel(7) m] obtain st' where
    st': "recalc_finish example_maxY ?st 3 l = Inr st'" by blast
  have d: "d_mrk st' = [\<lparr>xValue = 3 / 60, yValue = 0, mrkLabel = 2\<rparr>]"
    using recalc_finish_sel(7) [OF st'] m by simp
  have fr: "members st' = members ?st" using recalc_finish_frame [OF st'] by simp
  have "setData example_maxY burst_item (metric_plot\<lparr>smooth := 3\<rparr>) = recalc example_maxY ?st"
    by (simp add: setData_Some [OF burst_plot_sel(8)] burst_plot_def)
  then show ?thesis
    using rc st' d fr by (intro exI [of _ st']) (simp add: members_def burst_plot_sel)
qed

text \<open>
  A marker in distance mode. The ride below enters interval 1 with its last sample, at
  31 s, which is taken in bin 31; the key of the entry is the \<^verbatim>\<open>double\<close> nearest to 31/60,
  60 times the key rounds to a value above 31, and \<^verbatim>\<open>smoothDistance\<close>, which has the 32
  elements 0 to 31, is read at the index 32.
\<close>

theorem recalc_marker_past_end:
  "marker_index (31 / 60) = 32 \<and>
   setData example_maxY lap_item (metric_plot\<lparr>bydist := True\<rparr>) = Inl (ReadOutOfBounds 32)"
proof -
  let ?st = lap_plot
  have tr: "transitions 0 (samples ?st) = [sample_of True all_present (dataPoints lap_ride ! 1)]"
    by (simp add: lap_plot_sel lap_ride_def sample_of_def)
  have b: "map (bin_of ?st) (transitions 0 (samples ?st)) = [31]"
    by (simp add: tr bin_of_def lap_plot_sel lap_ride_def sample_of_def)
  have dist: "distinct (map (bin_of ?st) (transitions 0 (samples ?st)))" unfolding b by simp
  have h: "sorted (timeArray ?st)" "length (timeArray ?st) = arrayLength ?st" "1 \<le> smooth ?st"
    "smooth ?st \<le> 31" "timeArray ?st \<noteq> []" "last (timeArray ?st) \<le> real_of_int 31"
    by (simp_all add: lap_plot_sel)
  from smoothing_inter [OF h dist] obtain l where
    l: "smoothing ?st 31 = Inr l" "vec_len (nat (31 + 1)) l"
       "interList l = entries ?st (samples ?st)" by blast
  have il: "interList l = [(31 / 60, 1)]"
    using b by (simp add: l(3) entries_def tr lap_ride_def sample_of_def)
  have len: "length (smoothDistance l) = 32" using l(2) by (simp add: vec_len_def)
  have rc: "recalc example_maxY ?st = recalc_finish example_maxY ?st 31 l"
    using recalc_smoothing [OF h(5) h(2), of example_maxY] l(1) by (simp add: lap_plot_sel)
  have mx: "marker_x True (smoothDistance l) (31 / 60) = Inl (ReadOutOfBounds 32)"
    by (simp add: marker_x_def marker_index_31 int_cast_def len)
  have nm: "new_markers True (smoothDistance l) (interList l) = Inl (ReadOutOfBounds 32)"
    by (simp add: il mx)
  let ?v = "(0, totalDist l)"
  let ?s1 = "setYMax example_maxY ((set_curves ?st 31 l)\<lparr>xBottomScale := ?v\<rparr>)"
  have m: "members ?s1 = members ?st"
    by (simp only: setYMax_frame update_frame set_curves_frame)
  then have ri: "rideItem ?s1 = rideItem ?st" and bd: "bydist ?s1" 
    by (simp_all add: members_def lap_plot_sel)
  have b0: "bydist (set_curves ?st 31 l)"
    using set_curves_frame(1) [of ?st 31 l] by (simp add: members_def lap_plot_sel)
  obtain labels where lb: "refreshZoneLabels ?s1 = Inr (?s1\<lparr>zoneLabels := labels\<rparr>)"
    using refreshZoneLabels_Inr [of ?s1] names_ok_cong [OF ri] lap_plot_sel(6) by auto
  have "recalc_finish example_maxY ?st 31 l = Inl (ReadOutOfBounds 32)"
    using lb bd nm by (simp add: recalc_finish_def Let_def b0)
  moreover have "setData example_maxY lap_item (metric_plot\<lparr>bydist := True\<rparr>) =
                 recalc example_maxY ?st"
    by (simp add: setData_Some [OF lap_plot_sel(7)] lap_plot_def)
  ultimately show ?thesis using rc marker_index_31 by simp
qed

end
